(* ===== verification/Prelude.thy ===== *)
theory Prelude
  imports Main "HOL-Library.AList" "HOL-Library.List_Lexorder" "HOL-Library.Char_ord"
    "HOL-Library.Multiset" "HOL-Library.Monad_Syntax"
begin

text \<open>
  Shared vocabulary of the development: Go strings are byte strings
  (\<^typ>\<open>string\<close>, compared bytewise by the orders of \<open>List_Lexorder\<close> and \<open>Char_ord\<close>),
  Go maps are association lists with one entry per key, a fallible Go call returns
  \<open>Inl\<close> of its error or \<open>Inr\<close> of its value, and \<open>range\<close> over a map visits the keys in
  an order the language leaves open, modelled by an argument that permutes the keys.
  The file also holds the literal model of the insertion sort the sources write by hand
  and the generic facts on lists and association lists the components share.
\<close>

subsection \<open>Go maps as association lists\<close>

named_theorems gomap_simps \<open>lookup after an update of a Go map\<close>

type_synonym ('k, 'v) gomap = "('k \<times> 'v) list"

abbreviation mget :: "('k, 'v) gomap \<Rightarrow> 'k \<Rightarrow> 'v option" where
  "mget \<equiv> map_of"

abbreviation mput :: "'k \<Rightarrow> 'v \<Rightarrow> ('k, 'v) gomap \<Rightarrow> ('k, 'v) gomap" where
  "mput \<equiv> AList.update"

abbreviation mdel :: "'k \<Rightarrow> ('k, 'v) gomap \<Rightarrow> ('k, 'v) gomap" where
  "mdel \<equiv> AList.delete"

abbreviation mkeys :: "('k, 'v) gomap \<Rightarrow> 'k list" where
  "mkeys m \<equiv> map fst m"

text \<open>Reading a missing key yields the zero value of the element type.\<close>

definition mget0 :: "'v \<Rightarrow> ('k, 'v) gomap \<Rightarrow> 'k \<Rightarrow> 'v" where
  "mget0 z m k = (case mget m k of None \<Rightarrow> z | Some v \<Rightarrow> v)"

text \<open>
  Go does not fix the order in which \<open>range\<close> visits a map. A \<open>range_order\<close> is any
  function that returns the keys it is given in some order.
\<close>

definition range_order :: "('k list \<Rightarrow> 'k list) \<Rightarrow> bool" where
  "range_order rng \<longleftrightarrow> (\<forall>ks. mset (rng ks) = mset ks)"

text \<open>The loop \<open>for _, x := range xs { m[key(x)] = x }\<close>.\<close>

fun index_by :: "('a \<Rightarrow> 'k) \<Rightarrow> ('k, 'a) gomap \<Rightarrow> 'a list \<Rightarrow> ('k, 'a) gomap" where
  "index_by key m [] = m"
| "index_by key m (x # xs) = index_by key (mput (key x) x m) xs"

lemma mget_mput [simp, gomap_simps]:
  "mget (mput k v m) k' = (if k' = k then Some v else mget m k')"
  by (simp add: update_conv')

lemma mget_mdel [simp, gomap_simps]:
  "mget (mdel k m) k' = (if k' = k then None else mget m k')"
  by (simp add: delete_conv')

lemma mget0_mput [simp, gomap_simps]:
  "mget0 z (mput k v m) k' = (if k' = k then v else mget0 z m k')"
  by (simp add: mget0_def)

lemma mget0_Nil [simp]: "mget0 z [] k = z"
  by (simp add: mget0_def)

lemma distinct_mput [simp, intro]: "distinct (mkeys m) \<Longrightarrow> distinct (mkeys (mput k v m))"
  by (rule distinct_update)

lemma distinct_mdel [simp, intro]: "distinct (mkeys m) \<Longrightarrow> distinct (mkeys (mdel k m))"
  by (rule distinct_delete)

lemma set_mkeys_mput [simp]: "set (mkeys (mput k v m)) = insert k (set (mkeys m))"
  using dom_update [of k v m] by simp

lemma fst_mput [simp]: "fst ` set (mput k v m) = insert k (fst ` set m)"
  using set_mkeys_mput [of k v m] by simp

lemma set_mkeys_mdel [simp]: "set (mkeys (mdel k m)) = set (mkeys m) - {k}"
  by (induction m) auto

lemma fst_mdel [simp]: "fst ` set (mdel k m) = fst ` set m - {k}"
  using set_mkeys_mdel [of k m] by simp

lemma mput_fresh: "k \<notin> set (mkeys m) \<Longrightarrow> mput k v m = m @ [(k, v)]"
  by (induction m) auto

lemma mget_None_iff: "mget m k = None \<longleftrightarrow> k \<notin> set (mkeys m)"
  by (induction m) auto

lemma range_order_set [simp]: "range_order rng \<Longrightarrow> set (rng ks) = set ks"
  by (metis range_order_def set_mset_mset)

lemma range_order_distinct [simp]: "range_order rng \<Longrightarrow> distinct (rng ks) = distinct ks"
  by (metis mset_eq_imp_distinct_iff range_order_def)

lemma range_order_id [simp, intro]: "range_order (\<lambda>ks. ks)"
  by (simp add: range_order_def)

lemma range_order_rev [simp, intro]: "range_order rev"
  by (simp add: range_order_def)

lemma find_SomeE: "find P xs = Some x \<Longrightarrow> x \<in> set xs \<and> P x"
  by (induction xs) (auto split: if_splits)

lemma find_snoc:
  "find P (xs @ [x]) = (case find P xs of None \<Rightarrow> (if P x then Some x else None) | Some y \<Rightarrow> Some y)"
  by (induction xs) auto

lemma index_by_get:
  "mget (index_by key m xs) k =
     (case find (\<lambda>x. key x = k) (rev xs) of None \<Rightarrow> mget m k | Some x \<Rightarrow> Some x)"
  by (induction xs arbitrary: m) (auto simp: find_snoc split: option.splits)

lemma index_by_distinct [simp, intro]:
  "distinct (mkeys m) \<Longrightarrow> distinct (mkeys (index_by key m xs))"
  by (induction xs arbitrary: m) (auto simp del: map_map)

lemma index_by_keys [simp]:
  "set (mkeys (index_by key m xs)) = set (mkeys m) \<union> key ` set xs"
  by (induction xs arbitrary: m) (auto simp del: set_map)

text \<open>With distinct keys, the index finds exactly the listed elements.\<close>

lemma find_unique:
  "distinct (map f xs) \<Longrightarrow> find (\<lambda>x. f x = k) xs = Some y \<longleftrightarrow> y \<in> set xs \<and> f y = k"
  by (induction xs) (auto simp: image_iff)

lemma index_by_unique:
  assumes "distinct (map key xs)"
  shows "mget (index_by key [] xs) k = Some x \<longleftrightarrow> x \<in> set xs \<and> key x = k"
proof -
  have "distinct (map key (rev xs))" using assms by (simp add: rev_map [symmetric])
  from find_unique [OF this, of k x] show ?thesis
    by (cases "find (\<lambda>x. key x = k) (rev xs)") (simp_all add: index_by_get)
qed

lemma index_by_None: "mget (index_by key [] xs) k = None \<longleftrightarrow> k \<notin> key ` set xs"
  by (auto simp: mget_None_iff simp del: set_map)

subsection \<open>The hand-written insertion sort\<close>

text \<open>
  \<open>sortStrings\<close> of \<open>internal/pipeline/dag.go\<close> and \<open>sortActions\<close> of
  \<open>internal/plan/plan.go\<close> are the same two nested loops: the inner loop swaps element
  \<open>j\<close> to the left while it is smaller than its neighbour, the outer loop runs \<open>i\<close> from 1.
\<close>

fun sift_left :: "('a \<Rightarrow> 'a \<Rightarrow> bool) \<Rightarrow> 'a list \<Rightarrow> nat \<Rightarrow> 'a list" where
  "sift_left lt s 0 = s"
| "sift_left lt s (Suc j) =
     (if lt (s ! Suc j) (s ! j) then sift_left lt (s[Suc j := s ! j, j := s ! Suc j]) j else s)"

function insertion_sort_from :: "('a \<Rightarrow> 'a \<Rightarrow> bool) \<Rightarrow> nat \<Rightarrow> 'a list \<Rightarrow> 'a list" where
  "insertion_sort_from lt i s =
     (if i < length s then insertion_sort_from lt (Suc i) (sift_left lt s i) else s)"
  by pat_completeness auto

lemma length_sift_left [simp]: "length (sift_left lt s j) = length s"
  by (induction lt s j rule: sift_left.induct) auto

termination insertion_sort_from
  by (relation "measure (\<lambda>(lt, i, s). length s - i)") auto

definition insertion_sort :: "('a \<Rightarrow> 'a \<Rightarrow> bool) \<Rightarrow> 'a list \<Rightarrow> 'a list" where
  "insertion_sort lt s = insertion_sort_from lt 1 s"

declare insertion_sort_from.simps [simp del]

text \<open>
  The inner loop places the element after the last one that is not greater; the outer loop
  is a fold of that step. For a comparison of keys the result is the stable sort.
\<close>

definition place :: "('a \<Rightarrow> 'a \<Rightarrow> bool) \<Rightarrow> 'a \<Rightarrow> 'a list \<Rightarrow> 'a list" where
  "place lt x xs = rev (dropWhile (lt x) (rev xs)) @ x # rev (takeWhile (lt x) (rev xs))"

lemma sift_left_place: "sift_left lt (xs @ x # ys) (length xs) = place lt x xs @ ys"
proof (induction xs arbitrary: x ys rule: rev_induct)
  case Nil
  show ?case by (simp add: place_def)
next
  case (snoc y zs)
  have "(zs @ y # x # ys)[Suc (length zs) := y, length zs := x] = zs @ x # y # ys"
    by (simp add: list_update_append)
  with snoc.IH [of x "y # ys"] show ?case
    by (simp add: nth_append place_def)
qed

lemma length_place [simp]: "length (place lt x xs) = Suc (length xs)"
proof -
  have "length (dropWhile (lt x) (rev xs)) + length (takeWhile (lt x) (rev xs)) = length xs"
    by (metis add.commute length_append length_rev takeWhile_dropWhile_id)
  then show ?thesis by (simp add: place_def)
qed

lemma insertion_sort_from_fold:
  "insertion_sort_from lt (length pre) (pre @ post) = foldl (\<lambda>p x. place lt x p) pre post"
proof (induction post arbitrary: pre)
  case Nil
  show ?case by (simp add: insertion_sort_from.simps)
next
  case (Cons x post)
  from Cons.IH [of "place lt x pre"] show ?case
    by (simp add: insertion_sort_from.simps [of lt "length pre"] sift_left_place)
qed

lemma insertion_sort_fold: "insertion_sort lt s = foldl (\<lambda>p x. place lt x p) [] s"
proof (cases s)
  case Nil
  then show ?thesis by (simp add: insertion_sort_def insertion_sort_from.simps)
next
  case (Cons x xs)
  with insertion_sort_from_fold [of lt "[x]" xs] show ?thesis
    by (simp add: insertion_sort_def place_def)
qed

lemma mset_place [simp]: "mset (place lt x xs) = add_mset x (mset xs)"
proof -
  have "mset (dropWhile (lt x) (rev xs)) + mset (takeWhile (lt x) (rev xs)) = mset xs"
    by (metis add.commute mset_append mset_rev takeWhile_dropWhile_id)
  then show ?thesis by (simp add: place_def)
qed

lemma place_split:
  obtains as bs where "xs = as @ bs" "place lt x xs = as @ x # bs"
    "\<forall>y \<in> set bs. lt x y" "as = [] \<or> \<not> lt x (last as)"
proof
  show "xs = rev (dropWhile (lt x) (rev xs)) @ rev (takeWhile (lt x) (rev xs))"
    by (metis rev_append rev_rev_ident takeWhile_dropWhile_id)
  show "place lt x xs = rev (dropWhile (lt x) (rev xs)) @ x # rev (takeWhile (lt x) (rev xs))"
    by (simp add: place_def)
  show "\<forall>y \<in> set (rev (takeWhile (lt x) (rev xs))). lt x y"
    by (auto dest: set_takeWhileD)
  show "rev (dropWhile (lt x) (rev xs)) = [] \<or> \<not> lt x (last (rev (dropWhile (lt x) (rev xs))))"
    by (metis hd_dropWhile last_rev rev_is_Nil_conv)
qed

lemma place_sorted:
  fixes f :: "'a \<Rightarrow> 'b::linorder"
  assumes "sorted (map f xs)"
  shows "sorted (map f (place (\<lambda>x y. f x < f y) x xs))"
proof -
  obtain as bs where split: "xs = as @ bs" "place (\<lambda>x y. f x < f y) x xs = as @ x # bs"
    "\<forall>y \<in> set bs. f x < f y" "as = [] \<or> \<not> f x < f (last as)"
    by (rule place_split)
  have "\<forall>a \<in> set as. f a \<le> f x"
  proof (cases as rule: rev_cases)
    case (snoc as' a)
    with split assms show ?thesis by (force simp: sorted_append)
  qed simp
  with split assms show ?thesis
    by (auto simp: sorted_append less_imp_le)
qed

lemma place_filter:
  fixes f :: "'a \<Rightarrow> 'b::linorder"
  shows "filter (\<lambda>y. k = f y) (place (\<lambda>x y. f x < f y) x xs) =
    filter (\<lambda>y. k = f y) xs @ filter (\<lambda>y. k = f y) [x]"
proof -
  obtain as bs where split: "xs = as @ bs" "place (\<lambda>x y. f x < f y) x xs = as @ x # bs"
    "\<forall>y \<in> set bs. f x < f y" "as = [] \<or> \<not> f x < f (last as)"
    by (rule place_split)
  have "k = f x \<Longrightarrow> filter (\<lambda>y. k = f y) bs = []"
    using split(3) by (auto simp: filter_empty_conv)
  with split show ?thesis by auto
qed

theorem insertion_sort_is_sort_key:
  fixes f :: "'a \<Rightarrow> 'b::linorder"
  shows "insertion_sort (\<lambda>x y. f x < f y) s = sort_key f s"
proof -
  let ?pl = "\<lambda>p x. place (\<lambda>x y. f x < f y) x p"
  have inv: "sorted (map f p) \<Longrightarrow> sorted (map f (foldl ?pl p xs)) \<and>
      mset (foldl ?pl p xs) = mset p + mset xs \<and>
      (\<forall>k. filter (\<lambda>y. k = f y) (foldl ?pl p xs) = filter (\<lambda>y. k = f y) (p @ xs))" for p xs
    by (induction xs arbitrary: p) (simp_all add: place_sorted place_filter)
  from inv [of "[]" s] show ?thesis
    by (subst properties_for_sort_key [of "insertion_sort (\<lambda>x y. f x < f y) s"])
      (simp_all add: insertion_sort_fold)
qed

end
