(* ===== verification/Pipeline_DAG.thy ===== *)
theory Pipeline_DAG
  imports Prelude
begin

text \<open>
  The pipeline graph of \<open>internal/pipeline/dag.go\<close>: indexing the steps, counting incoming
  edges, and the layered form of Kahn's algorithm. The main result is that the counting
  algorithm computes the reference layering \<open>spec_layers\<close>, from which the ordering
  properties follow, whatever order Go visits its maps in.
\<close>

subsection \<open>dag_Steps and the graph under construction\<close>

record Step =
  step_Name :: string
  step_AgentRef :: string
  step_Input :: string
  step_Output :: string
  step_Parallel :: bool
  step_DependsOn :: "string list"

record DAG =
  dag_Steps :: "(string, Step) gomap"
  dag_Order :: "string list list"
  dag_Incoming :: "(string, int) gomap"
  dag_Adjacency :: "(string, string list) gomap"

datatype dag_error =
    DuplicateStep string
  | UnknownDependency string string
  | SelfDependency string
  | CycleDetected

definition empty_dag :: DAG where
  "empty_dag = \<lparr>dag_Steps = [], dag_Order = [], dag_Incoming = [], dag_Adjacency = []\<rparr>"

text \<open>The first loop of \<open>BuildDAG\<close>: index the steps, refusing a duplicate name.\<close>

fun index_steps :: "Step list \<Rightarrow> DAG \<Rightarrow> dag_error + DAG" where
  "index_steps [] dag = Inr dag"
| "index_steps (s # ss) dag =
     (if mget (dag_Steps dag) (step_Name s) \<noteq> None then Inl (DuplicateStep (step_Name s))
      else index_steps ss (dag\<lparr>dag_Steps := mput (step_Name s) s (dag_Steps dag),
                               dag_Incoming := mput (step_Name s) 0 (dag_Incoming dag)\<rparr>))"

text \<open>The body of the second loop: the dependencies of one step.\<close>

fun add_deps :: "string \<Rightarrow> string list \<Rightarrow> DAG \<Rightarrow> dag_error + DAG" where
  "add_deps n [] dag = Inr dag"
| "add_deps n (dep # deps) dag =
     (if mget (dag_Steps dag) dep = None then Inl (UnknownDependency n dep)
      else if dep = n then Inl (SelfDependency n)
      else add_deps n deps
        (dag\<lparr>dag_Incoming := mput n (mget0 0 (dag_Incoming dag) n + 1) (dag_Incoming dag),
             dag_Adjacency := mput dep (mget0 [] (dag_Adjacency dag) dep @ [n]) (dag_Adjacency dag)\<rparr>))"

text \<open>The second loop, over the steps in the order \<open>range dag.Steps\<close> visits them.\<close>

fun add_edges :: "string list \<Rightarrow> DAG \<Rightarrow> dag_error + DAG" where
  "add_edges [] dag = Inr dag"
| "add_edges (k # ks) dag =
     (case mget (dag_Steps dag) k of
        None \<Rightarrow> add_edges ks dag
      | Some s \<Rightarrow>
          (case add_deps (step_Name s) (step_DependsOn s) dag of
             Inl e \<Rightarrow> Inl e
           | Inr dag' \<Rightarrow> add_edges ks dag'))"

subsection \<open>Kahn's algorithm\<close>

definition sortStrings :: "string list \<Rightarrow> string list" where
  "sortStrings s = insertion_sort (<) s"

text \<open>Decrement the count of each dependent; a count that reaches zero joins the queue.\<close>

fun relax :: "string list \<Rightarrow> (string, int) gomap \<Rightarrow> string list \<Rightarrow> (string, int) gomap \<times> string list"
where
  "relax [] incoming nextQueue = (incoming, nextQueue)"
| "relax (d # ds) incoming nextQueue =
     (let c = mget0 0 incoming d - 1;
          incoming' = mput d c incoming
      in relax ds incoming' (if c = 0 then nextQueue @ [d] else nextQueue))"

fun process_layer ::
  "(string, string list) gomap \<Rightarrow> string list \<Rightarrow> (string, int) gomap \<Rightarrow> string list
    \<Rightarrow> (string, int) gomap \<times> string list"
where
  "process_layer adj [] incoming nextQueue = (incoming, nextQueue)"
| "process_layer adj (name # layer) incoming nextQueue =
     (let (incoming', nextQueue') = relax (mget0 [] adj name) incoming nextQueue
      in process_layer adj layer incoming' nextQueue')"

definition positive_keys :: "(string, int) gomap \<Rightarrow> string set" where
  "positive_keys m = {k. 0 < mget0 0 m k}"

text \<open>
  The loop \<open>for len(queue) > 0\<close>. It ends because a step joins the queue only when its count
  drops from one to zero, so the number of positive counts bounds the layers still to come.
\<close>

function kahn ::
  "(string, string list) gomap \<Rightarrow> (string, int) gomap \<Rightarrow> string list \<Rightarrow> string list list \<Rightarrow> nat
    \<Rightarrow> string list list \<times> nat"
where
  "kahn adj incoming queue layers processed =
     (if queue = [] then (layers, processed)
      else let layer = sortStrings queue;
               (incoming', nextQueue) = process_layer adj layer incoming []
           in kahn adj incoming' nextQueue (layers @ [layer]) (processed + length layer))"
  by pat_completeness auto

lemma finite_positive_keys [simp]: "finite (positive_keys m)"
proof (rule finite_subset)
  show "positive_keys m \<subseteq> set (mkeys m)"
    by (force simp: positive_keys_def mget0_def dest: map_of_SomeD split: option.splits)
qed simp

lemma relax_positive:
  assumes "relax ds incoming nq = (incoming', nq')"
  shows "positive_keys incoming' \<subseteq> positive_keys incoming \<and>
    (\<exists>new. nq' = nq @ new \<and> set new \<subseteq> positive_keys incoming - positive_keys incoming')"
  using assms
proof (induction ds incoming nq rule: relax.induct)
  case (1 incoming nq)
  then show ?case by simp
next
  case (2 d ds incoming nq)
  let ?c = "mget0 0 incoming d - 1" and ?i = "mput d (mget0 0 incoming d - 1) incoming"
  have sub: "positive_keys ?i \<subseteq> positive_keys incoming"
    by (auto simp: positive_keys_def split: if_splits)
  from 2 obtain new where new: "nq' = (if ?c = 0 then nq @ [d] else nq) @ new"
    "positive_keys incoming' \<subseteq> positive_keys ?i"
    "set new \<subseteq> positive_keys ?i - positive_keys incoming'"
    by (fastforce simp: Let_def)
  show ?case
  proof (cases "?c = 0")
    case True
    then have "d \<in> positive_keys incoming - positive_keys ?i"
      by (simp add: positive_keys_def)
    with new sub True show ?thesis by (intro conjI exI [of _ "d # new"]) auto
  next
    case False
    with new sub show ?thesis by auto
  qed
qed

lemma process_layer_positive:
  assumes "process_layer adj layer incoming nq = (incoming', nq')"
  shows "positive_keys incoming' \<subseteq> positive_keys incoming \<and>
    (\<exists>new. nq' = nq @ new \<and> set new \<subseteq> positive_keys incoming - positive_keys incoming')"
  using assms
proof (induction adj layer incoming nq rule: process_layer.induct)
  case (1 adj incoming nq)
  then show ?case by simp
next
  case (2 adj name layer incoming nq)
  obtain i q where iq: "relax (mget0 [] adj name) incoming nq = (i, q)" by fastforce
  with 2(2) have "process_layer adj layer i q = (incoming', nq')" by simp
  from 2(1) [OF iq [symmetric] refl this] relax_positive [OF iq] show ?case by fastforce
qed

termination kahn
proof (relation "measures [\<lambda>(adj, incoming, queue, layers, processed). card (positive_keys incoming),
    \<lambda>(adj, incoming, queue, layers, processed). length queue]")
  fix adj incoming and queue :: "string list" and layers processed layer x incoming' nextQueue
  assume q: "queue \<noteq> []" and step: "x = process_layer adj layer incoming []"
    "(incoming', nextQueue) = x"
  from step have "process_layer adj layer incoming [] = (incoming', nextQueue)" by simp
  from process_layer_positive [OF this]
  have sub: "positive_keys incoming' \<subseteq> positive_keys incoming"
    and new: "set nextQueue \<subseteq> positive_keys incoming - positive_keys incoming'"
    by auto
  show "((adj, incoming', nextQueue, layers @ [layer], processed + length layer),
      adj, incoming, queue, layers, processed) \<in> measures [\<lambda>(adj, incoming, queue, layers, processed).
      card (positive_keys incoming), \<lambda>(adj, incoming, queue, layers, processed). length queue]"
  proof (cases "nextQueue = []")
    case True
    with q sub show ?thesis by (auto intro: card_mono simp: le_less [symmetric])
  next
    case False
    with new obtain k where "k \<in> positive_keys incoming" "k \<notin> positive_keys incoming'"
      by (cases nextQueue) auto
    with sub have "positive_keys incoming' \<subset> positive_keys incoming" by blast
    then show ?thesis by (simp add: psubset_card_mono)
  qed
qed simp

declare kahn.simps [simp del]

definition topologicalSort :: "(string list \<Rightarrow> string list) \<Rightarrow> DAG \<Rightarrow> dag_error + string list list" where
  "topologicalSort rng dag =
     (let incoming = dag_Incoming dag;
          queue = filter (\<lambda>name. mget0 0 incoming name = 0) (rng (mkeys incoming));
          (layers, processed) = kahn (dag_Adjacency dag) incoming queue [] 0
      in if processed < length (dag_Steps dag) then Inl CycleDetected else Inr layers)"

definition BuildDAG ::
  "(string list \<Rightarrow> string list) \<Rightarrow> (string list \<Rightarrow> string list) \<Rightarrow> Step list \<Rightarrow> dag_error + DAG"
where
  "BuildDAG rng rng' steps =
     (case index_steps steps empty_dag of
        Inl e \<Rightarrow> Inl e
      | Inr dag \<Rightarrow>
          (case add_edges (rng (mkeys (dag_Steps dag))) dag of
             Inl e \<Rightarrow> Inl e
           | Inr dag \<Rightarrow>
               (case topologicalSort rng' dag of
                  Inl e \<Rightarrow> Inl e
                | Inr order \<Rightarrow> Inr (dag\<lparr>dag_Order := order\<rparr>))))"

subsection \<open>The reference layering\<close>

text \<open>
  \<open>spec_layers\<close> is what the comments of the source promise: each layer holds, in order,
  every step not yet placed whose dependencies are all placed.
\<close>

definition step_names :: "Step list \<Rightarrow> string list" where
  "step_names steps = map step_Name steps"

definition deps_of :: "Step list \<Rightarrow> string \<Rightarrow> string list" where
  "deps_of steps k = (case find (\<lambda>s. step_Name s = k) steps of None \<Rightarrow> [] | Some s \<Rightarrow> step_DependsOn s)"

definition ready :: "Step list \<Rightarrow> string list \<Rightarrow> string list" where
  "ready steps placed =
     sort (filter (\<lambda>k. k \<notin> set placed \<and> set (deps_of steps k) \<subseteq> set placed) (step_names steps))"

function spec_layers :: "Step list \<Rightarrow> string list \<Rightarrow> string list list" where
  "spec_layers steps placed =
     (if ready steps placed = [] then []
      else ready steps placed # spec_layers steps (placed @ ready steps placed))"
  by pat_completeness auto

termination
proof (relation "measure (\<lambda>(steps, placed). card (set (step_names steps) - set placed))")
  fix steps :: "Step list" and placed :: "string list"
  assume "ready steps placed \<noteq> []"
  then obtain k where "k \<in> set (ready steps placed)" by fastforce
  then have "k \<in> set (step_names steps)" "k \<notin> set placed"
    by (auto simp: ready_def)
  with \<open>k \<in> set (ready steps placed)\<close>
  have "set (step_names steps) - set (placed @ ready steps placed)
      \<subset> set (step_names steps) - set placed" by auto
  then show "((steps, placed @ ready steps placed), steps, placed)
      \<in> measure (\<lambda>(steps, placed). card (set (step_names steps) - set placed))"
    by (simp add: psubset_card_mono)
qed simp

declare spec_layers.simps [simp del]

definition step_edges :: "Step list \<Rightarrow> (string \<times> string) set" where
  "step_edges steps = {(d, k). k \<in> set (step_names steps) \<and> d \<in> set (deps_of steps k)}"

definition deps_known :: "Step list \<Rightarrow> bool" where
  "deps_known steps \<longleftrightarrow> (\<forall>s \<in> set steps. set (step_DependsOn s) \<subseteq> set (step_names steps))"

lemma set_ready:
  "set (ready steps placed) =
     {k \<in> set (step_names steps). k \<notin> set placed \<and> set (deps_of steps k) \<subseteq> set placed}"
  by (auto simp: ready_def)

lemma sorted_ready [simp]: "sorted (ready steps placed)"
  by (simp add: ready_def)

lemma distinct_ready [simp]: "distinct (step_names steps) \<Longrightarrow> distinct (ready steps placed)"
  by (simp add: ready_def)

lemma spec_layers_placed:
  assumes "distinct (step_names steps)"
  shows "distinct (concat (spec_layers steps placed)) \<and>
    set (concat (spec_layers steps placed)) \<subseteq> set (step_names steps) - set placed \<and>
    (\<forall>L \<in> set (spec_layers steps placed). sorted L \<and> distinct L \<and> L \<noteq> [])"
  using assms
proof (induction steps placed rule: spec_layers.induct)
  case (1 steps placed)
  show ?case
  proof (cases "ready steps placed = []")
    case True
    then show ?thesis by (simp add: spec_layers.simps)
  next
    case False
    with 1 show ?thesis
      by (auto simp: spec_layers.simps [of steps placed] set_ready simp del: set_concat)
  qed
qed

text \<open>Every dependency of a step lies in a strictly earlier layer.\<close>

lemma spec_layers_deps:
  assumes "i < length (spec_layers steps placed)" "k \<in> set (spec_layers steps placed ! i)"
  shows "set (deps_of steps k) \<subseteq> set placed \<union> set (concat (take i (spec_layers steps placed)))"
  using assms
proof (induction steps placed arbitrary: i rule: spec_layers.induct)
  case (1 steps placed)
  have ne: "ready steps placed \<noteq> []"
    using "1.prems"(1) by (auto simp: spec_layers.simps [of steps placed] split: if_splits)
  then have unf: "spec_layers steps placed =
      ready steps placed # spec_layers steps (placed @ ready steps placed)"
    by (simp add: spec_layers.simps [of steps placed])
  show ?case
  proof (cases i)
    case 0
    with "1.prems" unf show ?thesis by (auto simp: set_ready)
  next
    case (Suc j)
    with "1.prems" unf "1.IH" [OF ne, of j] show ?thesis by fastforce
  qed
qed

text \<open>A step the layering never places has a dependency it never places.\<close>

lemma spec_layers_stuck:
  assumes "k \<in> set (step_names steps)" "k \<notin> set placed \<union> set (concat (spec_layers steps placed))"
  shows "\<not> set (deps_of steps k) \<subseteq> set placed \<union> set (concat (spec_layers steps placed))"
  using assms
proof (induction steps placed rule: spec_layers.induct)
  case (1 steps placed)
  show ?case
  proof (cases "ready steps placed = []")
    case True
    with "1.prems" set_ready [of steps placed] show ?thesis
      by (auto simp: spec_layers.simps [of steps placed])
  next
    case False
    then have unf: "spec_layers steps placed =
        ready steps placed # spec_layers steps (placed @ ready steps placed)"
      by (simp add: spec_layers.simps [of steps placed])
    from "1.IH" [OF False] "1.prems" show ?thesis by (simp add: unf Un_assoc)
  qed
qed

lemma spec_layers_complete_iff:
  assumes "distinct (step_names steps)" "\<forall>k. set (deps_of steps k) \<subseteq> set (step_names steps)"
  shows "set (concat (spec_layers steps [])) = set (step_names steps) \<longleftrightarrow> acyclic (step_edges steps)"
proof
  let ?Ls = "spec_layers steps []"
  assume all: "set (concat ?Ls) = set (step_names steps)"
  define rank where "rank k = (LEAST i. i < length ?Ls \<and> k \<in> set (?Ls ! i))" for k
  have rank: "rank k < length ?Ls \<and> k \<in> set (?Ls ! rank k)" if "k \<in> set (step_names steps)" for k
  proof -
    from that all have "k \<in> set (concat ?Ls)" by simp
    then obtain L where "L \<in> set ?Ls" "k \<in> set L" by auto
    then obtain i where "i < length ?Ls \<and> k \<in> set (?Ls ! i)" by (metis in_set_conv_nth)
    then show ?thesis unfolding rank_def by (rule LeastI)
  qed
  have "step_edges steps \<subseteq> measure rank"
  proof
    fix e assume "e \<in> step_edges steps"
    then obtain d k where e: "e = (d, k)" "k \<in> set (step_names steps)" "d \<in> set (deps_of steps k)"
      by (auto simp: step_edges_def)
    from spec_layers_deps [of "rank k" steps "[]" k] rank [OF e(2)] e(3)
    obtain L where "L \<in> set (take (rank k) ?Ls)" "d \<in> set L" by auto
    then obtain j where "j < rank k" "j < length ?Ls" "d \<in> set (?Ls ! j)"
      by (auto simp: in_set_conv_nth [of L])
    then have "rank d \<le> j" unfolding rank_def by (simp add: Least_le)
    with \<open>j < rank k\<close> e show "e \<in> measure rank" by simp
  qed
  then show "acyclic (step_edges steps)"
    by (meson acyclic_subset wf_acyclic wf_measure)
next
  let ?Ls = "spec_layers steps []"
  assume acyc: "acyclic (step_edges steps)"
  let ?U = "set (step_names steps) - set (concat ?Ls)"
  have "finite (step_edges steps)"
  proof (rule finite_subset)
    show "step_edges steps \<subseteq> set (step_names steps) \<times> set (step_names steps)"
      using assms(2) by (auto simp: step_edges_def)
  qed simp
  with acyc have wf: "wf (step_edges steps)" by (simp add: finite_acyclic_wf)
  have "?U = {}"
  proof (rule ccontr)
    assume "?U \<noteq> {}"
    then obtain k0 where "k0 \<in> ?U" by blast
    with wf obtain k where k: "k \<in> ?U" and min: "\<And>d. (d, k) \<in> step_edges steps \<Longrightarrow> d \<notin> ?U"
      by (rule wfE_min) blast
    from k spec_layers_stuck [of k steps "[]"] obtain d where
      "d \<in> set (deps_of steps k)" "d \<notin> set (concat ?Ls)" by auto
    with assms(2) k min [of d] show False by (auto simp: step_edges_def)
  qed
  with spec_layers_placed [OF assms(1), of "[]"] show "set (concat ?Ls) = set (step_names steps)"
    by auto
qed

subsection \<open>Building the graph\<close>

lemma sortStrings_sort: "sortStrings s = sort s"
  using insertion_sort_is_sort_key [where f = "\<lambda>x. x" and s = s] by (simp add: sortStrings_def)

lemma index_steps_eq:
  assumes "mkeys (dag_Incoming dag) = mkeys (dag_Steps dag)"
  shows "index_steps ss dag =
    (if distinct (step_names ss) \<and> set (step_names ss) \<inter> set (mkeys (dag_Steps dag)) = {}
     then Inr (dag\<lparr>dag_Steps := dag_Steps dag @ map (\<lambda>s. (step_Name s, s)) ss,
                   dag_Incoming := dag_Incoming dag @ map (\<lambda>s. (step_Name s, 0)) ss\<rparr>)
     else index_steps ss dag)
   \<and> (\<not> (distinct (step_names ss) \<and> set (step_names ss) \<inter> set (mkeys (dag_Steps dag)) = {})
      \<longrightarrow> (\<exists>n. index_steps ss dag = Inl (DuplicateStep n)))"
  using assms
proof (induction ss arbitrary: dag)
  case Nil
  then show ?case by (simp add: step_names_def)
next
  case (Cons s ss)
  show ?case
  proof (cases "step_Name s \<in> set (mkeys (dag_Steps dag))")
    case True
    then show ?thesis by (auto simp: mget_None_iff step_names_def)
  next
    case False
    let ?dag = "dag\<lparr>dag_Steps := dag_Steps dag @ [(step_Name s, s)],
      dag_Incoming := dag_Incoming dag @ [(step_Name s, 0)]\<rparr>"
    have "index_steps (s # ss) dag = index_steps ss ?dag"
      using False Cons.prems by (simp add: mget_None_iff mput_fresh)
    with Cons.IH [of ?dag] Cons.prems False show ?thesis
      by (auto simp: step_names_def)
  qed
qed

definition indexed :: "Step list \<Rightarrow> DAG" where
  "indexed steps = \<lparr>dag_Steps = map (\<lambda>s. (step_Name s, s)) steps, dag_Order = [],
     dag_Incoming = map (\<lambda>s. (step_Name s, 0)) steps, dag_Adjacency = []\<rparr>"

lemma index_steps_ok:
  "distinct (step_names steps) \<Longrightarrow> index_steps steps empty_dag = Inr (indexed steps)"
  using index_steps_eq [of empty_dag steps]
  by (simp add: empty_dag_def indexed_def)

lemma index_steps_duplicate:
  "\<not> distinct (step_names steps) \<Longrightarrow> \<exists>n. index_steps steps empty_dag = Inl (DuplicateStep n)"
  using index_steps_eq [of empty_dag steps] by (simp add: empty_dag_def)

lemma mget_indexed:
  "distinct (step_names steps) \<Longrightarrow>
     mget (dag_Steps (indexed steps)) k = find (\<lambda>s. step_Name s = k) steps"
  by (induction steps) (auto simp: indexed_def step_names_def)

lemma mkeys_indexed [simp]:
  "mkeys (dag_Steps (indexed steps)) = step_names steps"
  "mkeys (dag_Incoming (indexed steps)) = step_names steps"
  by (simp_all add: indexed_def step_names_def)

lemma mget0_indexed [simp]: "mget0 0 (dag_Incoming (indexed steps)) k = 0"
proof -
  have "mget (map (\<lambda>s. (step_Name s, 0::int)) steps) k = Some c \<Longrightarrow> c = 0" for c
    by (induction steps) (auto split: if_splits)
  then show ?thesis by (auto simp: indexed_def mget0_def split: option.splits)
qed

lemma add_deps_ok:
  assumes "set deps \<subseteq> set (mkeys (dag_Steps dag))" "n \<notin> set deps"
    "n \<in> set (mkeys (dag_Incoming dag))" "distinct (mkeys (dag_Incoming dag))"
  shows "\<exists>dag'. add_deps n deps dag = Inr dag' \<and> dag_Steps dag' = dag_Steps dag \<and>
    dag_Order dag' = dag_Order dag \<and> set (mkeys (dag_Incoming dag')) = set (mkeys (dag_Incoming dag)) \<and>
    distinct (mkeys (dag_Incoming dag')) \<and>
    (\<forall>k. mget0 0 (dag_Incoming dag') k = mget0 0 (dag_Incoming dag) k + (if k = n then int (length deps) else 0)) \<and>
    (\<forall>d k. count_list (mget0 [] (dag_Adjacency dag') d) k =
       count_list (mget0 [] (dag_Adjacency dag) d) k + (if k = n then count_list deps d else 0))"
  using assms
proof (induction n deps dag rule: add_deps.induct)
  case (1 n dag)
  then show ?case by simp
next
  case (2 n dep deps dag)
  let ?dag = "dag\<lparr>dag_Incoming := mput n (mget0 0 (dag_Incoming dag) n + 1) (dag_Incoming dag),
    dag_Adjacency := mput dep (mget0 [] (dag_Adjacency dag) dep @ [n]) (dag_Adjacency dag)\<rparr>"
  have some: "mget (dag_Steps dag) dep \<noteq> None" and neq: "dep \<noteq> n"
    using "2.prems"(1,2) by (auto simp: mget_None_iff)
  have "set deps \<subseteq> set (mkeys (dag_Steps ?dag))" "n \<notin> set deps"
    "n \<in> set (mkeys (dag_Incoming ?dag))" "distinct (mkeys (dag_Incoming ?dag))"
    using "2.prems" by auto
  from "2.IH" [OF _ neq this] some obtain dag' where dag': "add_deps n deps ?dag = Inr dag'"
    and frame: "dag_Steps dag' = dag_Steps dag" "dag_Order dag' = dag_Order dag"
      "set (mkeys (dag_Incoming dag')) = set (mkeys (dag_Incoming ?dag))"
      "distinct (mkeys (dag_Incoming dag'))"
    and inc: "\<forall>k. mget0 0 (dag_Incoming dag') k = mget0 0 (dag_Incoming ?dag) k +
      (if k = n then int (length deps) else 0)"
    and adj: "\<forall>d k. count_list (mget0 [] (dag_Adjacency dag') d) k =
      count_list (mget0 [] (dag_Adjacency ?dag) d) k + (if k = n then count_list deps d else 0)"
    by auto
  have "add_deps n (dep # deps) dag = Inr dag'" using dag' some neq by simp
  then show ?case using frame inc adj "2.prems"(3)
    by (intro exI [of _ dag']) (auto simp: insert_absorb)
qed

lemma add_deps_error:
  assumes "\<not> (set deps \<subseteq> set (mkeys (dag_Steps dag)) \<and> n \<notin> set deps)"
  shows "\<exists>d. add_deps n deps dag \<in> {Inl (UnknownDependency n d), Inl (SelfDependency n)}"
  using assms
  by (induction n deps dag rule: add_deps.induct) (auto simp: mget_None_iff)

definition edges_ok :: "DAG \<Rightarrow> string \<Rightarrow> bool" where
  "edges_ok dag k \<longleftrightarrow> (\<forall>s. mget (dag_Steps dag) k = Some s \<longrightarrow>
     set (step_DependsOn s) \<subseteq> set (mkeys (dag_Steps dag)) \<and> k \<notin> set (step_DependsOn s))"

definition deps_in :: "DAG \<Rightarrow> string \<Rightarrow> string list" where
  "deps_in dag k = (case mget (dag_Steps dag) k of None \<Rightarrow> [] | Some s \<Rightarrow> step_DependsOn s)"

lemma add_edges_ok:
  assumes "distinct ks" "\<forall>k \<in> set ks. edges_ok dag k"
    "\<forall>k s. mget (dag_Steps dag) k = Some s \<longrightarrow> step_Name s = k"
    "set ks \<subseteq> set (mkeys (dag_Incoming dag))" "distinct (mkeys (dag_Incoming dag))"
  shows "\<exists>dag'. add_edges ks dag = Inr dag' \<and> dag_Steps dag' = dag_Steps dag \<and>
    dag_Order dag' = dag_Order dag \<and> set (mkeys (dag_Incoming dag')) = set (mkeys (dag_Incoming dag)) \<and>
    distinct (mkeys (dag_Incoming dag')) \<and>
    (\<forall>k. mget0 0 (dag_Incoming dag') k =
       mget0 0 (dag_Incoming dag) k + (if k \<in> set ks then int (length (deps_in dag k)) else 0)) \<and>
    (\<forall>d k. count_list (mget0 [] (dag_Adjacency dag') d) k =
       count_list (mget0 [] (dag_Adjacency dag) d) k +
       (if k \<in> set ks then count_list (deps_in dag k) d else 0))"
  using assms
proof (induction ks arbitrary: dag)
  case Nil
  then show ?case by simp
next
  case (Cons k ks)
  show ?case
  proof (cases "mget (dag_Steps dag) k")
    case None
    with Cons.IH [of dag] Cons.prems show ?thesis by (auto simp: deps_in_def)
  next
    case (Some s)
    have name: "step_Name s = k" using Cons.prems(3) Some by blast
    have pre: "set (step_DependsOn s) \<subseteq> set (mkeys (dag_Steps dag))" "k \<notin> set (step_DependsOn s)"
      "k \<in> set (mkeys (dag_Incoming dag))"
      using Cons.prems(2,4) Some by (auto simp: edges_ok_def)
    obtain dag1 where dag1: "add_deps k (step_DependsOn s) dag = Inr dag1"
      and frame: "dag_Steps dag1 = dag_Steps dag" "dag_Order dag1 = dag_Order dag"
        "set (mkeys (dag_Incoming dag1)) = set (mkeys (dag_Incoming dag))"
        "distinct (mkeys (dag_Incoming dag1))"
      and inc: "\<forall>j. mget0 0 (dag_Incoming dag1) j = mget0 0 (dag_Incoming dag) j +
        (if j = k then int (length (step_DependsOn s)) else 0)"
      and adj: "\<forall>d j. count_list (mget0 [] (dag_Adjacency dag1) d) j =
        count_list (mget0 [] (dag_Adjacency dag) d) j + (if j = k then count_list (step_DependsOn s) d else 0)"
      using add_deps_ok [OF pre Cons.prems(5)] by auto
    have same: "edges_ok dag1 j = edges_ok dag j" "deps_in dag1 j = deps_in dag j" for j
      by (simp_all add: edges_ok_def deps_in_def frame)
    have "distinct ks" "\<forall>k \<in> set ks. edges_ok dag1 k"
      "\<forall>k s. mget (dag_Steps dag1) k = Some s \<longrightarrow> step_Name s = k"
      "set ks \<subseteq> set (mkeys (dag_Incoming dag1))"
      using Cons.prems frame same by auto
    from Cons.IH [OF this frame(4)] obtain dag' where dag': "add_edges ks dag1 = Inr dag'"
      and frame': "dag_Steps dag' = dag_Steps dag" "dag_Order dag' = dag_Order dag"
        "set (mkeys (dag_Incoming dag')) = set (mkeys (dag_Incoming dag))"
        "distinct (mkeys (dag_Incoming dag'))"
      and inc': "\<forall>j. mget0 0 (dag_Incoming dag') j = mget0 0 (dag_Incoming dag1) j +
        (if j \<in> set ks then int (length (deps_in dag1 j)) else 0)"
      and adj': "\<forall>d j. count_list (mget0 [] (dag_Adjacency dag') d) j =
        count_list (mget0 [] (dag_Adjacency dag1) d) j + (if j \<in> set ks then count_list (deps_in dag1 j) d else 0)"
      using frame by auto
    have "add_edges (k # ks) dag = Inr dag'" using dag1 dag' Some name by simp
    moreover have "deps_in dag k = step_DependsOn s" using Some by (simp add: deps_in_def)
    ultimately show ?thesis using frame' inc inc' adj adj' same Cons.prems(1)
      by (intro exI [of _ dag']) auto
  qed
qed

lemma add_edges_error:
  assumes "k \<in> set ks" "\<not> edges_ok dag k" "distinct ks"
    "\<forall>k s. mget (dag_Steps dag) k = Some s \<longrightarrow> step_Name s = k"
    "set ks \<subseteq> set (mkeys (dag_Incoming dag))" "distinct (mkeys (dag_Incoming dag))"
  shows "\<exists>n d. add_edges ks dag \<in> {Inl (UnknownDependency n d), Inl (SelfDependency n)}"
  using assms
proof (induction ks arbitrary: dag)
  case (Cons j ks)
  show ?case
  proof (cases "mget (dag_Steps dag) j")
    case None
    with Cons have "k \<in> set ks" by (auto simp: edges_ok_def)
    with Cons.IH [of dag] Cons.prems None show ?thesis by auto
  next
    case (Some s)
    have name: "step_Name s = j" using Cons.prems(4) Some by blast
    show ?thesis
    proof (cases "edges_ok dag j")
      case False
      with Some have "\<not> (set (step_DependsOn s) \<subseteq> set (mkeys (dag_Steps dag)) \<and> j \<notin> set (step_DependsOn s))"
        by (auto simp: edges_ok_def)
      from add_deps_error [OF this] Some name show ?thesis by auto
    next
      case True
      with Cons.prems have k: "k \<in> set ks" by auto
      have pre: "set (step_DependsOn s) \<subseteq> set (mkeys (dag_Steps dag))" "j \<notin> set (step_DependsOn s)"
        "j \<in> set (mkeys (dag_Incoming dag))"
        using True Cons.prems(5) Some by (auto simp: edges_ok_def)
      obtain dag1 where dag1: "add_deps j (step_DependsOn s) dag = Inr dag1"
        "dag_Steps dag1 = dag_Steps dag" "set (mkeys (dag_Incoming dag1)) = set (mkeys (dag_Incoming dag))"
        "distinct (mkeys (dag_Incoming dag1))"
        using add_deps_ok [OF pre Cons.prems(6)] by auto
      have "\<not> edges_ok dag1 k" using Cons.prems(2) dag1(2) by (simp add: edges_ok_def)
      with Cons.IH [OF k, of dag1] Cons.prems dag1 Some name show ?thesis by auto
    qed
  qed
qed simp

subsection \<open>The counting algorithm computes the reference layering\<close>

lemma relax_append:
  "relax (xs @ ys) i q = (let (i', q') = relax xs i q in relax ys i' q')"
  by (induction xs i q rule: relax.induct) (auto simp: Let_def)

lemma process_layer_relax:
  "process_layer adj layer i q = relax (concat (map (mget0 [] adj) layer)) i q"
  by (induction adj layer i q rule: process_layer.induct)
    (auto simp: relax_append split: prod.splits)

text \<open>Each dependent is enqueued once, by the decrement that takes its count to zero.\<close>

lemma relax_result:
  assumes "relax ds i q = (i', q')"
  shows "(\<forall>k. mget0 0 i' k = mget0 0 i k - int (count_list ds k)) \<and>
    (\<exists>new. q' = q @ new \<and> distinct new \<and>
       set new = {k. 0 < mget0 0 i k \<and> mget0 0 i k \<le> int (count_list ds k)})"
  using assms
proof (induction ds i q rule: relax.induct)
  case (1 i q)
  then show ?case by auto
next
  case (2 d ds i q)
  let ?c = "mget0 0 i d - 1" and ?i = "mput d (mget0 0 i d - 1) i"
  have run: "relax ds ?i (if ?c = 0 then q @ [d] else q) = (i', q')"
    using 2(2) by (simp add: Let_def)
  from 2(1) [OF refl refl run] obtain new where
    cnt: "\<And>k. mget0 0 i' k = mget0 0 ?i k - int (count_list ds k)" and
    new: "q' = (if ?c = 0 then q @ [d] else q) @ new" "distinct new"
      "\<And>k. k \<in> set new \<longleftrightarrow> 0 < mget0 0 ?i k \<and> mget0 0 ?i k \<le> int (count_list ds k)"
    by blast
  show ?case
  proof (intro conjI exI [of _ "(if ?c = 0 then [d] else []) @ new"])
    show "\<forall>k. mget0 0 i' k = mget0 0 i k - int (count_list (d # ds) k)"
      by (simp add: cnt)
    show "q' = q @ (if ?c = 0 then [d] else []) @ new" using new(1) by simp
    show "distinct ((if ?c = 0 then [d] else []) @ new)" using new(2) by (simp add: new(3))
    have "k \<in> set ((if ?c = 0 then [d] else []) @ new) \<longleftrightarrow>
        0 < mget0 0 i k \<and> mget0 0 i k \<le> int (count_list (d # ds) k)" for k
      by (cases "k = d") (simp_all add: new(3), linarith)
    then show "set ((if ?c = 0 then [d] else []) @ new) =
        {k. 0 < mget0 0 i k \<and> mget0 0 i k \<le> int (count_list (d # ds) k)}"
      by (simp only: set_eq_iff mem_Collect_eq simp_thms)
  qed
qed

lemma count_list_layer:
  assumes "distinct L" "\<forall>d. count_list (adj d) k = count_list ds d"
  shows "count_list (concat (map adj L)) k = length (filter (\<lambda>d. d \<in> set L) ds)"
  using assms(1)
proof (induction L)
  case (Cons d L)
  have "length (filter (\<lambda>x. x = d \<or> x \<in> set L) xs) =
      count_list xs d + length (filter (\<lambda>x. x \<in> set L) xs)" for xs
    using Cons.prems by (induction xs) auto
  with Cons assms(2) show ?case by simp
qed simp

lemma length_filter_diff:
  "set L \<inter> set D = {} \<Longrightarrow>
     int (length (filter (\<lambda>d. d \<notin> set D) ds)) - int (length (filter (\<lambda>d. d \<in> set L) ds)) =
     int (length (filter (\<lambda>d. d \<notin> set (D @ L)) ds))"
  by (induction ds) auto

text \<open>
  The loop invariant: a count is the number of dependencies not yet placed, the placed steps
  are closed under dependencies, and the queue holds exactly the ready steps.
\<close>

definition kahn_inv ::
  "Step list \<Rightarrow> (string, string list) gomap \<Rightarrow> (string, int) gomap \<Rightarrow> string list \<Rightarrow> string list \<Rightarrow> bool"
where
  "kahn_inv steps adj incoming queue placed \<longleftrightarrow>
     (\<forall>d k. count_list (mget0 [] adj d) k = count_list (deps_of steps k) d) \<and>
     (\<forall>k. mget0 0 incoming k = int (length (filter (\<lambda>d. d \<notin> set placed) (deps_of steps k)))) \<and>
     (\<forall>k \<in> set placed. set (deps_of steps k) \<subseteq> set placed) \<and>
     distinct queue \<and> set queue = set (ready steps placed)"

lemma deps_of_outside: "k \<notin> set (step_names steps) \<Longrightarrow> deps_of steps k = []"
  by (auto simp: deps_of_def step_names_def split: option.splits dest!: find_SomeE)

lemma kahn_inv_step:
  assumes inv: "kahn_inv steps adj incoming queue placed"
    and run: "process_layer adj (sortStrings queue) incoming [] = (incoming', nextQueue)"
  shows "kahn_inv steps adj incoming' nextQueue (placed @ sortStrings queue)"
proof -
  let ?L = "sort queue"
  have L: "distinct ?L" "set ?L = set (ready steps placed)" "set ?L \<inter> set placed = {}"
    using inv by (auto simp: kahn_inv_def set_ready)
  have cnt: "count_list (concat (map (mget0 [] adj) ?L)) k =
      length (filter (\<lambda>d. d \<in> set ?L) (deps_of steps k))" for k
    by (rule count_list_layer) (use inv L in \<open>auto simp: kahn_inv_def\<close>)
  have "relax (concat (map (mget0 [] adj) ?L)) incoming [] = (incoming', nextQueue)"
    using run by (simp only: process_layer_relax sortStrings_sort)
  from relax_result [OF this]
  have diff: "mget0 0 incoming' k =
      mget0 0 incoming k - int (length (filter (\<lambda>d. d \<in> set ?L) (deps_of steps k)))"
    and nq: "distinct nextQueue" "set nextQueue = {k. 0 < mget0 0 incoming k \<and>
      mget0 0 incoming k \<le> int (length (filter (\<lambda>d. d \<in> set ?L) (deps_of steps k)))}" for k
    by (simp_all only: cnt) auto
  have inc': "mget0 0 incoming' k = int (length (filter (\<lambda>d. d \<notin> set (placed @ ?L)) (deps_of steps k)))" for k
    using inv diff [of k] length_filter_diff [OF L(3), of "deps_of steps k"]
    by (simp only: kahn_inv_def)
  have closed: "\<forall>k \<in> set (placed @ ?L). set (deps_of steps k) \<subseteq> set (placed @ ?L)"
    using inv L(2) by (auto simp: kahn_inv_def set_ready)
  have "k \<in> set nextQueue \<longleftrightarrow> k \<in> set (ready steps (placed @ ?L))" for k
  proof -
    have sub: "mget0 0 incoming k \<le> 0 \<longleftrightarrow> set (deps_of steps k) \<subseteq> set placed"
      "mget0 0 incoming' k \<le> 0 \<longleftrightarrow> set (deps_of steps k) \<subseteq> set (placed @ ?L)"
      using inv inc' by (auto simp: kahn_inv_def filter_empty_conv)
    have "k \<in> set nextQueue \<longleftrightarrow>
        \<not> set (deps_of steps k) \<subseteq> set placed \<and> set (deps_of steps k) \<subseteq> set (placed @ ?L)"
      using nq(2) sub diff [of k] by (auto simp only: mem_Collect_eq)
    also have "\<dots> \<longleftrightarrow> k \<in> set (ready steps (placed @ ?L))"
      using inv L(2) deps_of_outside [of k steps]
      by (auto simp: set_ready kahn_inv_def)
    finally show ?thesis .
  qed
  then show ?thesis
    using inv inc' closed nq(1) by (auto simp: kahn_inv_def sortStrings_sort)
qed

lemma kahn_Nil: "kahn adj incoming [] layers processed = (layers, processed)"
  by (simp add: kahn.simps)

lemma kahn_step:
  assumes "queue \<noteq> []" "process_layer adj (sortStrings queue) incoming [] = (incoming', nextQueue)"
  shows "kahn adj incoming queue layers processed =
    kahn adj incoming' nextQueue (layers @ [sortStrings queue]) (processed + length (sortStrings queue))"
  using assms by (subst kahn.simps) (simp add: Let_def)

lemma kahn_spec:
  assumes "kahn_inv steps adj incoming queue placed" "distinct (step_names steps)"
  shows "kahn adj incoming queue layers processed =
    (layers @ spec_layers steps placed, processed + length (concat (spec_layers steps placed)))"
  using assms
proof (induction adj incoming queue layers processed arbitrary: placed rule: kahn.induct)
  case (1 adj incoming queue layers processed)
  have set_q: "set queue = set (ready steps placed)" and dq: "distinct queue"
    using "1.prems" by (auto simp: kahn_inv_def)
  show ?case
  proof (cases "queue = []")
    case True
    with set_q have "ready steps placed = []" by simp
    then have "spec_layers steps placed = []" by (subst spec_layers.simps) (rule if_P)
    with True show ?thesis by (simp add: kahn_Nil)
  next
    case False
    have "sort queue = ready steps placed"
      by (rule sorted_distinct_set_unique) (use set_q dq "1.prems"(2) in simp_all)
    then have rdy: "sortStrings queue = ready steps placed" by (simp only: sortStrings_sort)
    obtain i' q' where run: "process_layer adj (sortStrings queue) incoming [] = (i', q')"
      by (metis surj_pair)
    from kahn_inv_step [OF "1.prems"(1) run]
    have "kahn_inv steps adj i' q' (placed @ sortStrings queue)" .
    note IH = "1.IH" [OF False refl run [symmetric] refl this "1.prems"(2)]
    have ne: "ready steps placed \<noteq> []" using False set_q by auto
    have "spec_layers steps placed = ready steps placed # spec_layers steps (placed @ ready steps placed)"
      using ne by (simp add: spec_layers.simps [of steps placed])
    with IH show ?thesis
      unfolding kahn_step [OF False run] rdy by simp
  qed
qed

subsection \<open>Correctness of the construction\<close>

definition no_self_dep :: "Step list \<Rightarrow> bool" where
  "no_self_dep steps \<longleftrightarrow> (\<forall>s \<in> set steps. step_Name s \<notin> set (step_DependsOn s))"

lemma find_name:
  "distinct (step_names steps) \<Longrightarrow> s \<in> set steps \<Longrightarrow> find (\<lambda>t. step_Name t = step_Name s) steps = Some s"
  by (induction steps) (auto simp: step_names_def)

lemma deps_of_step:
  "distinct (step_names steps) \<Longrightarrow> s \<in> set steps \<Longrightarrow> deps_of steps (step_Name s) = step_DependsOn s"
  by (simp add: deps_of_def find_name)

lemma deps_of_cases:
  assumes "d \<in> set (deps_of steps k)"
  obtains s where "s \<in> set steps" "step_Name s = k" "d \<in> set (step_DependsOn s)"
proof (cases "find (\<lambda>s. step_Name s = k) steps")
  case (Some s)
  with assms that [of s] find_SomeE [OF Some] show thesis by (simp add: deps_of_def)
qed (use assms in \<open>simp add: deps_of_def\<close>)

lemma deps_in_indexed: "distinct (step_names steps) \<Longrightarrow> deps_in (indexed steps) k = deps_of steps k"
  by (simp add: deps_in_def deps_of_def mget_indexed)

lemma indexed_name:
  "distinct (step_names steps) \<Longrightarrow> mget (dag_Steps (indexed steps)) k = Some s \<Longrightarrow>
     s \<in> set steps \<and> step_Name s = k"
  by (auto simp: mget_indexed dest: find_SomeE)

lemma edges_ok_indexed:
  assumes "distinct (step_names steps)"
  shows "(\<forall>k \<in> set (step_names steps). edges_ok (indexed steps) k) \<longleftrightarrow> deps_known steps \<and> no_self_dep steps"
  using assms
  by (auto simp: edges_ok_def deps_known_def no_self_dep_def mget_indexed step_names_def [of steps]
      find_name dest!: find_SomeE)

lemma add_edges_indexed:
  assumes "distinct (step_names steps)" "range_order rng" "deps_known steps" "no_self_dep steps"
  obtains dag where "add_edges (rng (step_names steps)) (indexed steps) = Inr dag"
    "dag_Steps dag = dag_Steps (indexed steps)" "set (mkeys (dag_Incoming dag)) = set (step_names steps)"
    "distinct (mkeys (dag_Incoming dag))"
    "\<And>k. mget0 0 (dag_Incoming dag) k = int (length (deps_of steps k))"
    "\<And>d k. count_list (mget0 [] (dag_Adjacency dag) d) k = count_list (deps_of steps k) d"
proof -
  let ?ks = "rng (step_names steps)"
  have ks: "set ?ks = set (step_names steps)" "distinct ?ks"
    using assms(1,2) by (simp_all add: range_order_set range_order_distinct)
  have "mget0 [] (dag_Adjacency (indexed steps)) d = []" for d by (simp add: indexed_def)
  moreover have "\<exists>dag. add_edges ?ks (indexed steps) = Inr dag \<and> dag_Steps dag = dag_Steps (indexed steps) \<and>
    dag_Order dag = dag_Order (indexed steps) \<and>
    set (mkeys (dag_Incoming dag)) = set (mkeys (dag_Incoming (indexed steps))) \<and>
    distinct (mkeys (dag_Incoming dag)) \<and>
    (\<forall>k. mget0 0 (dag_Incoming dag) k = mget0 0 (dag_Incoming (indexed steps)) k +
       (if k \<in> set ?ks then int (length (deps_in (indexed steps) k)) else 0)) \<and>
    (\<forall>d k. count_list (mget0 [] (dag_Adjacency dag) d) k =
       count_list (mget0 [] (dag_Adjacency (indexed steps)) d) k +
       (if k \<in> set ?ks then count_list (deps_in (indexed steps) k) d else 0))"
  proof (rule add_edges_ok)
    show "\<forall>k \<in> set ?ks. edges_ok (indexed steps) k"
      using assms edges_ok_indexed ks(1) by blast
    show "\<forall>k s. mget (dag_Steps (indexed steps)) k = Some s \<longrightarrow> step_Name s = k"
      using assms(1) indexed_name by blast
  qed (use ks assms(1) in simp_all)
  ultimately show thesis
    using that ks assms(1) deps_of_outside [of _ steps]
    by (elim exE conjE) (fastforce simp: deps_in_indexed)
qed

lemma kahn_inv_initial:
  assumes "distinct (mkeys (dag_Incoming dag))" "set (mkeys (dag_Incoming dag)) = set (step_names steps)"
    "\<And>k. mget0 0 (dag_Incoming dag) k = int (length (deps_of steps k))"
    "\<And>d k. count_list (mget0 [] (dag_Adjacency dag) d) k = count_list (deps_of steps k) d"
    "range_order rng"
  shows "kahn_inv steps (dag_Adjacency dag) (dag_Incoming dag)
    (filter (\<lambda>name. mget0 0 (dag_Incoming dag) name = 0) (rng (mkeys (dag_Incoming dag)))) []"
  using assms by (auto simp: kahn_inv_def set_ready range_order_set range_order_distinct)

lemma layers_all:
  assumes "distinct (step_names steps)"
  shows "length (concat (spec_layers steps [])) < length steps \<longleftrightarrow>
    set (concat (spec_layers steps [])) \<noteq> set (step_names steps)"
proof -
  let ?c = "concat (spec_layers steps [])"
  have "length ?c = card (set ?c)" "length steps = card (set (step_names steps))"
    "set ?c \<subseteq> set (step_names steps)"
    using assms spec_layers_placed [OF assms, of "[]"]
    by (simp_all only: distinct_card) (auto simp: step_names_def)
  then show ?thesis
    using psubset_card_mono [OF List.finite_set [of "step_names steps"], of "set ?c"] by force
qed

lemma deps_of_known:
  "deps_known steps \<Longrightarrow> set (deps_of steps k) \<subseteq> set (step_names steps)"
  by (auto simp: deps_known_def elim!: deps_of_cases)

text \<open>The whole of \<open>BuildDAG\<close>, branch by branch, on distinct step names.\<close>

lemma BuildDAG_ok:
  assumes "distinct (step_names steps)" "range_order rng" "range_order rng'"
    "deps_known steps" "no_self_dep steps"
  shows "\<exists>dag. dag_Steps dag = dag_Steps (indexed steps) \<and> dag_Order dag = spec_layers steps [] \<and>
    BuildDAG rng rng' steps = (if acyclic (step_edges steps) then Inr dag else Inl CycleDetected)"
proof -
  obtain dag where dag: "add_edges (rng (step_names steps)) (indexed steps) = Inr dag"
    "dag_Steps dag = dag_Steps (indexed steps)" "set (mkeys (dag_Incoming dag)) = set (step_names steps)"
    "distinct (mkeys (dag_Incoming dag))"
    "\<And>k. mget0 0 (dag_Incoming dag) k = int (length (deps_of steps k))"
    "\<And>d k. count_list (mget0 [] (dag_Adjacency dag) d) k = count_list (deps_of steps k) d"
    using add_edges_indexed [OF assms(1,2,4,5)] by blast
  note kahn = kahn_spec [OF kahn_inv_initial [OF dag(4,3,5,6) assms(3)] assms(1), of "[]" 0]
  have "length (dag_Steps dag) = length steps" by (simp add: dag(2) indexed_def)
  then have "topologicalSort rng' dag =
      (if acyclic (step_edges steps) then Inr (spec_layers steps []) else Inl CycleDetected)"
    using layers_all [OF assms(1)] spec_layers_complete_iff [OF assms(1)] deps_of_known [OF assms(4)]
    by (simp add: topologicalSort_def kahn)
  then show ?thesis
    by (intro exI [of _ "dag\<lparr>dag_Order := spec_layers steps []\<rparr>"])
      (simp add: BuildDAG_def index_steps_ok [OF assms(1)] dag(1,2))
qed

lemma BuildDAG_bad_edge:
  assumes "distinct (step_names steps)" "range_order rng" "\<not> (deps_known steps \<and> no_self_dep steps)"
  shows "\<exists>n d. BuildDAG rng rng' steps \<in> {Inl (UnknownDependency n d), Inl (SelfDependency n)}"
proof -
  let ?ks = "rng (step_names steps)"
  have ks: "set ?ks = set (step_names steps)" "distinct ?ks"
    using assms(1,2) by (simp_all add: range_order_set range_order_distinct)
  from assms(3) obtain k where "k \<in> set ?ks" "\<not> edges_ok (indexed steps) k"
    using edges_ok_indexed [OF assms(1)] ks(1) by blast
  from add_edges_error [OF this ks(2)] assms(1) ks
  obtain n d where "add_edges ?ks (indexed steps) \<in> {Inl (UnknownDependency n d), Inl (SelfDependency n)}"
    using indexed_name by fastforce
  then show ?thesis
    by (intro exI [of _ n] exI [of _ d]) (auto simp: BuildDAG_def index_steps_ok [OF assms(1)])
qed

lemma acyclic_no_self:
  assumes "distinct (step_names steps)" "acyclic (step_edges steps)"
  shows "no_self_dep steps"
  using assms
  by (force simp: acyclic_def no_self_dep_def step_edges_def step_names_def deps_of_step)

lemma BuildDAG_success:
  assumes "range_order rng" "range_order rng'" "BuildDAG rng rng' steps = Inr dag"
  shows "distinct (step_names steps) \<and> deps_known steps \<and> acyclic (step_edges steps) \<and>
    dag_Order dag = spec_layers steps [] \<and> dag_Steps dag = dag_Steps (indexed steps)"
proof -
  have d: "distinct (step_names steps)"
    using assms(3) index_steps_duplicate [of steps] by (auto simp: BuildDAG_def split: sum.splits)
  moreover have e: "deps_known steps \<and> no_self_dep steps"
    using BuildDAG_bad_edge [OF d assms(1), of rng'] assms(3) by auto
  ultimately show ?thesis
    using BuildDAG_ok [OF d assms(1,2)] assms(3) by (auto split: if_splits)
qed

subsection \<open>Properties\<close>

text \<open>
  C10. \<open>BuildDAG\<close> accepts a pipeline exactly when its step names are distinct, every dependency
  names a step, and the dependency graph has no cycle.
\<close>

theorem BuildDAG_accepts_iff:
  assumes "range_order rng" "range_order rng'"
  shows "(\<exists>dag. BuildDAG rng rng' steps = Inr dag) \<longleftrightarrow>
    distinct (step_names steps) \<and> deps_known steps \<and> acyclic (step_edges steps)"
proof
  assume "distinct (step_names steps) \<and> deps_known steps \<and> acyclic (step_edges steps)"
  with assms BuildDAG_ok [of steps rng rng'] acyclic_no_self [of steps]
  show "\<exists>dag. BuildDAG rng rng' steps = Inr dag" by auto
qed (use BuildDAG_success [OF assms] in blast)

text \<open>
  C11. The order \<open>BuildDAG\<close> returns is the reference layering: it does not depend on the order
  in which Go visits its maps, in either of the two loops over them.
\<close>

theorem BuildDAG_order_is_spec:
  assumes "range_order rng" "range_order rng'" "BuildDAG rng rng' steps = Inr dag"
  shows "dag_Order dag = spec_layers steps [] \<and>
    (\<forall>k. mget (dag_Steps dag) k = find (\<lambda>s. step_Name s = k) steps)"
  using BuildDAG_success [OF assms] by (simp add: mget_indexed)

text \<open>
  C12. In the order returned, each step occurs exactly once, each layer is sorted and not empty,
  and every dependency of a step lies in a strictly earlier layer, so the steps of one layer
  can run concurrently.
\<close>

theorem BuildDAG_layers_sound:
  assumes "range_order rng" "range_order rng'" "BuildDAG rng rng' steps = Inr dag"
  shows "mset (concat (dag_Order dag)) = mset (map step_Name steps) \<and>
    (\<forall>L \<in> set (dag_Order dag). sorted L \<and> L \<noteq> []) \<and>
    (\<forall>i < length (dag_Order dag). \<forall>s \<in> set steps. step_Name s \<in> set (dag_Order dag ! i) \<longrightarrow>
       set (step_DependsOn s) \<subseteq> set (concat (take i (dag_Order dag))))"
proof -
  note ok = BuildDAG_success [OF assms]
  then have d: "distinct (step_names steps)" and known: "deps_known steps"
    and ord: "dag_Order dag = spec_layers steps []" by auto
  have "set (concat (dag_Order dag)) = set (step_names steps)"
    using ok spec_layers_complete_iff [OF d] deps_of_known [OF known] by simp
  then have "mset (concat (dag_Order dag)) = mset (step_names steps)"
    using spec_layers_placed [OF d, of "[]"] d ord by (metis set_eq_iff_mset_eq_distinct)
  moreover have "set (step_DependsOn s) \<subseteq> set (concat (take i (dag_Order dag)))"
    if "i < length (dag_Order dag)" "s \<in> set steps" "step_Name s \<in> set (dag_Order dag ! i)" for i s
    using spec_layers_deps [of i steps "[]" "step_Name s"] that deps_of_step [OF d that(2)] ord by simp
  ultimately show ?thesis using spec_layers_placed [OF d, of "[]"] ord by (simp add: step_names_def)
qed

text \<open>
  Each way of failing has its own error: a repeated name, then a dependency that is
  unknown or reflexive, then a cycle; and the check for a cycle runs only after the others.
\<close>

lemma BuildDAG_errors:
  assumes "range_order rng" "range_order rng'"
  shows "((\<exists>n. BuildDAG rng rng' steps = Inl (DuplicateStep n)) \<longleftrightarrow> \<not> distinct (step_names steps)) \<and>
    ((\<exists>n d. BuildDAG rng rng' steps \<in> {Inl (UnknownDependency n d), Inl (SelfDependency n)}) \<longleftrightarrow>
       distinct (step_names steps) \<and> \<not> (deps_known steps \<and> no_self_dep steps)) \<and>
    (BuildDAG rng rng' steps = Inl CycleDetected \<longleftrightarrow>
       distinct (step_names steps) \<and> deps_known steps \<and> no_self_dep steps \<and> \<not> acyclic (step_edges steps))"
proof (cases "distinct (step_names steps)")
  case False
  from index_steps_duplicate [OF this] obtain n where "BuildDAG rng rng' steps = Inl (DuplicateStep n)"
    by (auto simp: BuildDAG_def)
  with False show ?thesis by simp
next
  case d: True
  show ?thesis
  proof (cases "deps_known steps \<and> no_self_dep steps")
    case True
    with d assms BuildDAG_ok [of steps rng rng'] show ?thesis by (auto split: if_splits)
  next
    case False
    from BuildDAG_bad_edge [OF d assms(1) False, of rng'] d False show ?thesis by auto
  qed
qed

subsection \<open>Witnesses\<close>

definition mk_step :: "string \<Rightarrow> string list \<Rightarrow> Step" where
  "mk_step n ds = \<lparr>step_Name = n, step_AgentRef = ''agent'', step_Input = [], step_Output = [],
     step_Parallel = False, step_DependsOn = ds\<rparr>"

definition sample_steps :: "Step list" where
  "sample_steps = [mk_step ''join'' [''a'', ''b''], mk_step ''b'' [''fetch''],
     mk_step ''a'' [''fetch''], mk_step ''fetch'' []]"

definition sample_dag :: DAG where
  "sample_dag = \<lparr>dag_Steps = map (\<lambda>s. (step_Name s, s)) sample_steps,
     dag_Order = [[''fetch''], [''a'', ''b''], [''join'']],
     dag_Incoming = [(''join'', 2), (''b'', 1), (''a'', 1), (''fetch'', 0)],
     dag_Adjacency = [(''fetch'', [''a'', ''b'']), (''a'', [''join'']), (''b'', [''join''])]\<rparr>"

lemma BuildDAG_sample: "BuildDAG rev (\<lambda>ks. ks) sample_steps = Inr sample_dag"
  by code_simp

theorem BuildDAG_accepts_iff_witness: "acyclic (step_edges sample_steps)"
  using BuildDAG_accepts_iff [of rev "\<lambda>ks. ks" sample_steps] BuildDAG_sample by simp

theorem BuildDAG_order_is_spec_witness:
  "spec_layers sample_steps [] = [[''fetch''], [''a'', ''b''], [''join'']]"
  using BuildDAG_order_is_spec [of rev "\<lambda>ks. ks" sample_steps sample_dag] BuildDAG_sample
  by (simp add: sample_dag_def)

theorem BuildDAG_layers_sound_witness:
  "set (step_DependsOn (mk_step ''join'' [''a'', ''b''])) \<subseteq> set (concat (take 2 (dag_Order sample_dag)))"
proof -
  have "2 < length (dag_Order sample_dag)" "mk_step ''join'' [''a'', ''b''] \<in> set sample_steps"
    "step_Name (mk_step ''join'' [''a'', ''b'']) \<in> set (dag_Order sample_dag ! 2)"
    by (simp_all add: sample_dag_def sample_steps_def mk_step_def numeral_2_eq_2)
  with BuildDAG_layers_sound [of rev "\<lambda>ks. ks" sample_steps sample_dag] BuildDAG_sample
  show ?thesis by blast
qed

definition cyclic_steps :: "Step list" where
  "cyclic_steps = [mk_step ''a'' [''b''], mk_step ''b'' [''c''], mk_step ''c'' [''a'']]"

lemma BuildDAG_cyclic: "BuildDAG rev (\<lambda>ks. ks) cyclic_steps = Inl CycleDetected"
  by code_simp

end
