(* ===== verification/Pipeline_Exec.thy ===== *)
theory Pipeline_Exec
  imports Pipeline_DAG "HOL-Library.Word"
begin

text \<open>
  The pipeline executor of \<open>internal/pipeline/executor.go\<close>. The agent invoker is a parameter:
  \<open>Invoke ctx name agent input\<close> is what the call made for step \<open>name\<close> returns in this run when
  the context it was given is done before the call returns (\<open>ctx\<close> true) or is not (\<open>ctx\<close> false);
  nothing is assumed of how the two answers are related. What else the run depends on is in
  \<open>run_env\<close>: clocks, the caller's context, the order in which the goroutines of a layer enter the
  critical section, and which calls are still running when a sibling cancels the context.
  Token counts are Go \<open>int\<close>s of 64 bits. A nil dereference is the result \<open>None\<close>.
\<close>

subsection \<open>Results\<close>

datatype TokenUsage = TokenUsage
  (tok_InputTokens: "64 word") (tok_OutputTokens: "64 word") (tok_CacheRead: "64 word") (tok_CacheWrite: "64 word")

record StepResult =
  sr_StepName :: string
  sr_AgentRef :: string
  sr_Output :: string
  sr_Duration :: int
  sr_Status :: string
  sr_Error :: string
  sr_Tokens :: TokenUsage

record PipelineResult =
  pr_Name :: string
  pr_Steps :: "(string, StepResult) gomap"
  pr_Status :: string
  pr_TotalDuration :: int
  pr_TotalTokens :: TokenUsage

record Response =
  resp_Output :: string
  resp_Tokens :: TokenUsage

type_synonym invoker = "bool \<Rightarrow> string \<Rightarrow> string \<Rightarrow> string \<Rightarrow> string + Response"

text \<open>
  \<open>env_call_done k\<close>: the caller's context is done before the call for step \<open>k\<close> returns;
  \<open>env_ctx_done i\<close>: it is done when the loop reaches layer \<open>i\<close>; \<open>env_late k\<close>: the call for step
  \<open>k\<close> is still running when the failure of a step of its layer cancels the shared context, if
  that happens before \<open>k\<close> enters the critical section.
\<close>

record run_env =
  env_dur :: "string \<Rightarrow> int"
  env_elapsed :: int
  env_sched :: "string list \<Rightarrow> string list"
  env_late :: "string \<Rightarrow> bool"
  env_call_done :: "string \<Rightarrow> bool"
  env_ctx_done :: "nat \<Rightarrow> bool"

definition zero_tokens :: TokenUsage where
  "zero_tokens = TokenUsage 0 0 0 0"

definition addTokens :: "TokenUsage \<Rightarrow> TokenUsage \<Rightarrow> TokenUsage" where
  "addTokens a b = TokenUsage
     (tok_InputTokens a + tok_InputTokens b)
     (tok_OutputTokens a + tok_OutputTokens b)
     (tok_CacheRead a + tok_CacheRead b)
     (tok_CacheWrite a + tok_CacheWrite b)"

text \<open>Token counts form a commutative monoid, so totals are sums over sets of steps.\<close>

instantiation TokenUsage :: comm_monoid_add
begin

definition zero_TokenUsage_def: "0 = zero_tokens"
definition plus_TokenUsage_def: "a + b = addTokens a b"

instance
  by standard (simp_all add: zero_TokenUsage_def plus_TokenUsage_def zero_tokens_def addTokens_def
    TokenUsage.expand)

end

subsection \<open>One step\<close>

definition step_input :: "Step \<Rightarrow> (string, string) gomap \<Rightarrow> string" where
  "step_input step outputs =
     (let input = step_Input step;
          input = (if input = [] \<and> step_DependsOn step \<noteq> []
                   then mget0 [] outputs (hd (step_DependsOn step)) else input)
      in if input = [] then mget0 [] outputs ''trigger'' else input)"

definition executeStep ::
  "invoker \<Rightarrow> run_env \<Rightarrow> bool \<Rightarrow> Step \<Rightarrow> (string, string) gomap \<Rightarrow> StepResult"
where
  "executeStep Invoke env ctx step outputs =
     (case Invoke ctx (step_Name step) (step_AgentRef step) (step_input step outputs) of
        Inl err \<Rightarrow>
          \<lparr>sr_StepName = step_Name step, sr_AgentRef = step_AgentRef step, sr_Output = [],
           sr_Duration = env_dur env (step_Name step), sr_Status = ''failed'',
           sr_Error = ''invoke '' @ step_AgentRef step @ '': '' @ err, sr_Tokens = zero_tokens\<rparr>
      | Inr resp \<Rightarrow>
          \<lparr>sr_StepName = step_Name step, sr_AgentRef = step_AgentRef step,
           sr_Output = resp_Output resp, sr_Duration = env_dur env (step_Name step),
           sr_Status = ''completed'', sr_Error = [], sr_Tokens = resp_Tokens resp\<rparr>)"

subsection \<open>Layers\<close>

text \<open>\<open>ex_cancelled\<close> is set by the executor's own \<open>cancel\<close>.\<close>

record exec_state =
  ex_result :: PipelineResult
  ex_outputs :: "(string, string) gomap"
  ex_cancelled :: bool

definition record_step :: "string \<Rightarrow> StepResult \<Rightarrow> PipelineResult \<Rightarrow> PipelineResult" where
  "record_step sn sr result =
     result\<lparr>pr_Steps := mput sn sr (pr_Steps result),
            pr_TotalTokens := addTokens (pr_TotalTokens result) (sr_Tokens sr)\<rparr>"

text \<open>The context as the call for step \<open>sn\<close>, which enters the critical section in state \<open>st\<close>, saw it.\<close>

definition call_ctx :: "run_env \<Rightarrow> string \<Rightarrow> exec_state \<Rightarrow> bool" where
  "call_ctx env sn st \<longleftrightarrow> env_call_done env sn \<or> env_late env sn \<and> ex_cancelled st"

text \<open>A layer of one step. The flag returned tells whether the loop goes on.\<close>

definition run_single ::
  "invoker \<Rightarrow> run_env \<Rightarrow> DAG \<Rightarrow> string \<Rightarrow> exec_state \<Rightarrow> (exec_state \<times> bool) option"
where
  "run_single Invoke env dag stepName st =
     (case mget (dag_Steps dag) stepName of
        None \<Rightarrow> None
      | Some step \<Rightarrow>
          (let sr = executeStep Invoke env (call_ctx env stepName st) step (ex_outputs st);
               st = st\<lparr>ex_result := record_step stepName sr (ex_result st)\<rparr>
           in if sr_Status sr = ''failed''
              then Some (st\<lparr>ex_result := (ex_result st)\<lparr>pr_Status := ''failed''\<rparr>,
                            ex_cancelled := True\<rparr>, False)
              else Some (st\<lparr>ex_outputs := mput stepName (sr_Output sr) (ex_outputs st)\<rparr>, True)))"

text \<open>
  The critical sections of a layer of several steps, in the order they are entered. A failed
  step cancels the context inside its own, so a call can only have seen that if the failed
  step comes before it in this order.
\<close>

fun run_goroutines ::
  "invoker \<Rightarrow> run_env \<Rightarrow> DAG \<Rightarrow> (string, string) gomap \<Rightarrow> string list
    \<Rightarrow> exec_state \<Rightarrow> bool \<Rightarrow> (exec_state \<times> bool) option"
where
  "run_goroutines Invoke env dag outputSnapshot [] st failed = Some (st, failed)"
| "run_goroutines Invoke env dag outputSnapshot (sn # sns) st failed =
     (case mget (dag_Steps dag) sn of
        None \<Rightarrow> None
      | Some step \<Rightarrow>
          (let sr = executeStep Invoke env (call_ctx env sn st) step outputSnapshot;
               st = st\<lparr>ex_result := record_step sn sr (ex_result st)\<rparr>
           in if sr_Status sr = ''failed''
              then run_goroutines Invoke env dag outputSnapshot sns (st\<lparr>ex_cancelled := True\<rparr>) True
              else run_goroutines Invoke env dag outputSnapshot sns
                     (st\<lparr>ex_outputs := mput sn (sr_Output sr) (ex_outputs st)\<rparr>) failed))"

definition run_layer ::
  "invoker \<Rightarrow> run_env \<Rightarrow> DAG \<Rightarrow> string list \<Rightarrow> exec_state \<Rightarrow> (exec_state \<times> bool) option"
where
  "run_layer Invoke env dag layer st =
     (if length layer = 1 then run_single Invoke env dag (layer ! 0) st
      else case run_goroutines Invoke env dag (ex_outputs st) (env_sched env layer) st False of
          None \<Rightarrow> None
        | Some (st, failed) \<Rightarrow>
            if failed then Some (st\<lparr>ex_result := (ex_result st)\<lparr>pr_Status := ''failed''\<rparr>\<rparr>, False)
            else Some (st, True))"

fun run_layers ::
  "invoker \<Rightarrow> run_env \<Rightarrow> DAG \<Rightarrow> nat \<Rightarrow> string list list \<Rightarrow> exec_state \<Rightarrow> exec_state option"
where
  "run_layers Invoke env dag i [] st = Some st"
| "run_layers Invoke env dag i (layer # layers) st =
     (if env_ctx_done env i \<or> ex_cancelled st
      then Some (st\<lparr>ex_result := (ex_result st)\<lparr>pr_Status := ''cancelled''\<rparr>\<rparr>)
      else case run_layer Invoke env dag layer st of
          None \<Rightarrow> None
        | Some (st, go) \<Rightarrow>
            if go then run_layers Invoke env dag (Suc i) layers st else Some st)"

definition init_exec :: "string \<Rightarrow> string \<Rightarrow> exec_state" where
  "init_exec name triggerInput =
     \<lparr>ex_result = \<lparr>pr_Name = name, pr_Steps = [], pr_Status = ''completed'',
                   pr_TotalDuration = 0, pr_TotalTokens = zero_tokens\<rparr>,
      ex_outputs = [(''trigger'', triggerInput)], ex_cancelled = False\<rparr>"

definition Execute :: "invoker \<Rightarrow> run_env \<Rightarrow> string \<Rightarrow> DAG \<Rightarrow> string \<Rightarrow> PipelineResult option" where
  "Execute Invoke env name dag triggerInput =
     map_option (\<lambda>st. (ex_result st)\<lparr>pr_TotalDuration := env_elapsed env\<rparr>)
       (run_layers Invoke env dag 0 (dag_Order dag) (init_exec name triggerInput))"

subsection \<open>The effect of one layer\<close>

abbreviation res_of :: "exec_state \<Rightarrow> string \<Rightarrow> StepResult option" where
  "res_of st \<equiv> mget (pr_Steps (ex_result st))"

abbreviation sr_failed :: "StepResult \<Rightarrow> bool" where
  "sr_failed sr \<equiv> sr_Status sr = ''failed''"

definition outcome ::
  "invoker \<Rightarrow> run_env \<Rightarrow> DAG \<Rightarrow> (string, string) gomap \<Rightarrow> (string \<Rightarrow> bool) \<Rightarrow> string \<Rightarrow> StepResult"
where
  "outcome Invoke env dag outs c k = executeStep Invoke env (c k) (the (mget (dag_Steps dag) k)) outs"

text \<open>
  What running the steps \<open>ks\<close> with the results \<open>R\<close> changes: the results and outputs of
  those steps, the token total, and the cancellation flag.
\<close>

definition layer_effect ::
  "(string \<Rightarrow> StepResult) \<Rightarrow> string set \<Rightarrow> exec_state \<Rightarrow> exec_state \<Rightarrow> bool"
where
  "layer_effect R ks st st' \<longleftrightarrow>
     (\<forall>k. res_of st' k = (if k \<in> ks then Some (R k) else res_of st k)) \<and>
     (\<forall>k. mget (ex_outputs st') k =
        (if k \<in> ks \<and> \<not> sr_failed (R k) then Some (sr_Output (R k)) else mget (ex_outputs st) k)) \<and>
     pr_TotalTokens (ex_result st') = pr_TotalTokens (ex_result st) + (\<Sum>k\<in>ks. sr_Tokens (R k)) \<and>
     pr_Name (ex_result st') = pr_Name (ex_result st) \<and>
     pr_TotalDuration (ex_result st') = pr_TotalDuration (ex_result st) \<and>
     (ex_cancelled st' \<longleftrightarrow> ex_cancelled st \<or> (\<exists>k \<in> ks. sr_failed (R k)))"

text \<open>
  The contexts that the calls of a layer can have seen: the caller's, or one cancelled by a
  sibling that failed. As long as nobody fails all see the caller's.
\<close>

definition ctx_choice ::
  "run_env \<Rightarrow> ((string \<Rightarrow> bool) \<Rightarrow> string \<Rightarrow> StepResult) \<Rightarrow> string set \<Rightarrow> (string \<Rightarrow> bool) \<Rightarrow> bool"
where
  "ctx_choice env R ks c \<longleftrightarrow>
     (\<forall>k. c k \<noteq> env_call_done env k \<longrightarrow> c k \<and> k \<in> ks \<and> env_late env k) \<and>
     ((\<exists>k \<in> ks. sr_failed (R c k)) \<longleftrightarrow> (\<exists>k \<in> ks. sr_failed (R (env_call_done env) k))) \<and>
     ((\<forall>k \<in> ks. \<not> sr_failed (R c k)) \<longrightarrow> c = env_call_done env)"

lemma record_step_simps [simp]:
  "pr_Steps (record_step sn sr r) = mput sn sr (pr_Steps r)"
  "pr_TotalTokens (record_step sn sr r) = pr_TotalTokens r + sr_Tokens sr"
  "pr_Status (record_step sn sr r) = pr_Status r"
  "pr_Name (record_step sn sr r) = pr_Name r"
  "pr_TotalDuration (record_step sn sr r) = pr_TotalDuration r"
  by (simp_all add: record_step_def plus_TokenUsage_def)

lemma layer_effect_step:
  assumes "layer_effect R ks
      (st\<lparr>ex_result := record_step k (R k) (ex_result st),
          ex_outputs := if sr_failed (R k) then ex_outputs st else mput k (sr_Output (R k)) (ex_outputs st),
          ex_cancelled := ex_cancelled st \<or> sr_failed (R k)\<rparr>) st'"
    "k \<notin> ks" "finite ks"
  shows "layer_effect R (insert k ks) st st'"
  using assms by (auto simp: layer_effect_def add.assoc)

lemma layer_effect_cong:
  assumes "\<And>k. k \<in> ks \<Longrightarrow> R k = R' k"
  shows "layer_effect R ks st st' = layer_effect R' ks st st'"
proof -
  have "(\<Sum>k\<in>ks. sr_Tokens (R k)) = (\<Sum>k\<in>ks. sr_Tokens (R' k))" using assms by (intro sum.cong) simp_all
  moreover have "(if k \<in> ks then Some (R k) else x) = (if k \<in> ks then Some (R' k) else x)"
    "(if k \<in> ks \<and> \<not> sr_failed (R k) then Some (sr_Output (R k)) else y) =
     (if k \<in> ks \<and> \<not> sr_failed (R' k) then Some (sr_Output (R' k)) else y)" for k x y
    using assms by auto
  moreover have "(\<exists>k \<in> ks. sr_failed (R k)) \<longleftrightarrow> (\<exists>k \<in> ks. sr_failed (R' k))" using assms by simp
  ultimately show ?thesis unfolding layer_effect_def by (simp only:)
qed

text \<open>
  The goroutines of a layer, from a state in which the context may be cancelled: contexts \<open>c\<close>
  exist such that the results recorded are the outcomes under them.
\<close>

lemma run_goroutines_effect:
  assumes "distinct sns" "set sns \<subseteq> set (mkeys (dag_Steps dag))"
  shows "\<exists>st' c. run_goroutines Invoke env dag snap sns st failed =
      Some (st', failed \<or> (\<exists>k \<in> set sns. sr_failed (outcome Invoke env dag snap c k))) \<and>
    layer_effect (outcome Invoke env dag snap c) (set sns) st st' \<and>
    pr_Status (ex_result st') = pr_Status (ex_result st) \<and>
    (\<forall>k. c k \<noteq> env_call_done env k \<longrightarrow> c k \<and> k \<in> set sns \<and> env_late env k) \<and>
    (\<not> ex_cancelled st \<longrightarrow> ctx_choice env (outcome Invoke env dag snap) (set sns) c)"
  using assms
proof (induction sns arbitrary: st failed)
  case Nil
  then show ?case
    by (intro exI [of _ st] exI [of _ "env_call_done env"]) (simp add: layer_effect_def ctx_choice_def)
next
  case (Cons k sns)
  let ?R = "outcome Invoke env dag snap" and ?d = "call_ctx env k st"
  let ?sr = "?R (\<lambda>_. ?d) k"
  let ?st = "st\<lparr>ex_result := record_step k ?sr (ex_result st),
    ex_outputs := if sr_failed ?sr then ex_outputs st else mput k (sr_Output ?sr) (ex_outputs st),
    ex_cancelled := ex_cancelled st \<or> sr_failed ?sr\<rparr>"
  from Cons.prems obtain step where step: "mget (dag_Steps dag) k = Some step"
    by (auto simp: mget_None_iff dest: weak_map_of_SomeI)
  then have R: "executeStep Invoke env ?d step snap = ?sr" by (simp add: outcome_def)
  have run: "run_goroutines Invoke env dag snap (k # sns) st failed =
      run_goroutines Invoke env dag snap sns ?st (failed \<or> sr_failed ?sr)"
    by (cases "sr_failed ?sr") (simp_all add: step R Let_def)
  from Cons.IH [of ?st "failed \<or> sr_failed ?sr"] Cons.prems obtain st' c where
    IH: "run_goroutines Invoke env dag snap sns ?st (failed \<or> sr_failed ?sr) =
        Some (st', (failed \<or> sr_failed ?sr) \<or> (\<exists>k \<in> set sns. sr_failed (?R c k)))"
      "layer_effect (?R c) (set sns) ?st st'" "pr_Status (ex_result st') = pr_Status (ex_result st)"
      "\<forall>k. c k \<noteq> env_call_done env k \<longrightarrow> c k \<and> k \<in> set sns \<and> env_late env k"
      "\<not> ex_cancelled ?st \<longrightarrow> ctx_choice env ?R (set sns) c"
    by auto
  have k: "k \<notin> set sns" using Cons.prems(1) by simp
  define c2 where "c2 = c(k := ?d)"
  have Rs: "?R c2 k = ?sr" by (simp add: c2_def outcome_def)
  have Rx: "?R c2 x = ?R c x" if "x \<in> set sns" for x using that k by (auto simp: c2_def outcome_def)
  have "layer_effect (?R c2) (set sns) ?st st'"
    using IH(2) layer_effect_cong [of "set sns" "?R c2" "?R c"] Rx by blast
  then have eff: "layer_effect (?R c2) (insert k (set sns)) st st'"
    by (intro layer_effect_step [OF _ k List.finite_set]) (simp only: Rs)
  have ctx: "\<forall>x. c2 x \<noteq> env_call_done env x \<longrightarrow> c2 x \<and> x \<in> set (k # sns) \<and> env_late env x"
    using IH(4) by (auto simp: c2_def call_ctx_def)
  have "ctx_choice env ?R (set (k # sns)) c2" if nc: "\<not> ex_cancelled st"
  proof -
    have d: "?d = env_call_done env k" using nc by (simp add: call_ctx_def)
    then have plain: "?sr = ?R (env_call_done env) k" by (simp add: outcome_def)
    have ck: "c2 = c" if "c = env_call_done env" using that d by (auto simp: c2_def)
    show ?thesis
    proof (cases "sr_failed ?sr")
      case True
      then have "\<exists>x \<in> set (k # sns). sr_failed (?R c2 x)" "\<exists>x \<in> set (k # sns). sr_failed (?R (env_call_done env) x)"
        using Rs plain by (metis list.set_intros(1))+
      then show ?thesis using ctx unfolding ctx_choice_def by blast
    next
      case False
      with nc IH(5) have ch: "ctx_choice env ?R (set sns) c" by simp
      have "(\<exists>x \<in> set (k # sns). sr_failed (?R c2 x)) \<longleftrightarrow> (\<exists>x \<in> set sns. sr_failed (?R c x))"
        using False Rs Rx by auto
      moreover have "(\<exists>x \<in> set (k # sns). sr_failed (?R (env_call_done env) x)) \<longleftrightarrow>
          (\<exists>x \<in> set sns. sr_failed (?R (env_call_done env) x))"
        using False plain by auto
      ultimately show ?thesis using ch ctx ck unfolding ctx_choice_def by blast
    qed
  qed
  moreover have flag: "(failed \<or> sr_failed ?sr) \<or> (\<exists>k \<in> set sns. sr_failed (?R c k)) \<longleftrightarrow>
      failed \<or> (\<exists>x \<in> set (k # sns). sr_failed (?R c2 x))"
    using Rs Rx by auto
  ultimately show ?case
    using IH(3) eff ctx unfolding run IH(1) flag by (intro exI [of _ st'] exI [of _ c2] conjI) (simp | blast)+
qed

lemma run_layer_effect:
  assumes "distinct layer" "set layer \<subseteq> set (mkeys (dag_Steps dag))" "range_order (env_sched env)"
    and R_def: "R = outcome Invoke env dag (ex_outputs st)" and "\<not> ex_cancelled st"
  shows "\<exists>st' c. run_layer Invoke env dag layer st = Some (st', \<forall>k \<in> set layer. \<not> sr_failed (R c k)) \<and>
    layer_effect (R c) (set layer) st st' \<and>
    pr_Status (ex_result st') =
      (if \<forall>k \<in> set layer. \<not> sr_failed (R c k) then pr_Status (ex_result st) else ''failed'') \<and>
    ctx_choice env R (set layer) c"
proof (cases "length layer = 1")
  case True
  then obtain k where k: "layer = [k]" by (auto simp: length_Suc_conv)
  let ?c = "env_call_done env"
  from k assms(2) obtain step where step: "mget (dag_Steps dag) k = Some step"
    by (auto simp: mget_None_iff dest: weak_map_of_SomeI)
  then have "executeStep Invoke env (call_ctx env k st) step (ex_outputs st) = R ?c k"
    using assms(5) by (simp add: R_def outcome_def call_ctx_def)
  with k step have "\<exists>st'. run_layer Invoke env dag layer st = Some (st', \<forall>k \<in> set layer. \<not> sr_failed (R ?c k)) \<and>
    layer_effect (R ?c) (set layer) st st' \<and>
    pr_Status (ex_result st') =
      (if \<forall>k \<in> set layer. \<not> sr_failed (R ?c k) then pr_Status (ex_result st) else ''failed'')"
    by (auto simp: run_layer_def run_single_def Let_def layer_effect_def)
  moreover have "ctx_choice env R (set layer) ?c" by (simp add: ctx_choice_def)
  ultimately show ?thesis by blast
next
  case False
  from run_goroutines_effect [of "env_sched env layer" dag Invoke env "ex_outputs st" st False] assms
  obtain st' c where run: "run_goroutines Invoke env dag (ex_outputs st) (env_sched env layer) st False =
      Some (st', \<exists>k \<in> set layer. sr_failed (R c k))"
    and eff: "layer_effect (R c) (set layer) st st'" "pr_Status (ex_result st') = pr_Status (ex_result st)"
      "ctx_choice env R (set layer) c"
    by auto
  let ?st = "if \<exists>k \<in> set layer. sr_failed (R c k) then st'\<lparr>ex_result := (ex_result st')\<lparr>pr_Status := ''failed''\<rparr>\<rparr> else st'"
  have "run_layer Invoke env dag layer st = Some (?st, \<forall>k \<in> set layer. \<not> sr_failed (R c k))"
    using False run by (auto simp: run_layer_def)
  moreover have "layer_effect (R c) (set layer) st ?st" using eff(1) by (simp add: layer_effect_def)
  ultimately show ?thesis using eff(2,3) by (intro exI [of _ ?st] exI [of _ c]) auto
qed

subsection \<open>Interleavings\<close>

definition same_state :: "exec_state \<Rightarrow> exec_state \<Rightarrow> bool" where
  "same_state a b \<longleftrightarrow>
     (\<forall>k. res_of a k = res_of b k) \<and> (\<forall>k. mget (ex_outputs a) k = mget (ex_outputs b) k) \<and>
     pr_TotalTokens (ex_result a) = pr_TotalTokens (ex_result b) \<and>
     pr_Name (ex_result a) = pr_Name (ex_result b) \<and> pr_Status (ex_result a) = pr_Status (ex_result b) \<and>
     pr_TotalDuration (ex_result a) = pr_TotalDuration (ex_result b) \<and> ex_cancelled a = ex_cancelled b"

lemma executeStep_cong:
  assumes "step_DependsOn s \<noteq> [] \<Longrightarrow> mget0 [] o1 (hd (step_DependsOn s)) = mget0 [] o2 (hd (step_DependsOn s))"
    "mget0 [] o1 ''trigger'' = mget0 [] o2 ''trigger''"
  shows "executeStep Invoke env ctx s o1 = executeStep Invoke env ctx s o2"
  using assms by (auto simp: executeStep_def step_input_def Let_def)

lemma outcome_same: "same_state a b \<Longrightarrow> outcome Invoke env dag (ex_outputs a) = outcome Invoke env dag (ex_outputs b)"
  by (intro ext) (auto simp: outcome_def same_state_def mget0_def intro!: executeStep_cong)

definition valid_layers :: "DAG \<Rightarrow> string list list \<Rightarrow> bool" where
  "valid_layers dag layers \<longleftrightarrow>
     (\<forall>L \<in> set layers. distinct L \<and> set L \<subseteq> set (mkeys (dag_Steps dag)))"

text \<open>Two runs that differ in their schedules only, and what they may disagree on.\<close>

abbreviation resched :: "(string list \<Rightarrow> string list) \<Rightarrow> (string \<Rightarrow> bool) \<Rightarrow> run_env \<Rightarrow> run_env" where
  "resched sched late env \<equiv> env\<lparr>env_sched := sched, env_late := late\<rparr>"

lemma ctx_choiceD:
  assumes "ctx_choice (resched s l env) R ks c"
  shows "c k \<noteq> env_call_done env k \<Longrightarrow> l k"
    "(\<exists>k \<in> ks. sr_failed (R c k)) \<longleftrightarrow> (\<exists>k \<in> ks. sr_failed (R (env_call_done env) k))"
    "(\<forall>k \<in> ks. \<not> sr_failed (R c k)) \<Longrightarrow> c = env_call_done env"
proof -
  have "env_call_done (resched s l env) = env_call_done env" "env_late (resched s l env) = l" by simp_all
  note ch = assms [unfolded ctx_choice_def this]
  from ch show "c k \<noteq> env_call_done env k \<Longrightarrow> l k" by blast
  from ch show "(\<exists>k \<in> ks. sr_failed (R c k)) \<longleftrightarrow> (\<exists>k \<in> ks. sr_failed (R (env_call_done env) k))" by blast
  from ch show "(\<forall>k \<in> ks. \<not> sr_failed (R c k)) \<Longrightarrow> c = env_call_done env" by blast
qed

definition alike :: "(string \<Rightarrow> bool) \<Rightarrow> string list list \<Rightarrow> nat \<Rightarrow> exec_state \<Rightarrow> exec_state \<Rightarrow> bool" where
  "alike late Ls j a b \<longleftrightarrow>
     pr_Status (ex_result a) = pr_Status (ex_result b) \<and>
     (\<forall>k. res_of a k \<noteq> None \<longleftrightarrow> res_of b k \<noteq> None) \<and>
     (pr_Status (ex_result a) \<noteq> ''failed'' \<longrightarrow> pr_TotalTokens (ex_result a) = pr_TotalTokens (ex_result b)) \<and>
     (\<forall>k. res_of a k = res_of b k \<or>
        pr_Status (ex_result a) = ''failed'' \<and> late k \<and> 0 < j \<and> j \<le> length Ls \<and> k \<in> set (Ls ! (j - 1)))"

lemma same_alike: "same_state a b \<Longrightarrow> alike late Ls j a b"
  by (simp add: alike_def same_state_def)

lemma layer_alike:
  assumes "same_state a b" "layer_effect R (set L) a a1" "layer_effect R' (set L) b b1"
    "pr_Status (ex_result a1) = ''failed''" "pr_Status (ex_result b1) = ''failed''"
    "\<And>k. R k \<noteq> R' k \<Longrightarrow> late k"
  shows "alike late (Ds @ L # Ls) (Suc (length Ds)) a1 b1"
  using assms by (auto simp: alike_def layer_effect_def same_state_def)

lemma run_layers_same:
  assumes "valid_layers dag Ls" "range_order sched" "range_order sched'" "same_state a b" "\<not> ex_cancelled a"
    "\<And>k. res_of a k \<noteq> None \<longleftrightarrow> k \<in> set (concat Ds)"
  shows "\<exists>a' b' j. run_layers Invoke (resched sched late env) dag (length Ds) Ls a = Some a' \<and>
    run_layers Invoke (resched sched' late' env) dag (length Ds) Ls b = Some b' \<and>
    (\<forall>k. res_of a' k \<noteq> None \<longleftrightarrow> k \<in> set (concat (take j (Ds @ Ls)))) \<and>
    alike (\<lambda>k. late k \<or> late' k) (Ds @ Ls) j a' b'"
  using assms(1,4,5,6)
proof (induction Ls arbitrary: Ds a b)
  case Nil
  then show ?case using same_alike by (intro exI [of _ a] exI [of _ b] exI [of _ "length Ds"]) simp
next
  case (Cons L Ls)
  let ?R = "outcome Invoke env dag (ex_outputs a)"
  have env: "outcome Invoke (resched s l env) = outcome Invoke env" for s l
    by (intro ext) (simp add: outcome_def executeStep_def split: sum.split)
  have R: "?R = outcome Invoke env dag (ex_outputs b)" using Cons.prems(2) by (rule outcome_same)
  have L: "distinct L" "set L \<subseteq> set (mkeys (dag_Steps dag))" and rest: "valid_layers dag Ls"
    using Cons.prems(1) by (auto simp: valid_layers_def)
  have canc: "\<not> ex_cancelled b" using Cons.prems(2,3) by (simp add: same_state_def)
  obtain a1 c where a1: "run_layer Invoke (resched sched late env) dag L a = Some (a1, \<forall>k \<in> set L. \<not> sr_failed (?R c k))"
    "layer_effect (?R c) (set L) a a1"
    "pr_Status (ex_result a1) = (if \<forall>k \<in> set L. \<not> sr_failed (?R c k) then pr_Status (ex_result a) else ''failed'')"
    "ctx_choice (resched sched late env) ?R (set L) c"
    using run_layer_effect [OF L _ refl Cons.prems(3), of "resched sched late env" Invoke] assms(2)
    unfolding env by auto
  obtain b1 c' where b1: "run_layer Invoke (resched sched' late' env) dag L b = Some (b1, \<forall>k \<in> set L. \<not> sr_failed (?R c' k))"
    "layer_effect (?R c') (set L) b b1"
    "pr_Status (ex_result b1) = (if \<forall>k \<in> set L. \<not> sr_failed (?R c' k) then pr_Status (ex_result b) else ''failed'')"
    "ctx_choice (resched sched' late' env) ?R (set L) c'"
    using run_layer_effect [OF L _ refl canc, of "resched sched' late' env" Invoke] assms(3)
    unfolding env R by auto
  have go: "(\<forall>k \<in> set L. \<not> sr_failed (?R c k)) \<longleftrightarrow> (\<forall>k \<in> set L. \<not> sr_failed (?R c' k))"
    using ctx_choiceD(2) [OF a1(4)] ctx_choiceD(2) [OF b1(4)] by blast
  have keys: "res_of a1 k \<noteq> None \<longleftrightarrow> k \<in> set (concat (Ds @ [L]))" for k
    using a1(2) Cons.prems(4) [of k] by (auto simp: layer_effect_def)
  consider (cancel) "env_ctx_done env (length Ds)"
    | (fail) "\<not> env_ctx_done env (length Ds)" "\<exists>k \<in> set L. sr_failed (?R c k)"
    | (ok) "\<not> env_ctx_done env (length Ds)" "\<forall>k \<in> set L. \<not> sr_failed (?R c k)" by blast
  then show ?case
  proof cases
    case cancel
    let ?s = "\<lambda>st. st\<lparr>ex_result := (ex_result st)\<lparr>pr_Status := ''cancelled''\<rparr>\<rparr>"
    have "same_state (?s a) (?s b)" using Cons.prems(2) by (simp add: same_state_def)
    from same_alike [OF this] cancel Cons.prems(4) show ?thesis
      by (intro exI [of _ "?s a"] exI [of _ "?s b"] exI [of _ "length Ds"]) simp
  next
    case fail
    have late: "late k \<or> late' k" if "?R c k \<noteq> ?R c' k" for k
    proof -
      from that have "c k \<noteq> c' k" unfolding outcome_def by (rule contrapos_nn) simp
      then have "c k \<noteq> env_call_done env k \<or> c' k \<noteq> env_call_done env k" by auto
      then show ?thesis using ctx_choiceD(1) [OF a1(4)] ctx_choiceD(1) [OF b1(4)] by blast
    qed
    have "alike (\<lambda>k. late k \<or> late' k) (Ds @ L # Ls) (Suc (length Ds)) a1 b1"
      by (rule layer_alike [OF Cons.prems(2) a1(2) b1(2)])
        (use a1(3) b1(3) fail(2) go late in auto)
    moreover have "run_layer Invoke (resched sched late env) dag L a = Some (a1, False)"
      "run_layer Invoke (resched sched' late' env) dag L b = Some (b1, False)"
      using a1(1) b1(1) fail(2) go by auto
    ultimately show ?thesis using fail(1) Cons.prems(3) canc keys
      by (intro exI [of _ a1] exI [of _ b1] exI [of _ "Suc (length Ds)"]) simp
  next
    case ok
    then have c: "c = env_call_done env" "c' = env_call_done env"
      using ctx_choiceD(3) [OF a1(4)] ctx_choiceD(3) [OF b1(4)] go by blast+
    have same: "same_state a1 b1" "\<not> ex_cancelled a1"
      using a1(2,3) b1(2,3) Cons.prems(2,3) ok(2) unfolding c by (simp_all add: same_state_def layer_effect_def)
    have run: "run_layer Invoke (resched sched late env) dag L a = Some (a1, True)"
      "run_layer Invoke (resched sched' late' env) dag L b = Some (b1, True)"
      using a1(1) b1(1) ok(2) go by auto
    from Cons.IH [OF rest same keys] run ok(1) Cons.prems(3) canc show ?thesis by simp
  qed
qed

subsection \<open>What a run leaves behind\<close>

definition final_outputs :: "string \<Rightarrow> PipelineResult \<Rightarrow> (string, string) gomap" where
  "final_outputs trig r = (''trigger'', trig) # map (\<lambda>(k, sr). (k, sr_Output sr)) (pr_Steps r)"

lemma mget_final_outputs [simp]:
  "mget (final_outputs trig r) k =
     (if k = ''trigger'' then Some trig else map_option sr_Output (mget (pr_Steps r) k))"
  by (simp add: final_outputs_def map_of_map comp_def)

definition dag_deps :: "DAG \<Rightarrow> string \<Rightarrow> string set" where
  "dag_deps dag k = set (step_DependsOn (the (mget (dag_Steps dag) k)))"

text \<open>
  The steps \<open>D\<close> have run: their results, and only theirs, are recorded, each is the outcome
  of the step on the recorded outputs of the others under its context \<open>c\<close>, and the total is
  the sum of their tokens.
\<close>

definition results_ok ::
  "invoker \<Rightarrow> run_env \<Rightarrow> DAG \<Rightarrow> string \<Rightarrow> (string \<Rightarrow> bool) \<Rightarrow> string set \<Rightarrow> PipelineResult \<Rightarrow> bool"
where
  "results_ok Invoke env dag trig c D r \<longleftrightarrow>
     (\<forall>k. mget (pr_Steps r) k =
        (if k \<in> D then Some (outcome Invoke env dag (final_outputs trig r) c k) else None)) \<and>
     pr_TotalTokens r = (\<Sum>k\<in>D. sr_Tokens (outcome Invoke env dag (final_outputs trig r) c k))"

lemma results_ok_frame [simp]:
  "results_ok Invoke env dag trig c D (r\<lparr>pr_Status := x\<rparr>) = results_ok Invoke env dag trig c D r"
  "results_ok Invoke env dag trig c D (r\<lparr>pr_TotalDuration := y\<rparr>) = results_ok Invoke env dag trig c D r"
  by (simp_all add: results_ok_def final_outputs_def)

definition run_inv ::
  "invoker \<Rightarrow> run_env \<Rightarrow> DAG \<Rightarrow> string \<Rightarrow> string set \<Rightarrow> exec_state \<Rightarrow> bool"
where
  "run_inv Invoke env dag trig D st \<longleftrightarrow>
     results_ok Invoke env dag trig (env_call_done env) D (ex_result st) \<and> finite D \<and> ''trigger'' \<notin> D \<and>
     (\<forall>k \<in> D. dag_deps dag k \<subseteq> D \<and> \<not> sr_failed (the (res_of st k))) \<and>
     (\<forall>k. mget (ex_outputs st) k = mget (final_outputs trig (ex_result st)) k)"

lemma outcome_cong:
  assumes "\<And>d. d \<in> dag_deps dag k \<union> {''trigger''} \<Longrightarrow> mget0 [] o1 d = mget0 [] o2 d" "c k = c' k"
  shows "outcome Invoke env dag o1 c k = outcome Invoke env dag o2 c' k"
  unfolding outcome_def assms(2) using assms(1) by (intro executeStep_cong) (auto simp: dag_deps_def)

lemma run_inv_layer:
  assumes inv: "run_inv Invoke env dag trig D st"
    and eff: "layer_effect (outcome Invoke env dag (ex_outputs st) c) L st st'"
    and c: "\<And>k. k \<in> D \<Longrightarrow> c k = env_call_done env k"
    and L: "finite L" "L \<inter> D = {}" "''trigger'' \<notin> L" "\<forall>k \<in> L. dag_deps dag k \<subseteq> D"
  shows "results_ok Invoke env dag trig c (D \<union> L) (ex_result st')"
    and "\<forall>k \<in> L. the (res_of st' k) = outcome Invoke env dag (ex_outputs st) c k"
    and "\<forall>k \<in> D. res_of st' k = res_of st k"
    and "(\<forall>k \<in> L. \<not> sr_failed (outcome Invoke env dag (ex_outputs st) c k)) \<Longrightarrow> c = env_call_done env \<Longrightarrow>
      run_inv Invoke env dag trig (D \<union> L) st'"
proof -
  let ?o = "final_outputs trig (ex_result st)" and ?o' = "final_outputs trig (ex_result st')"
  have res: "res_of st' k = (if k \<in> L then Some (outcome Invoke env dag (ex_outputs st) c k) else res_of st k)"
    and tok: "pr_TotalTokens (ex_result st') = pr_TotalTokens (ex_result st) +
      (\<Sum>k\<in>L. sr_Tokens (outcome Invoke env dag (ex_outputs st) c k))" for k
    using eff by (simp_all add: layer_effect_def)
  have on_D: "mget ?o' d = mget ?o d" "mget (ex_outputs st) d = mget ?o' d" if "d \<in> D \<union> {''trigger''}" for d
    using that res [of d] L(2,3) inv by (auto simp: run_inv_def)
  have out_L: "outcome Invoke env dag (ex_outputs st) c k = outcome Invoke env dag ?o' c k" if "k \<in> L" for k
  proof (rule outcome_cong)
    fix d assume "d \<in> dag_deps dag k \<union> {''trigger''}"
    with that L(4) have "d \<in> D \<union> {''trigger''}" by blast
    from on_D(2) [OF this] show "mget0 [] (ex_outputs st) d = mget0 [] ?o' d" by (simp only: mget0_def)
  qed simp
  have out_D: "outcome Invoke env dag ?o (env_call_done env) k = outcome Invoke env dag ?o' c k" if "k \<in> D" for k
  proof (rule outcome_cong)
    fix d assume "d \<in> dag_deps dag k \<union> {''trigger''}"
    with that inv have "d \<in> D \<union> {''trigger''}" by (auto simp: run_inv_def)
    from on_D(1) [OF this] show "mget0 [] ?o d = mget0 [] ?o' d" by (simp only: mget0_def)
  qed (simp add: c [OF that])
  have "pr_TotalTokens (ex_result st') =
      (\<Sum>k\<in>D. sr_Tokens (outcome Invoke env dag ?o' c k)) + (\<Sum>k\<in>L. sr_Tokens (outcome Invoke env dag ?o' c k))"
    using inv tok out_D out_L by (simp add: run_inv_def results_ok_def)
  also have "\<dots> = (\<Sum>k\<in>D \<union> L. sr_Tokens (outcome Invoke env dag ?o' c k))"
    using inv L(1,2) by (subst sum.union_disjoint) (auto simp: run_inv_def)
  finally have tokens: "pr_TotalTokens (ex_result st') = \<dots>" .
  have steps: "res_of st' k = (if k \<in> D \<union> L then Some (outcome Invoke env dag ?o' c k) else None)" for k
    using res [of k] inv out_D [of k] out_L [of k] by (auto simp: run_inv_def results_ok_def)
  from steps tokens show ok: "results_ok Invoke env dag trig c (D \<union> L) (ex_result st')"
    by (simp add: results_ok_def)
  show L_res: "\<forall>k \<in> L. the (res_of st' k) = outcome Invoke env dag (ex_outputs st) c k"
    using res by simp
  show D_res: "\<forall>k \<in> D. res_of st' k = res_of st k" using res L(2) by auto
  assume good: "\<forall>k \<in> L. \<not> sr_failed (outcome Invoke env dag (ex_outputs st) c k)" and ceq: "c = env_call_done env"
  have "mget (ex_outputs st') k = mget ?o' k" for k
    using eff good res [of k] inv L(3) by (auto simp: layer_effect_def run_inv_def)
  with ok good inv L D_res L_res show "run_inv Invoke env dag trig (D \<union> L) st'"
    unfolding run_inv_def ceq by auto
qed

text \<open>
  How a run over the layers \<open>Ls\<close> ends: \<open>j\<close> of them ran. Either all did and succeeded, or the
  context was done before layer \<open>j\<close>, or the last layer that ran had a failure.
\<close>

definition run_end ::
  "(nat \<Rightarrow> bool) \<Rightarrow> string list list \<Rightarrow> nat \<Rightarrow> PipelineResult \<Rightarrow> bool"
where
  "run_end ctx_done Ls j r \<longleftrightarrow>
     (pr_Status r = ''completed'' \<and> j = length Ls \<and>
        (\<forall>k \<in> set (concat Ls). \<not> sr_failed (the (mget (pr_Steps r) k)))) \<or>
     (pr_Status r = ''cancelled'' \<and> j < length Ls \<and> ctx_done j \<and>
        (\<forall>k \<in> set (concat (take j Ls)). \<not> sr_failed (the (mget (pr_Steps r) k)))) \<or>
     (pr_Status r = ''failed'' \<and> 0 < j \<and> j \<le> length Ls \<and>
        (\<forall>k \<in> set (concat (take (j - 1) Ls)). \<not> sr_failed (the (mget (pr_Steps r) k))) \<and>
        (\<exists>k \<in> set (Ls ! (j - 1)). sr_failed (the (mget (pr_Steps r) k))))"

text \<open>The contexts of all the calls: only in a last layer with a failure can they be cancelled ones.\<close>

definition run_ctx :: "run_env \<Rightarrow> string list list \<Rightarrow> nat \<Rightarrow> PipelineResult \<Rightarrow> (string \<Rightarrow> bool) \<Rightarrow> bool" where
  "run_ctx env Ls j r c \<longleftrightarrow>
     (\<forall>k. c k \<noteq> env_call_done env k \<longrightarrow>
        c k \<and> env_late env k \<and> pr_Status r = ''failed'' \<and> k \<in> set (Ls ! (j - 1)))"

definition layers_closed :: "DAG \<Rightarrow> string list list \<Rightarrow> bool" where
  "layers_closed dag Ls \<longleftrightarrow> valid_layers dag Ls \<and> distinct (concat Ls) \<and> ''trigger'' \<notin> set (concat Ls) \<and>
     (\<forall>i < length Ls. \<forall>k \<in> set (Ls ! i). dag_deps dag k \<subseteq> set (concat (take i Ls)))"

lemma run_layers_end:
  assumes "range_order (env_sched env)" "layers_closed dag (Ds @ Ls)"
    "run_inv Invoke env dag trig (set (concat Ds)) st"
    "pr_Status (ex_result st) = ''completed''" "\<not> ex_cancelled st"
  shows "\<exists>st' j c. run_layers Invoke env dag (length Ds) Ls st = Some st' \<and>
    results_ok Invoke env dag trig c (set (concat (take j (Ds @ Ls)))) (ex_result st') \<and>
    run_end (env_ctx_done env) (Ds @ Ls) j (ex_result st') \<and> run_ctx env (Ds @ Ls) j (ex_result st') c"
  using assms(2-)
proof (induction Ls arbitrary: Ds st)
  case Nil
  then show ?case
    by (intro exI [of _ st] exI [of _ "length Ds"] exI [of _ "env_call_done env"])
      (simp add: run_inv_def run_end_def run_ctx_def)
next
  case (Cons L Ls)
  let ?R = "outcome Invoke env dag (ex_outputs st)"
  have lay: "distinct L" "set L \<subseteq> set (mkeys (dag_Steps dag))" "set L \<inter> set (concat Ds) = {}"
    "''trigger'' \<notin> set L"
    using Cons.prems(1) by (auto simp: layers_closed_def valid_layers_def)
  have deps: "\<forall>k \<in> set L. dag_deps dag k \<subseteq> set (concat Ds)"
    using Cons.prems(1) by (force simp: layers_closed_def dest: spec [of _ "length Ds"])
  obtain st1 c where run: "run_layer Invoke env dag L st = Some (st1, \<forall>k \<in> set L. \<not> sr_failed (?R c k))"
    and eff: "layer_effect (?R c) (set L) st st1"
    and status: "pr_Status (ex_result st1) =
      (if \<forall>k \<in> set L. \<not> sr_failed (?R c k) then pr_Status (ex_result st) else ''failed'')"
    and ch: "ctx_choice env ?R (set L) c"
    using run_layer_effect [OF lay(1,2) assms(1) refl Cons.prems(4)] by blast
  have ctx: "c k \<and> k \<in> set L \<and> env_late env k" if "c k \<noteq> env_call_done env k" for k
    using ch that unfolding ctx_choice_def by blast
  have same: "c k = env_call_done env k" if "k \<in> set (concat Ds)" for k
    using ctx [of k] that lay(3) by blast
  note after = run_inv_layer [OF Cons.prems(2) eff same List.finite_set lay(3,4) deps]
  have D: "set (concat (Ds @ [L])) = set (concat Ds) \<union> set L" by simp
  consider (cancel) "env_ctx_done env (length Ds)"
    | (fail) "\<not> env_ctx_done env (length Ds)" "\<exists>k \<in> set L. sr_failed (?R c k)"
    | (ok) "\<not> env_ctx_done env (length Ds)" "\<forall>k \<in> set L. \<not> sr_failed (?R c k)" by blast
  then show ?case
  proof cases
    case cancel
    then show ?thesis using Cons.prems(2-)
      by (intro exI [of _ "st\<lparr>ex_result := (ex_result st)\<lparr>pr_Status := ''cancelled''\<rparr>\<rparr>"] exI [of _ "length Ds"]
          exI [of _ "env_call_done env"])
        (auto simp: run_end_def run_inv_def run_ctx_def)
  next
    case fail
    then have failed: "pr_Status (ex_result st1) = ''failed''" using status by auto
    then have "run_end (env_ctx_done env) (Ds @ L # Ls) (Suc (length Ds)) (ex_result st1)"
      using fail after(2,3) Cons.prems(2) by (auto simp: run_end_def run_inv_def)
    moreover have "run_ctx env (Ds @ L # Ls) (Suc (length Ds)) (ex_result st1) c"
      using ctx failed unfolding run_ctx_def by fastforce
    moreover have "run_layer Invoke env dag L st = Some (st1, False)" using fail(2) run by auto
    ultimately show ?thesis using fail(1) after(1) Cons.prems(4)
      by (intro exI [of _ st1] exI [of _ "Suc (length Ds)"] exI [of _ c]) (simp add: D)
  next
    case ok
    then have "c = env_call_done env" using ch unfolding ctx_choice_def by blast
    with ok have "run_inv Invoke env dag trig (set (concat (Ds @ [L]))) st1"
      "pr_Status (ex_result st1) = ''completed''" "\<not> ex_cancelled st1"
      using after(4) status Cons.prems(3,4) eff by (auto simp: D layer_effect_def)
    from Cons.IH [OF _ this] Cons.prems(1) ok run Cons.prems(4) show ?thesis by simp
  qed
qed

lemma run_end_frame [simp]:
  "run_end ctx_done Ls j (r\<lparr>pr_TotalDuration := y\<rparr>) = run_end ctx_done Ls j r"
  "run_ctx env Ls j (r\<lparr>pr_TotalDuration := y\<rparr>) c = run_ctx env Ls j r c"
  by (simp_all add: run_end_def run_ctx_def)

lemma BuildDAG_valid_layers:
  assumes "range_order rng" "range_order rng'" "BuildDAG rng rng' steps = Inr dag"
  shows "valid_layers dag (dag_Order dag)"
    and "''trigger'' \<notin> set (step_names steps) \<Longrightarrow> layers_closed dag (dag_Order dag)"
proof -
  note ok = BuildDAG_success [OF assms]
  then have d: "distinct (step_names steps)" and known: "deps_known steps"
    and ord: "dag_Order dag = spec_layers steps []"
    and keys: "set (mkeys (dag_Steps dag)) = set (step_names steps)" by auto
  note placed = spec_layers_placed [OF d, of "[]"]
  then have sub: "set (concat (spec_layers steps [])) \<subseteq> set (step_names steps)" by blast
  show valid: "valid_layers dag (dag_Order dag)"
    unfolding valid_layers_def ord keys using placed sub by auto
  have deps: "dag_deps dag k = set (deps_of steps k)" if "k \<in> set (step_names steps)" for k
  proof -
    from that obtain s where s: "s \<in> set steps" "step_Name s = k" by (auto simp: step_names_def)
    with find_name [OF d s(1)] deps_of_step [OF d s(1)] ok d show ?thesis
      by (simp add: dag_deps_def mget_indexed)
  qed
  assume trig: "''trigger'' \<notin> set (step_names steps)"
  show "layers_closed dag (dag_Order dag)"
    unfolding layers_closed_def
  proof (intro conjI allI impI ballI)
    fix i k assume i: "i < length (dag_Order dag)" and k: "k \<in> set (dag_Order dag ! i)"
    then have "k \<in> set (step_names steps)" using sub ord by (force dest: nth_mem)
    then show "dag_deps dag k \<subseteq> set (concat (take i (dag_Order dag)))"
      using spec_layers_deps [of i steps "[]" k] i k ord by (simp add: deps)
  qed (use valid placed sub trig ord in auto)
qed

text \<open>
  The input a step is to run on, read from the results: its own, else what its first dependency
  returned, else the input of the trigger.
\<close>

definition chained_input :: "string \<Rightarrow> PipelineResult \<Rightarrow> Step \<Rightarrow> string" where
  "chained_input trig r s =
     (case (step_Input s, step_DependsOn s) of
        (c # cs, _) \<Rightarrow> c # cs
      | ([], []) \<Rightarrow> trig
      | ([], d # _) \<Rightarrow> (case sr_Output (the (mget (pr_Steps r) d)) of [] \<Rightarrow> trig | out \<Rightarrow> out))"

lemma step_input_chained:
  assumes "\<And>d. d \<in> set (step_DependsOn s) \<Longrightarrow> d \<noteq> ''trigger'' \<and> mget (pr_Steps r) d \<noteq> None"
  shows "step_input s (final_outputs trig r) = chained_input trig r s"
proof (cases "step_DependsOn s")
  case Nil
  then show ?thesis
    by (cases "step_Input s") (simp_all add: step_input_def chained_input_def mget0_def)
next
  case (Cons d ds)
  with assms [of d] obtain sd where "d \<noteq> ''trigger''" "mget (pr_Steps r) d = Some sd" by auto
  with Cons show ?thesis
    by (cases "step_Input s"; cases "sr_Output sd") (simp_all add: step_input_def chained_input_def mget0_def)
qed

lemma executeStep_status: "\<not> sr_failed (executeStep Invoke env ctx s outs) \<longleftrightarrow>
    sr_Status (executeStep Invoke env ctx s outs) = ''completed''"
  by (simp add: executeStep_def split: sum.split)

lemma Execute_results:
  assumes "range_order rng" "range_order rng'" "BuildDAG rng rng' steps = Inr dag"
    "range_order (env_sched env)" "''trigger'' \<notin> set (step_names steps)"
  shows "\<exists>r j c. Execute Invoke env name dag trig = Some r \<and>
    results_ok Invoke env dag trig c (set (concat (take j (dag_Order dag)))) r \<and>
    run_end (env_ctx_done env) (dag_Order dag) j r \<and> run_ctx env (dag_Order dag) j r c"
proof -
  have "run_inv Invoke env dag trig (set (concat [])) (init_exec name trig)"
    by (simp add: run_inv_def results_ok_def zero_TokenUsage_def init_exec_def)
  from run_layers_end [OF assms(4) _ this] BuildDAG_valid_layers(2) [OF assms(1-3,5)]
  obtain st' j c where "run_layers Invoke env dag 0 (dag_Order dag) (init_exec name trig) = Some st'"
    "results_ok Invoke env dag trig c (set (concat (take j (dag_Order dag)))) (ex_result st')"
    "run_end (env_ctx_done env) (dag_Order dag) j (ex_result st')"
    "run_ctx env (dag_Order dag) j (ex_result st') c" by (fastforce simp: init_exec_def)
  then show ?thesis unfolding Execute_def
    by (intro exI [of _ "(ex_result st')\<lparr>pr_TotalDuration := env_elapsed env\<rparr>"] exI [of _ j] exI [of _ c]) simp
qed

text \<open>The dependencies of a step that ran are in earlier layers, and completed.\<close>

lemma deps_completed:
  assumes "layers_closed dag Ls" "results_ok Invoke env dag trig c (set (concat (take j Ls))) r"
    "run_end ctx_done Ls j r" "k \<in> set (concat (take j Ls))" "d \<in> dag_deps dag k"
  shows "d \<noteq> ''trigger'' \<and> (\<exists>sd. mget (pr_Steps r) d = Some sd \<and> sr_Status sd = ''completed'')"
proof -
  from assms(4) obtain L where "L \<in> set (take j Ls)" "k \<in> set L" by auto
  then obtain i where "i < length (take j Ls)" "k \<in> set (take j Ls ! i)" by (metis in_set_conv_nth)
  then have i: "i < j" "i < length Ls" "k \<in> set (Ls ! i)" by auto
  with assms(1,5) have d: "d \<in> set (concat (take i Ls))" unfolding layers_closed_def by blast
  have sub: "set (concat (take i Ls)) \<subseteq> set (concat (take n Ls))" if "i \<le> n" for n
    using set_take_subset_set_take [OF that, of Ls] by auto
  have "d \<in> set (concat Ls)" using d set_take_subset [of i Ls] by auto
  then have "d \<noteq> ''trigger''" using assms(1) by (auto simp: layers_closed_def)
  moreover have rec: "mget (pr_Steps r) d = Some (outcome Invoke env dag (final_outputs trig r) c d)"
    using assms(2) d sub [of j] i(1) by (auto simp: results_ok_def)
  moreover have "\<not> sr_failed (the (mget (pr_Steps r) d))"
  proof -
    have "i \<le> j" "i \<le> j - 1" using i(1) by simp_all
    then have "d \<in> set (concat (take j Ls))" "d \<in> set (concat (take (j - 1) Ls))"
      using d sub by blast+
    then show ?thesis using assms(3) \<open>d \<in> set (concat Ls)\<close> unfolding run_end_def by blast
  qed
  ultimately show ?thesis using executeStep_status by (auto simp: outcome_def)
qed

subsection \<open>Properties\<close>

text \<open>
  C14. On a graph from \<open>BuildDAG\<close> the executor always returns, and the order in which the
  goroutines of a layer finish, and which calls notice that a sibling cancelled the context,
  change nothing in a run without a failed step. In a run with one they do not change the status
  or which steps ran, and only steps of the last layer that were still being invoked when a
  sibling failed can have another result.
\<close>

theorem Execute_schedule_independent:
  assumes "range_order rng" "range_order rng'" "BuildDAG rng rng' steps = Inr dag"
    "range_order sched" "range_order sched'"
  shows "\<exists>r r' j. Execute Invoke (env\<lparr>env_sched := sched, env_late := late\<rparr>) name dag trig = Some r \<and>
    Execute Invoke (env\<lparr>env_sched := sched', env_late := late'\<rparr>) name dag trig = Some r' \<and>
    pr_Status r = pr_Status r' \<and>
    (\<forall>k. mget (pr_Steps r) k \<noteq> None \<longleftrightarrow> k \<in> set (concat (take j (dag_Order dag)))) \<and>
    (\<forall>k. mget (pr_Steps r') k \<noteq> None \<longleftrightarrow> k \<in> set (concat (take j (dag_Order dag)))) \<and>
    (pr_Status r \<noteq> ''failed'' \<longrightarrow> pr_TotalTokens r = pr_TotalTokens r') \<and>
    (\<forall>k. mget (pr_Steps r) k = mget (pr_Steps r') k \<or>
       pr_Status r = ''failed'' \<and> (late k \<or> late' k) \<and> 0 < j \<and> j \<le> length (dag_Order dag) \<and>
       k \<in> set (dag_Order dag ! (j - 1)))"
proof -
  let ?st = "init_exec name trig"
  have "same_state ?st ?st" "\<not> ex_cancelled ?st" "\<And>k. res_of ?st k \<noteq> None \<longleftrightarrow> k \<in> set (concat [])"
    by (simp_all add: same_state_def init_exec_def)
  from run_layers_same [OF BuildDAG_valid_layers(1) [OF assms(1-3)] assms(4,5) this]
  obtain a b j where run: "run_layers Invoke (resched sched late env) dag 0 (dag_Order dag) ?st = Some a"
    "run_layers Invoke (resched sched' late' env) dag 0 (dag_Order dag) ?st = Some b"
    and res: "\<forall>k. res_of a k \<noteq> None \<longleftrightarrow> k \<in> set (concat (take j (dag_Order dag)))"
    "alike (\<lambda>k. late k \<or> late' k) (dag_Order dag) j a b" unfolding append_Nil list.size(3) by blast
  define r where "r st = (ex_result st)\<lparr>pr_TotalDuration := env_elapsed env\<rparr>" for st :: exec_state
  have ex: "Execute Invoke (resched sched late env) name dag trig = Some (r a)"
    "Execute Invoke (resched sched' late' env) name dag trig = Some (r b)" using run by (simp_all add: Execute_def r_def)
  have eq: "pr_Steps (ex_result st) = pr_Steps (r st)" "pr_Status (ex_result st) = pr_Status (r st)"
    "pr_TotalTokens (ex_result st) = pr_TotalTokens (r st)" for st by (simp_all add: r_def)
  note al = res(2) [unfolded alike_def eq] and keys = res(1) [unfolded eq]
  have "mget (pr_Steps (r b)) k \<noteq> None \<longleftrightarrow> k \<in> set (concat (take j (dag_Order dag)))" for k
    using conjunct1 [OF conjunct2 [OF al], THEN spec, of k] keys [THEN spec, of k] by argo
  then show ?thesis using ex al keys
    by (elim conjE, intro exI [of _ "r a"] exI [of _ "r b"] exI [of _ j] conjI) (assumption | rule allI)+
qed

text \<open>
  C15. Fail-fast, for pipelines without a step named \<open>trigger\<close>. A run stops after some number \<open>j\<close>
  of layers, and the steps with a recorded result are exactly those of the first \<open>j\<close> layers. The
  status is \<open>completed\<close> only if every layer ran without a failure; \<open>cancelled\<close> only if the
  context was done and no step failed; and \<open>failed\<close> only if some step of the last layer run
  failed and no earlier one did.
\<close>

theorem Execute_fail_fast:
  assumes "range_order rng" "range_order rng'" "BuildDAG rng rng' steps = Inr dag"
    "range_order (env_sched env)" "''trigger'' \<notin> set (step_names steps)"
    "Execute Invoke env name dag trig = Some r"
  shows "\<exists>j. (\<forall>k. mget (pr_Steps r) k \<noteq> None \<longleftrightarrow> k \<in> set (concat (take j (dag_Order dag)))) \<and>
    run_end (env_ctx_done env) (dag_Order dag) j r"
proof -
  from Execute_results [OF assms(1-5), of Invoke name trig] assms(6)
  obtain j c where "results_ok Invoke env dag trig c (set (concat (take j (dag_Order dag)))) r"
    "run_end (env_ctx_done env) (dag_Order dag) j r" by auto
  then show ?thesis by (intro exI [of _ j]) (auto simp: results_ok_def)
qed

text \<open>
  C16. Input chaining and accounting, for pipelines without a step named \<open>trigger\<close> (such a step
  would replace the trigger input of the steps after it). For each recorded result the step's
  dependencies are recorded as completed, its agent was invoked on the step's own input, else
  on the output of its first dependency, else on the trigger input, and status, output, error
  and tokens are those of the answer. The context was the caller's, except for steps caught by
  the cancellation of a failed run. The token total is the sum over the steps recorded.
\<close>

theorem Execute_chains_outputs:
  assumes "range_order rng" "range_order rng'" "BuildDAG rng rng' steps = Inr dag"
    "range_order (env_sched env)" "''trigger'' \<notin> set (step_names steps)"
    "Execute Invoke env name dag trig = Some r"
  shows "(\<forall>k sr. mget (pr_Steps r) k = Some sr \<longrightarrow>
      (\<exists>s \<in> set steps. \<exists>ctx. step_Name s = k \<and> sr_StepName sr = k \<and> sr_AgentRef sr = step_AgentRef s \<and>
         (\<forall>d \<in> set (step_DependsOn s). \<exists>sd. mget (pr_Steps r) d = Some sd \<and> sr_Status sd = ''completed'') \<and>
         (ctx \<noteq> env_call_done env k \<longrightarrow> ctx \<and> env_late env k \<and> pr_Status r = ''failed'') \<and>
         (case Invoke ctx k (step_AgentRef s) (chained_input trig r s) of
            Inl err \<Rightarrow> sr_Status sr = ''failed'' \<and> sr_Output sr = [] \<and> sr_Tokens sr = zero_tokens \<and>
              sr_Error sr = ''invoke '' @ step_AgentRef s @ '': '' @ err
          | Inr resp \<Rightarrow> sr_Status sr = ''completed'' \<and> sr_Output sr = resp_Output resp \<and>
              sr_Tokens sr = resp_Tokens resp \<and> sr_Error sr = []))) \<and>
    pr_TotalTokens r = (\<Sum>k | mget (pr_Steps r) k \<noteq> None. sr_Tokens (the (mget (pr_Steps r) k)))"
proof -
  from Execute_results [OF assms(1-5), of Invoke name trig] assms(6)
  obtain j c where ok: "results_ok Invoke env dag trig c (set (concat (take j (dag_Order dag)))) r"
    and fin: "run_end (env_ctx_done env) (dag_Order dag) j r" and ctx: "run_ctx env (dag_Order dag) j r c" by auto
  let ?D = "set (concat (take j (dag_Order dag)))" and ?o = "final_outputs trig r"
  note succ = BuildDAG_success [OF assms(1-3)]
  then have d: "distinct (step_names steps)" by blast
  note closed = BuildDAG_valid_layers(2) [OF assms(1-3,5)]
  have sub: "?D \<subseteq> set (step_names steps)"
    using spec_layers_placed [OF d, of "[]"] succ by (auto dest!: in_set_takeD)
  have step: "\<exists>s \<in> set steps. step_Name s = k \<and> mget (dag_Steps dag) k = Some s" if "k \<in> ?D" for k
  proof -
    from that sub obtain s where "s \<in> set steps" "step_Name s = k" unfolding step_names_def by auto
    with find_name [OF d] succ d show ?thesis by (intro bexI [of _ s]) (auto simp: mget_indexed)
  qed
  have D: "{k. mget (pr_Steps r) k \<noteq> None} = ?D" using ok by (auto simp: results_ok_def)
  show ?thesis
  proof (intro conjI allI impI)
    fix k sr assume "mget (pr_Steps r) k = Some sr"
    with ok have k: "k \<in> ?D" and sr: "sr = outcome Invoke env dag ?o c k"
      by (auto simp: results_ok_def split: if_splits)
    from step [OF k] obtain s where s: "s \<in> set steps" "step_Name s = k" "mget (dag_Steps dag) k = Some s" by blast
    have dep: "e \<noteq> ''trigger'' \<and> (\<exists>sd. mget (pr_Steps r) e = Some sd \<and> sr_Status sd = ''completed'')"
      if "e \<in> set (step_DependsOn s)" for e
      using deps_completed [OF closed ok fin k] that s(3) by (simp add: dag_deps_def)
    then have inp: "step_input s ?o = chained_input trig r s" by (intro step_input_chained) fastforce
    have sr: "sr = executeStep Invoke env (c k) s ?o" using sr s(3) by (simp add: outcome_def)
    have ctx: "c k \<noteq> env_call_done env k \<longrightarrow> c k \<and> env_late env k \<and> pr_Status r = ''failed''"
      using ctx unfolding run_ctx_def by blast
    show "\<exists>s \<in> set steps. \<exists>ctx. step_Name s = k \<and> sr_StepName sr = k \<and> sr_AgentRef sr = step_AgentRef s \<and>
         (\<forall>d \<in> set (step_DependsOn s). \<exists>sd. mget (pr_Steps r) d = Some sd \<and> sr_Status sd = ''completed'') \<and>
         (ctx \<noteq> env_call_done env k \<longrightarrow> ctx \<and> env_late env k \<and> pr_Status r = ''failed'') \<and>
         (case Invoke ctx k (step_AgentRef s) (chained_input trig r s) of
            Inl err \<Rightarrow> sr_Status sr = ''failed'' \<and> sr_Output sr = [] \<and> sr_Tokens sr = zero_tokens \<and>
              sr_Error sr = ''invoke '' @ step_AgentRef s @ '': '' @ err
          | Inr resp \<Rightarrow> sr_Status sr = ''completed'' \<and> sr_Output sr = resp_Output resp \<and>
              sr_Tokens sr = resp_Tokens resp \<and> sr_Error sr = [])"
      by (intro bexI [OF _ s(1)] exI [of _ "c k"] conjI)
        (use dep ctx in \<open>blast | simp add: sr executeStep_def s(2) inp split: sum.split\<close>)+
  qed (use ok D in \<open>auto simp: results_ok_def\<close>)
qed

subsection \<open>Witnesses\<close>

definition sample_invoke :: invoker where
  "sample_invoke ctx name agent input =
     (if ctx then Inl ''context canceled''
      else if name = ''b'' then Inl ''timeout''
      else Inr \<lparr>resp_Output = name @ ''('' @ input @ '')'', resp_Tokens = TokenUsage 3 1 0 0\<rparr>)"

text \<open>The schedule that lets every step of a layer finish in reverse order, and calls return early.\<close>

definition sample_env :: run_env where
  "sample_env = \<lparr>env_dur = (\<lambda>_. 1), env_elapsed = 5, env_sched = rev, env_late = (\<lambda>_. False),
     env_call_done = (\<lambda>_. False), env_ctx_done = (\<lambda>_. False)\<rparr>"

definition sample_result :: PipelineResult where
  "sample_result = the (Execute sample_invoke sample_env ''p'' sample_dag ''go'')"

lemma Execute_sample:
  "Execute sample_invoke sample_env ''p'' sample_dag ''go'' = Some sample_result"
  "mget (pr_Steps sample_result) ''join'' = None"
  "pr_Status sample_result = ''failed''"
  "sr_Output (the (mget (pr_Steps sample_result) ''a'')) = ''a(fetch(go))''"
  by code_simp+

lemma sample_trigger: "''trigger'' \<notin> set (step_names sample_steps)"
  by (simp add: sample_steps_def mk_step_def step_names_def)

lemma sample_sched: "range_order (env_sched sample_env)"
  using range_order_rev by (simp add: sample_env_def)

text \<open>
  Run the failing layer the other way round, with the step \<open>a\<close> caught by the cancellation: the
  status is still \<open>failed\<close>.
\<close>

theorem Execute_schedule_independent_witness:
  "\<exists>r. Execute sample_invoke (sample_env\<lparr>env_sched := (\<lambda>ks. ks), env_late := (\<lambda>_. True)\<rparr>) ''p'' sample_dag ''go'' =
       Some r \<and> pr_Status r = ''failed''"
proof -
  have "sample_env\<lparr>env_sched := rev, env_late := (\<lambda>_. False)\<rparr> = sample_env" by (simp add: sample_env_def)
  with Execute_schedule_independent [OF range_order_rev range_order_id BuildDAG_sample
    range_order_rev range_order_id, where Invoke = sample_invoke and env = sample_env
    and late = "\<lambda>_. False" and late' = "\<lambda>_. True" and name = "''p''" and trig = "''go''"]
    Execute_sample(1,3) show ?thesis by auto
qed

theorem Execute_fail_fast_witness:
  "\<exists>j. ''join'' \<notin> set (concat (take j (dag_Order sample_dag))) \<and>
     run_end (env_ctx_done sample_env) (dag_Order sample_dag) j sample_result"
  using Execute_fail_fast [OF range_order_rev range_order_id BuildDAG_sample sample_sched
    sample_trigger Execute_sample(1)] Execute_sample(2) by metis

theorem Execute_chains_outputs_witness:
  "pr_TotalTokens sample_result =
     (\<Sum>k | mget (pr_Steps sample_result) k \<noteq> None. sr_Tokens (the (mget (pr_Steps sample_result) k)))"
  using Execute_chains_outputs [OF range_order_rev range_order_id BuildDAG_sample sample_sched
    sample_trigger Execute_sample(1)] by blast

end
