(* ===== verification/IR.thy ===== *)
theory IR
  imports Complex_Main Prelude "HOL-Library.Product_Lexorder"
begin

text \<open>
  The intermediate representation of \<open>internal/ir\<close>: the document types of \<open>ir.go\<close> and the
  environment overrides of \<open>environment.go\<close>. The hash of an attribute map (SHA-256 over
  canonical JSON) and the case folding of \<open>strings.EqualFold\<close> are parameters.
\<close>

subsection \<open>Documents\<close>

text \<open>A value of Go type \<open>interface{}\<close>, as the lowering pass builds them.\<close>

datatype ivalue =
    INil
  | IBool bool
  | IInt int
  | IFloat rat
  | IString string
  | IList "ivalue list"
  | IMap "(string \<times> ivalue) list"

record Import =
  imp_Path :: string
  imp_Version :: string
  imp_Alias :: string

record Package =
  pkg_Name :: string
  pkg_Version :: string
  pkg_Description :: string

record Resource =
  res_Kind :: string
  res_Name :: string
  res_FQN :: string
  res_Attributes :: "(string, ivalue) gomap"
  res_References :: "string list"
  res_Hash :: string
  res_Metadata :: "(string, ivalue) gomap"

record Rule =
  rule_Action :: string
  rule_Resource :: string
  rule_Subject :: string

record Policy =
  pol_Name :: string
  pol_Rules :: "Rule list"

record Binding =
  bind_Name :: string
  bind_Adapter :: string
  bind_Default :: bool
  bind_Config :: "(string, ivalue) gomap"

record DeployTarget =
  dt_Name :: string
  dt_Target :: string
  dt_Default :: bool
  dt_Config :: "(string, ivalue) gomap"

record StateConfig =
  sc_Type :: string
  sc_Properties :: "(string, string) gomap"

record Document =
  doc_IRVersion :: string
  doc_LangVersion :: string
  doc_Package :: Package
  doc_Imports :: "Import list"
  doc_Resources :: "Resource list"
  doc_Policies :: "Policy list"
  doc_Bindings :: "Binding list"
  doc_DeployTargets :: "DeployTarget list"
  doc_StateConfig :: "StateConfig option"

text \<open>
  \<open>sort.Slice\<close> by kind, then name. Go leaves the order of equal elements open, and the stable sort
  here is one possible result; in a document lowered from a file that parsed without errors no
  two resources have the same kind and name, and it is the only one.
\<close>

definition SortResources :: "Resource list \<Rightarrow> Resource list" where
  "SortResources resources = sort_key (\<lambda>r. (res_Kind r, res_Name r)) resources"

subsection \<open>Environment overrides\<close>

datatype env_error = EnvironmentNotFound string | OverrideTargetNotFound string string

text \<open>A type assertion to string whose failure is ignored: \<open>s, _ := v.(string)\<close>.\<close>

definition as_string :: "ivalue option \<Rightarrow> string" where
  "as_string v = (case v of Some (IString s) \<Rightarrow> s | _ \<Rightarrow> [])"

definition resourceKey :: "Resource \<Rightarrow> string" where
  "resourceKey r = res_Kind r @ ''/'' @ res_Name r"

definition set_attribute ::
  "((string, ivalue) gomap \<Rightarrow> string) \<Rightarrow> string \<Rightarrow> string \<Rightarrow> Resource \<Rightarrow> Resource"
where
  "set_attribute ComputeHash attribute v r =
     (let newAttrs = mput attribute (IString v) (res_Attributes r)
      in r\<lparr>res_Attributes := newAttrs, res_Hash := ComputeHash newAttrs\<rparr>)"

text \<open>The inner loop: update the first resource whose key matches; \<open>None\<close> when none does.\<close>

fun override_first :: "(Resource \<Rightarrow> bool) \<Rightarrow> (Resource \<Rightarrow> Resource) \<Rightarrow> Resource list \<Rightarrow> Resource list option"
where
  "override_first hit upd [] = None"
| "override_first hit upd (r # rs) =
     (if hit r then Some (upd r # rs) else map_option (Cons r) (override_first hit upd rs))"

fun apply_overrides ::
  "((string, ivalue) gomap \<Rightarrow> string) \<Rightarrow> (string \<Rightarrow> string \<Rightarrow> bool) \<Rightarrow> string \<Rightarrow> ivalue list
    \<Rightarrow> Resource list \<Rightarrow> env_error + Resource list"
where
  "apply_overrides ComputeHash EqualFold envName [] rs = Inr rs"
| "apply_overrides ComputeHash EqualFold envName (ovRaw # ovs) rs =
     (case ovRaw of
        IMap ov \<Rightarrow>
          (let resourceRef = as_string (mget ov ''resource'');
               attribute = as_string (mget ov ''attribute'');
               val = as_string (mget ov ''value'')
           in if resourceRef = [] \<or> attribute = []
              then apply_overrides ComputeHash EqualFold envName ovs rs
              else case override_first
                       (\<lambda>r. resourceKey r = resourceRef \<or> EqualFold (resourceKey r) resourceRef)
                       (set_attribute ComputeHash attribute val) rs of
                  None \<Rightarrow> Inl (OverrideTargetNotFound envName resourceRef)
                | Some rs' \<Rightarrow> apply_overrides ComputeHash EqualFold envName ovs rs')
      | _ \<Rightarrow> apply_overrides ComputeHash EqualFold envName ovs rs)"

definition ApplyEnvironment ::
  "((string, ivalue) gomap \<Rightarrow> string) \<Rightarrow> (string \<Rightarrow> string \<Rightarrow> bool) \<Rightarrow> Document \<Rightarrow> string
    \<Rightarrow> env_error + Document"
where
  "ApplyEnvironment ComputeHash EqualFold doc envName =
     (if envName = [] then Inr doc
      else case find (\<lambda>r. res_Kind r = ''Environment'' \<and> res_Name r = envName) (doc_Resources doc) of
          None \<Rightarrow> Inl (EnvironmentNotFound envName)
        | Some envResource \<Rightarrow>
            (case mget (res_Attributes envResource) ''overrides'' of
               Some (IList overrides) \<Rightarrow>
                 (case apply_overrides ComputeHash EqualFold envName overrides (doc_Resources doc) of
                    Inl e \<Rightarrow> Inl e
                  | Inr rs \<Rightarrow>
                      Inr (doc\<lparr>doc_Resources := filter (\<lambda>r. res_Kind r \<noteq> ''Environment'') rs\<rparr>))
             | _ \<Rightarrow> Inr doc))"

subsection \<open>Overrides keep the identity of resources and their hashes consistent\<close>

definition hashes_ok :: "((string, ivalue) gomap \<Rightarrow> string) \<Rightarrow> Resource list \<Rightarrow> bool" where
  "hashes_ok ComputeHash rs \<longleftrightarrow> (\<forall>r \<in> set rs. res_Hash r = ComputeHash (res_Attributes r))"

definition res_id :: "Resource \<Rightarrow> string \<times> string \<times> string" where
  "res_id r = (res_Kind r, res_Name r, res_FQN r)"

lemma set_attribute_simps [simp]:
  "res_id (set_attribute H a v r) = res_id r"
  "res_Hash (set_attribute H a v r) = H (res_Attributes (set_attribute H a v r))"
  by (simp_all add: set_attribute_def res_id_def Let_def)

lemma override_first_keeps:
  assumes "override_first hit (set_attribute H a v) rs = Some rs'"
  shows "map res_id rs' = map res_id rs \<and> (hashes_ok H rs \<longrightarrow> hashes_ok H rs')"
  using assms
  by (induction rs arbitrary: rs') (auto simp: hashes_ok_def split: if_splits)

lemma apply_overrides_keeps:
  assumes "apply_overrides H F env ovs rs = Inr rs'"
  shows "map res_id rs' = map res_id rs \<and> (hashes_ok H rs \<longrightarrow> hashes_ok H rs')"
  using assms
proof (induction ovs arbitrary: rs)
  case (Cons ov ovs)
  from Cons.prems show ?case
    by (auto simp: Let_def split: ivalue.splits if_splits option.splits
      dest!: override_first_keeps Cons.IH)
qed simp

subsection \<open>What the overrides of an environment say\<close>

text \<open>
  An override is aimed at the first resource whose key is its reference, literally or up to
  case. The last override of an attribute of resource \<open>i\<close> decides its value.
\<close>

definition aimed :: "(string \<Rightarrow> string \<Rightarrow> bool) \<Rightarrow> string list \<Rightarrow> string \<Rightarrow> nat option" where
  "aimed F keys ref = find (\<lambda>i. keys ! i = ref \<or> F (keys ! i) ref) [0..<length keys]"

fun overridden :: "(string \<Rightarrow> string \<Rightarrow> bool) \<Rightarrow> string list \<Rightarrow> ivalue list \<Rightarrow> nat \<Rightarrow> string \<Rightarrow> string option" where
  "overridden F keys [] i a = None"
| "overridden F keys (IMap ov # ovs) i a =
     (case overridden F keys ovs i a of
        Some v \<Rightarrow> Some v
      | None \<Rightarrow>
          if as_string (mget ov ''resource'') \<noteq> [] \<and> a \<noteq> [] \<and> as_string (mget ov ''attribute'') = a \<and>
             aimed F keys (as_string (mget ov ''resource'')) = Some i
          then Some (as_string (mget ov ''value'')) else None)"
| "overridden F keys (_ # ovs) i a = overridden F keys ovs i a"

lemma find_upt_Suc: "find P [0..<Suc n] = (if P 0 then Some 0 else map_option Suc (find (P \<circ> Suc) [0..<n]))"
proof -
  have "find P (map Suc xs) = map_option Suc (find (P \<circ> Suc) xs)" for xs by (induction xs) simp_all
  then show ?thesis by (simp only: upt_conv_Cons [OF zero_less_Suc] find.simps map_Suc_upt [symmetric])
qed

lemma override_first_aimed:
  assumes "override_first (\<lambda>r. resourceKey r = ref \<or> F (resourceKey r) ref) upd rs = Some rs'"
  shows "\<exists>i < length rs. aimed F (map resourceKey rs) ref = Some i \<and> rs' = rs[i := upd (rs ! i)]"
  using assms
proof (induction rs arbitrary: rs')
  case (Cons r rs)
  let ?hit = "\<lambda>r. resourceKey r = ref \<or> F (resourceKey r) ref"
  have aim: "aimed F (map resourceKey (r # rs)) ref =
      (if ?hit r then Some 0 else map_option Suc (aimed F (map resourceKey rs) ref))"
    unfolding aimed_def length_map list.size(4) add_Suc_right add_0_right find_upt_Suc by (simp add: comp_def)
  show ?case
  proof (cases "?hit r")
    case True
    with Cons.prems aim show ?thesis by auto
  next
    case False
    with Cons.prems obtain rs1 where "override_first ?hit upd rs = Some rs1" "rs' = r # rs1" by auto
    with Cons.IH False aim show ?thesis by fastforce
  qed
qed simp

definition same_but_attrs :: "Resource \<Rightarrow> Resource \<Rightarrow> bool" where
  "same_but_attrs r r' \<longleftrightarrow> r\<lparr>res_Attributes := [], res_Hash := []\<rparr> = r'\<lparr>res_Attributes := [], res_Hash := []\<rparr>"

lemma override_step:
  assumes "aimed F (map resourceKey rs) ref = Some i" "i < length rs" "rs1 = rs[i := set_attribute H attr v (rs ! i)]"
  shows "map resourceKey rs1 = map resourceKey rs"
    and "j < length rs \<Longrightarrow> same_but_attrs (rs ! j) (rs1 ! j)"
    and "j < length rs \<Longrightarrow> mget (res_Attributes (rs1 ! j)) a =
      (if aimed F (map resourceKey rs) ref = Some j \<and> attr = a then Some (IString v) else mget (res_Attributes (rs ! j)) a)"
proof -
  have "resourceKey (set_attribute H attr v (rs ! i)) = map resourceKey rs ! i"
    using assms(2) by (simp add: set_attribute_def resourceKey_def Let_def)
  then show "map resourceKey rs1 = map resourceKey rs"
    using assms(3) by (simp only: map_update list_update_id)
  show "same_but_attrs (rs ! j) (rs1 ! j)" if "j < length rs"
    using assms that by (cases "j = i") (simp_all add: same_but_attrs_def set_attribute_def Let_def)
  show "mget (res_Attributes (rs1 ! j)) a =
      (if aimed F (map resourceKey rs) ref = Some j \<and> attr = a then Some (IString v) else mget (res_Attributes (rs ! j)) a)"
    if "j < length rs"
    using assms that by (cases "j = i") (auto simp: set_attribute_def Let_def)
qed

lemma apply_overrides_exact:
  assumes "apply_overrides H F env ovs rs = Inr rs'"
  shows "length rs' = length rs \<and>
    (\<forall>i < length rs. same_but_attrs (rs ! i) (rs' ! i) \<and>
       (\<forall>a. mget (res_Attributes (rs' ! i)) a =
          (case overridden F (map resourceKey rs) ovs i a of
             Some v \<Rightarrow> Some (IString v) | None \<Rightarrow> mget (res_Attributes (rs ! i)) a)))"
  using assms
proof (induction ovs arbitrary: rs)
  case Nil
  then show ?case by (simp add: same_but_attrs_def)
next
  case (Cons x ovs)
  show ?case
  proof (cases "\<exists>ov. x = IMap ov \<and> as_string (mget ov ''resource'') \<noteq> [] \<and> as_string (mget ov ''attribute'') \<noteq> []")
    case False
    then have "apply_overrides H F env ovs rs = Inr rs'" using Cons.prems by (cases x) (auto simp: Let_def)
    moreover have "overridden F keys (x # ovs) i a = overridden F keys ovs i a" for keys i a
      using False by (cases x) (auto split: option.splits)
    ultimately show ?thesis using Cons.IH by simp
  next
    case True
    then obtain ov where x: "x = IMap ov" "as_string (mget ov ''resource'') \<noteq> []" "as_string (mget ov ''attribute'') \<noteq> []"
      by blast
    let ?ref = "as_string (mget ov ''resource'')" and ?at = "as_string (mget ov ''attribute'')"
      and ?v = "as_string (mget ov ''value'')"
    obtain rs1 where rs1: "override_first (\<lambda>r. resourceKey r = ?ref \<or> F (resourceKey r) ?ref)
        (set_attribute H ?at ?v) rs = Some rs1" "apply_overrides H F env ovs rs1 = Inr rs'"
      using Cons.prems x by (auto simp: Let_def split: option.splits)
    from override_first_aimed [where F = F and ref = ?ref, OF rs1(1)] obtain i where i: "aimed F (map resourceKey rs) ?ref = Some i" "i < length rs"
      "rs1 = rs[i := set_attribute H ?at ?v (rs ! i)]" by blast
    note step = override_step [OF i]
    have len: "length rs1 = length rs" using i(3) by simp
    note IH = Cons.IH [OF rs1(2), unfolded step(1) len]
    show ?thesis
    proof (intro conjI allI impI)
      show "length rs' = length rs" using IH by blast
      fix j assume j: "j < length rs"
      with IH step(2) [OF j] show "same_but_attrs (rs ! j) (rs' ! j)" by (simp add: same_but_attrs_def)
      fix a
      have "mget (res_Attributes (rs' ! j)) a = (case overridden F (map resourceKey rs) ovs j a of
          Some v \<Rightarrow> Some (IString v) | None \<Rightarrow> mget (res_Attributes (rs1 ! j)) a)" using IH j by blast
      then show "mget (res_Attributes (rs' ! j)) a = (case overridden F (map resourceKey rs) (x # ovs) j a of
          Some v \<Rightarrow> Some (IString v) | None \<Rightarrow> mget (res_Attributes (rs ! j)) a)"
        unfolding step(3) [OF j] using x by (cases "overridden F (map resourceKey rs) ovs j a") auto
    qed
  qed
qed

subsection \<open>Properties\<close>

text \<open>
  C28. Applying the overrides of an environment changes attributes only, and only those an
  override names: the resources of the result are those of the document without the
  environments, in order, each the same as before but for its attributes and hash; an attribute
  has the value of the last override aimed at it, and its old value when there is none; the
  hash is the hash of the attributes; and everything outside the resources is kept.
\<close>

theorem ApplyEnvironment_keeps_identity:
  assumes "find (\<lambda>r. res_Kind r = ''Environment'' \<and> res_Name r = envName) (doc_Resources doc) = Some env"
    "mget (res_Attributes env) ''overrides'' = Some (IList overrides)" "envName \<noteq> []"
    "ApplyEnvironment ComputeHash EqualFold doc envName = Inr doc'"
    "hashes_ok ComputeHash (doc_Resources doc)"
  shows "map res_id (doc_Resources doc') =
      filter (\<lambda>(k, n, q). k \<noteq> ''Environment'') (map res_id (doc_Resources doc)) \<and>
    doc'\<lparr>doc_Resources := []\<rparr> = doc\<lparr>doc_Resources := []\<rparr> \<and>
    hashes_ok ComputeHash (doc_Resources doc') \<and>
    (\<exists>rs. doc_Resources doc' = filter (\<lambda>r. res_Kind r \<noteq> ''Environment'') rs \<and> length rs = length (doc_Resources doc) \<and>
       (\<forall>i < length rs. same_but_attrs (doc_Resources doc ! i) (rs ! i) \<and>
          (\<forall>a. mget (res_Attributes (rs ! i)) a =
             (case overridden EqualFold (map resourceKey (doc_Resources doc)) overrides i a of
                Some v \<Rightarrow> Some (IString v) | None \<Rightarrow> mget (res_Attributes (doc_Resources doc ! i)) a))))"
proof -
  from assms obtain rs where
    rs: "apply_overrides ComputeHash EqualFold envName overrides (doc_Resources doc) = Inr rs"
    and doc': "doc' = doc\<lparr>doc_Resources := filter (\<lambda>r. res_Kind r \<noteq> ''Environment'') rs\<rparr>"
    by (auto simp: ApplyEnvironment_def split: sum.splits)
  have "map res_id (filter (\<lambda>r. res_Kind r \<noteq> ''Environment'') rs) =
      filter (\<lambda>(k, n, q). k \<noteq> ''Environment'') (map res_id rs)"
    by (simp add: filter_map comp_def res_id_def case_prod_beta)
  then have "map res_id (doc_Resources doc') =
      filter (\<lambda>(k, n, q). k \<noteq> ''Environment'') (map res_id (doc_Resources doc))"
    "hashes_ok ComputeHash (doc_Resources doc')"
    using apply_overrides_keeps [OF rs] assms(5) doc' by (auto simp: hashes_ok_def)
  with apply_overrides_exact [OF rs] doc' show ?thesis by (intro conjI exI [of _ rs]) simp_all
qed

subsection \<open>Witnesses\<close>

definition mk_resource :: "string \<Rightarrow> string \<Rightarrow> (string, ivalue) gomap \<Rightarrow> string \<Rightarrow> Resource" where
  "mk_resource kind name attrs hash =
     \<lparr>res_Kind = kind, res_Name = name, res_FQN = ''pkg/'' @ kind @ ''/'' @ name, res_Attributes = attrs,
      res_References = [], res_Hash = hash, res_Metadata = []\<rparr>"

definition sample_hash :: "(string, ivalue) gomap \<Rightarrow> string" where
  "sample_hash attrs = (if mget attrs ''model'' = Some (IString ''small'') then ''h1'' else ''h0'')"

definition sample_doc :: "ivalue list \<Rightarrow> Document" where
  "sample_doc ovs = \<lparr>doc_IRVersion = ''2.0'', doc_LangVersion = ''3.0'',
     doc_Package = \<lparr>pkg_Name = ''pkg'', pkg_Version = ''1'', pkg_Description = []\<rparr>, doc_Imports = [],
     doc_Resources = [mk_resource ''Agent'' ''a'' [(''model'', IString ''large'')] ''h0'',
       mk_resource ''Environment'' ''dev'' (if ovs = [] then [] else [(''overrides'', IList ovs)]) ''h0''],
     doc_Policies = [], doc_Bindings = [], doc_DeployTargets = [], doc_StateConfig = None\<rparr>"

definition sample_override :: ivalue where
  "sample_override = IMap [(''resource'', IString ''Agent/a''), (''attribute'', IString ''model''),
     (''value'', IString ''small'')]"

definition sample_env_doc :: Document where
  "sample_env_doc = (sample_doc [])\<lparr>doc_Resources :=
     [mk_resource ''Agent'' ''a'' [(''model'', IString ''small'')] ''h1'']\<rparr>"

lemma ApplyEnvironment_sample:
  "ApplyEnvironment sample_hash (=) (sample_doc [sample_override]) ''dev'' = Inr sample_env_doc"
  by (simp add: sample_env_doc_def sample_doc_def mk_resource_def sample_override_def
      ApplyEnvironment_def as_string_def resourceKey_def set_attribute_def sample_hash_def Let_def)

theorem ApplyEnvironment_keeps_identity_witness:
  "hashes_ok sample_hash (doc_Resources sample_env_doc) \<and>
   map res_id (doc_Resources sample_env_doc) = [(''Agent'', ''a'', ''pkg/Agent/a'')]"
  using ApplyEnvironment_keeps_identity [OF _ _ _ ApplyEnvironment_sample,
      of "doc_Resources (sample_doc [sample_override]) ! 1" "[sample_override]"]
  by (simp add: sample_doc_def mk_resource_def hashes_ok_def sample_hash_def res_id_def)

end
