(* ===== verification/Plan.thy ===== *)
theory Plan
  imports IR
begin

text \<open>
  The diff engine of \<open>internal/plan\<close> (\<open>plan.go\<close>, \<open>drift.go\<close>) with the state entries of
  \<open>internal/state/state.go\<close> and the actions of \<open>internal/adapters/adapter.go\<close> it works on:
  what each desired resource and each stored entry contributes to a plan, that a plan has
  changes exactly when desired and stored state differ, and how plans and drift relate.
\<close>

subsection \<open>Stored entries and actions\<close>

record Entry =
  ent_FQN :: string
  ent_Hash :: string
  ent_Status :: string
  ent_LastApplied :: int
  ent_Adapter :: string
  ent_Error :: string
  ent_OrphanedAt :: int

definition StatusApplied :: string where "StatusApplied = ''applied''"
definition StatusFailed :: string where "StatusFailed = ''failed''"
definition StatusOrphaned :: string where "StatusOrphaned = ''orphaned''"

datatype ActionType = ActionCreate | ActionUpdate | ActionDelete | ActionNoop

record Action =
  act_FQN :: string
  act_Type :: ActionType
  act_Resource :: "Resource option"
  act_Reason :: string

record Plan =
  plan_Actions :: "Action list"
  plan_TargetBinding :: string
  plan_HasChanges :: bool

subsection \<open>Computing a plan\<close>

definition sortActions :: "Action list \<Rightarrow> Action list" where
  "sortActions actions = insertion_sort (\<lambda>a b. act_FQN a < act_FQN b) actions"

definition plan_desired :: "(string, Entry) gomap \<Rightarrow> Resource \<Rightarrow> Action \<times> bool" where
  "plan_desired currentMap r =
     (case mget currentMap (res_FQN r) of
        None \<Rightarrow>
          (\<lparr>act_FQN = res_FQN r, act_Type = ActionCreate, act_Resource = Some r,
            act_Reason = ''resource does not exist''\<rparr>, True)
      | Some entry \<Rightarrow>
          if ent_Hash entry \<noteq> res_Hash r then
            (\<lparr>act_FQN = res_FQN r, act_Type = ActionUpdate, act_Resource = Some r,
              act_Reason = ''resource hash changed''\<rparr>, True)
          else if ent_Status entry = StatusFailed then
            (\<lparr>act_FQN = res_FQN r, act_Type = ActionUpdate, act_Resource = Some r,
              act_Reason = ''retrying previously failed resource''\<rparr>, True)
          else
            (\<lparr>act_FQN = res_FQN r, act_Type = ActionNoop, act_Resource = Some r,
              act_Reason = ''no changes''\<rparr>, False))"

fun plan_desired_loop ::
  "(string, Entry) gomap \<Rightarrow> Resource list \<Rightarrow> Action list \<Rightarrow> bool \<Rightarrow> Action list \<times> bool"
where
  "plan_desired_loop currentMap [] actions hasChanges = (actions, hasChanges)"
| "plan_desired_loop currentMap (r # rs) actions hasChanges =
     (let (a, changed) = plan_desired currentMap r
      in plan_desired_loop currentMap rs (actions @ [a]) (hasChanges \<or> changed))"

fun plan_delete_loop ::
  "(string, Resource) gomap \<Rightarrow> Entry list \<Rightarrow> Action list \<Rightarrow> bool \<Rightarrow> Action list \<times> bool"
where
  "plan_delete_loop desiredMap [] actions hasChanges = (actions, hasChanges)"
| "plan_delete_loop desiredMap (e # es) actions hasChanges =
     (if mget desiredMap (ent_FQN e) = None
      then plan_delete_loop desiredMap es
        (actions @ [\<lparr>act_FQN = ent_FQN e, act_Type = ActionDelete, act_Resource = None,
                     act_Reason = ''resource no longer defined''\<rparr>]) True
      else plan_delete_loop desiredMap es actions hasChanges)"

definition ComputePlan :: "Resource list \<Rightarrow> Entry list \<Rightarrow> Plan" where
  "ComputePlan desired current =
     (let currentMap = index_by ent_FQN [] current;
          desiredMap = index_by res_FQN [] desired;
          (actions, hasChanges) = plan_desired_loop currentMap desired [] False;
          (actions, hasChanges) = plan_delete_loop desiredMap current actions hasChanges
      in \<lparr>plan_Actions = sortActions actions, plan_TargetBinding = [], plan_HasChanges = hasChanges\<rparr>)"

subsection \<open>Choosing a target\<close>

text \<open>
  \<open>ResolveBinding\<close> and \<open>ResolveDeployTarget\<close> have the same body over two types; both return a
  pointer into the list, nil when nothing is selected, and never an error.
\<close>

definition ResolveBinding :: "Binding list \<Rightarrow> string \<Rightarrow> Binding option" where
  "ResolveBinding bindings targetName =
     (if bindings = [] then None
      else if targetName \<noteq> [] then find (\<lambda>b. bind_Name b = targetName) bindings
      else case find bind_Default bindings of
          Some b \<Rightarrow> Some b
        | None \<Rightarrow> if length bindings = 1 then Some (bindings ! 0) else None)"

definition ResolveDeployTarget :: "DeployTarget list \<Rightarrow> string \<Rightarrow> DeployTarget option" where
  "ResolveDeployTarget targets targetName =
     (if targets = [] then None
      else if targetName \<noteq> [] then find (\<lambda>t. dt_Name t = targetName) targets
      else case find dt_Default targets of
          Some t \<Rightarrow> Some t
        | None \<Rightarrow> if length targets = 1 then Some (targets ! 0) else None)"

definition DeployTargetAdapter :: "string \<Rightarrow> string" where
  "DeployTargetAdapter target =
     (if target = ''process'' then ''local-mcp''
      else if target = ''docker-compose'' then ''docker-compose''
      else target)"

subsection \<open>Drift\<close>

record DriftEntry =
  dr_FQN :: string
  dr_Expected :: string
  dr_Actual :: string
  dr_Type :: string

record DriftResult =
  dr_HasDrift :: bool
  dr_Drifted :: "DriftEntry list"

fun drift_desired :: "(string, Entry) gomap \<Rightarrow> Resource list \<Rightarrow> DriftResult \<Rightarrow> DriftResult" where
  "drift_desired currentMap [] result = result"
| "drift_desired currentMap (r # rs) result =
     drift_desired currentMap rs
       (case mget currentMap (res_FQN r) of
          None \<Rightarrow> result\<lparr>dr_Drifted := dr_Drifted result @
              [\<lparr>dr_FQN = res_FQN r, dr_Expected = res_Hash r, dr_Actual = [], dr_Type = ''missing''\<rparr>],
            dr_HasDrift := True\<rparr>
        | Some entry \<Rightarrow>
            if ent_Hash entry \<noteq> res_Hash r
            then result\<lparr>dr_Drifted := dr_Drifted result @
                [\<lparr>dr_FQN = res_FQN r, dr_Expected = res_Hash r, dr_Actual = ent_Hash entry,
                  dr_Type = ''hash_mismatch''\<rparr>],
              dr_HasDrift := True\<rparr>
            else result)"

fun drift_extra :: "(string, Resource) gomap \<Rightarrow> Entry list \<Rightarrow> DriftResult \<Rightarrow> DriftResult" where
  "drift_extra desiredMap [] result = result"
| "drift_extra desiredMap (e # es) result =
     drift_extra desiredMap es
       (if mget desiredMap (ent_FQN e) = None
        then result\<lparr>dr_Drifted := dr_Drifted result @
            [\<lparr>dr_FQN = ent_FQN e, dr_Expected = [], dr_Actual = ent_Hash e, dr_Type = ''extra''\<rparr>],
          dr_HasDrift := True\<rparr>
        else result)"

definition DetectDrift :: "Resource list \<Rightarrow> Entry list \<Rightarrow> DriftResult" where
  "DetectDrift desired current =
     (let currentMap = index_by ent_FQN [] current;
          desiredMap = index_by res_FQN [] desired
      in drift_extra desiredMap current
           (drift_desired currentMap desired \<lparr>dr_HasDrift = False, dr_Drifted = []\<rparr>))"

subsection \<open>The loops in closed form\<close>

abbreviation entry_for :: "Entry list \<Rightarrow> string \<Rightarrow> Entry option" where
  "entry_for current q \<equiv> mget (index_by ent_FQN [] current) q"

abbreviation resource_for :: "Resource list \<Rightarrow> string \<Rightarrow> Resource option" where
  "resource_for desired q \<equiv> mget (index_by res_FQN [] desired) q"

definition delete_action :: "Entry \<Rightarrow> Action" where
  "delete_action e = \<lparr>act_FQN = ent_FQN e, act_Type = ActionDelete, act_Resource = None,
     act_Reason = ''resource no longer defined''\<rparr>"

lemma plan_desired_loop_eq:
  "plan_desired_loop cm rs as hc =
     (as @ map (fst \<circ> plan_desired cm) rs, hc \<or> (\<exists>r \<in> set rs. snd (plan_desired cm r)))"
  by (induction rs arbitrary: as hc) (auto simp: Let_def case_prod_beta)

lemma plan_delete_loop_eq:
  "plan_delete_loop dm es as hc =
     (as @ map delete_action (filter (\<lambda>e. mget dm (ent_FQN e) = None) es),
      hc \<or> (\<exists>e \<in> set es. mget dm (ent_FQN e) = None))"
  by (induction es arbitrary: as hc) (auto simp: delete_action_def)

lemma act_FQN_plan [simp]:
  "act_FQN (fst (plan_desired cm r)) = res_FQN r" "act_FQN (delete_action e) = ent_FQN e"
  "act_Type (delete_action e) = ActionDelete" "act_Resource (delete_action e) = None"
  by (auto simp: plan_desired_def delete_action_def split: option.splits)

lemma act_Resource_plan [simp]: "act_Resource (fst (plan_desired cm r)) = Some r"
  by (auto simp: plan_desired_def split: option.splits)

lemma plan_desired_changed: "snd (plan_desired cm r) \<longleftrightarrow> act_Type (fst (plan_desired cm r)) \<noteq> ActionNoop"
  by (auto simp: plan_desired_def split: option.splits)

lemma sortActions_sort: "sortActions as = sort_key act_FQN as"
  by (simp add: sortActions_def insertion_sort_is_sort_key)

definition unsorted_actions :: "Resource list \<Rightarrow> Entry list \<Rightarrow> Action list" where
  "unsorted_actions desired current =
     map (fst \<circ> plan_desired (index_by ent_FQN [] current)) desired @
     map delete_action (filter (\<lambda>e. resource_for desired (ent_FQN e) = None) current)"

lemma plan_Actions_eq: "plan_Actions (ComputePlan desired current) = sort_key act_FQN (unsorted_actions desired current)"
  by (simp add: ComputePlan_def plan_desired_loop_eq plan_delete_loop_eq sortActions_sort unsorted_actions_def Let_def)

lemma plan_HasChanges_eq:
  "plan_HasChanges (ComputePlan desired current) \<longleftrightarrow>
     (\<exists>r \<in> set desired. snd (plan_desired (index_by ent_FQN [] current) r)) \<or>
     (\<exists>e \<in> set current. resource_for desired (ent_FQN e) = None)"
  by (simp add: ComputePlan_def plan_desired_loop_eq plan_delete_loop_eq Let_def)

lemma unsorted_FQNs:
  "map act_FQN (unsorted_actions desired current) =
     map res_FQN desired @ map ent_FQN (filter (\<lambda>e. ent_FQN e \<notin> res_FQN ` set desired) current)"
  by (simp add: unsorted_actions_def comp_def index_by_None)

lemma distinct_unsorted:
  "distinct (map res_FQN desired) \<Longrightarrow> distinct (map ent_FQN current) \<Longrightarrow>
     distinct (map act_FQN (unsorted_actions desired current))"
  by (auto simp: unsorted_FQNs distinct_map_filter image_iff)

lemma set_plan_Actions: "set (plan_Actions (ComputePlan desired current)) = set (unsorted_actions desired current)"
  by (simp add: plan_Actions_eq)

lemma distinct_plan_Actions:
  assumes "distinct (map res_FQN desired)" "distinct (map ent_FQN current)"
  shows "distinct (map act_FQN (plan_Actions (ComputePlan desired current)))"
proof -
  have "mset (map act_FQN (plan_Actions (ComputePlan desired current))) =
      mset (map act_FQN (unsorted_actions desired current))" by (simp add: plan_Actions_eq)
  with distinct_unsorted [OF assms] show ?thesis by (metis mset_eq_imp_distinct_iff)
qed

lemma plan_action_cases:
  assumes "a \<in> set (plan_Actions (ComputePlan desired current))"
  obtains (want) r where "r \<in> set desired" "a = fst (plan_desired (index_by ent_FQN [] current) r)"
  | (drop) e where "e \<in> set current" "ent_FQN e \<notin> res_FQN ` set desired" "a = delete_action e"
  using assms by (auto simp: set_plan_Actions unsorted_actions_def index_by_None)

text \<open>The change a resource requires, from its desired and its stored form.\<close>

fun required_action :: "Resource option \<Rightarrow> Entry option \<Rightarrow> ActionType option" where
  "required_action None None = None"
| "required_action None (Some e) = Some ActionDelete"
| "required_action (Some r) None = Some ActionCreate"
| "required_action (Some r) (Some e) =
     Some (if ent_Hash e \<noteq> res_Hash r \<or> ent_Status e = StatusFailed then ActionUpdate else ActionNoop)"

lemma plan_desired_required:
  "Some (act_Type (fst (plan_desired (index_by ent_FQN [] current) r))) =
     required_action (Some r) (entry_for current (res_FQN r))"
  by (auto simp: plan_desired_def split: option.splits)

definition in_sync :: "Resource list \<Rightarrow> Entry list \<Rightarrow> bool" where
  "in_sync desired current \<longleftrightarrow>
     (\<forall>r \<in> set desired. \<exists>e. entry_for current (res_FQN r) = Some e \<and>
        ent_Hash e = res_Hash r \<and> ent_Status e \<noteq> StatusFailed) \<and>
     ent_FQN ` set current \<subseteq> res_FQN ` set desired"

lemma in_sync_iff: "\<not> plan_HasChanges (ComputePlan desired current) \<longleftrightarrow> in_sync desired current"
proof -
  have "snd (plan_desired (index_by ent_FQN [] current) r) \<longleftrightarrow>
      \<not> (\<exists>e. entry_for current (res_FQN r) = Some e \<and> ent_Hash e = res_Hash r \<and> ent_Status e \<noteq> StatusFailed)"
    for r by (cases "entry_for current (res_FQN r)") (simp_all add: plan_desired_def)
  then show ?thesis by (auto simp: plan_HasChanges_eq in_sync_def index_by_None)
qed

lemma plan_HasChanges_actions:
  "plan_HasChanges (ComputePlan desired current) \<longleftrightarrow>
     (\<exists>a \<in> set (plan_Actions (ComputePlan desired current)). act_Type a \<noteq> ActionNoop)"
  by (simp add: set_plan_Actions unsorted_actions_def plan_HasChanges_eq plan_desired_changed bex_Un) blast

lemma required_failed:
  "ent_Status e = StatusFailed \<Longrightarrow> required_action r (Some e) \<in> {Some ActionUpdate, Some ActionDelete}"
  by (cases r) simp_all

lemma map_of_distinct_keys:
  "distinct (map f xs) \<Longrightarrow> x \<in> set xs \<Longrightarrow> map_of (map (\<lambda>x. (f x, g x)) xs) (f x) = Some (g x)"
  by (induction xs) (auto simp: image_iff)

subsection \<open>Properties\<close>

text \<open>
  C20. A plan holds one action per resource that is desired or stored, and the type of each
  action is the one its desired and stored forms require: create, update on a changed hash or
  after a failure, delete, or nothing. The actions are in the plain order of their FQNs, which
  start with the package: the comment in \<open>ComputePlan\<close> announces an order by kind first, which
  \<open>sortActions\<close> does not implement.
\<close>

theorem ComputePlan_classifies:
  assumes "distinct (map res_FQN desired)" "distinct (map ent_FQN current)"
  shows "distinct (map act_FQN (plan_Actions (ComputePlan desired current))) \<and>
    sorted (map act_FQN (plan_Actions (ComputePlan desired current))) \<and>
    (\<forall>q. map_of (map (\<lambda>a. (act_FQN a, act_Type a)) (plan_Actions (ComputePlan desired current))) q =
       required_action (resource_for desired q) (entry_for current q))"
proof (intro conjI allI)
  let ?as = "plan_Actions (ComputePlan desired current)"
  show dist: "distinct (map act_FQN ?as)" using assms by (rule distinct_plan_Actions)
  show "sorted (map act_FQN ?as)" by (simp add: plan_Actions_eq)
  fix q
  note set_as = set_plan_Actions [of desired current]
  show "map_of (map (\<lambda>a. (act_FQN a, act_Type a)) ?as) q =
      required_action (resource_for desired q) (entry_for current q)"
  proof (cases "resource_for desired q")
    case (Some r)
    then have r: "r \<in> set desired" "res_FQN r = q" using index_by_unique [OF assms(1)] by auto
    let ?a = "fst (plan_desired (index_by ent_FQN [] current) r)"
    have "?a \<in> set ?as" using r set_as by (simp add: unsorted_actions_def)
    from map_of_distinct_keys [OF dist this, of act_Type] Some r plan_desired_required [of current r]
    show ?thesis by simp
  next
    case None
    then have q: "q \<notin> res_FQN ` set desired" by (simp add: index_by_None)
    show ?thesis
    proof (cases "entry_for current q")
      case (Some e)
      then have e: "e \<in> set current" "ent_FQN e = q" using index_by_unique [OF assms(2)] by auto
      then have "delete_action e \<in> set ?as" using None set_as by (simp add: unsorted_actions_def)
      from map_of_distinct_keys [OF dist this, of act_Type] Some None e show ?thesis by simp
    next
      case no_entry: None
      then have "q \<notin> ent_FQN ` set current" by (simp add: index_by_None)
      with q have "q \<notin> set (map act_FQN ?as)"
        using unsorted_FQNs [of desired current] set_as by (auto simp: unsorted_actions_def)
      then have "map_of (map (\<lambda>a. (act_FQN a, act_Type a)) ?as) q = None"
        by (auto simp: map_of_eq_None_iff)
      with None no_entry show ?thesis by simp
    qed
  qed
qed

text \<open>
  \<open>HasChanges\<close> is set exactly when some action of the plan is not a noop, and it is clear
  exactly when desired and stored state agree: every desired resource is stored with its hash
  and did not fail, and nothing else is stored.
\<close>

lemma ComputePlan_HasChanges:
  "(plan_HasChanges (ComputePlan desired current) \<longleftrightarrow>
      (\<exists>a \<in> set (plan_Actions (ComputePlan desired current)). act_Type a \<noteq> ActionNoop)) \<and>
   (plan_HasChanges (ComputePlan desired current) \<longleftrightarrow> \<not> in_sync desired current)"
proof
  show "plan_HasChanges (ComputePlan desired current) \<longleftrightarrow>
      (\<exists>a \<in> set (plan_Actions (ComputePlan desired current)). act_Type a \<noteq> ActionNoop)"
    by (rule plan_HasChanges_actions)
  show "plan_HasChanges (ComputePlan desired current) \<longleftrightarrow> \<not> in_sync desired current"
    using in_sync_iff by blast
qed

text \<open>
  A plan is deterministic: listing the desired resources or the stored entries in another
  order yields the same plan.
\<close>

lemma ComputePlan_order_independent:
  assumes "distinct (map res_FQN desired)" "distinct (map ent_FQN current)"
    "mset desired' = mset desired" "mset current' = mset current"
  shows "ComputePlan desired' current' = ComputePlan desired current"
proof -
  have dist: "distinct (map res_FQN desired')" "distinct (map ent_FQN current')"
    using assms by (metis mset_eq_imp_distinct_iff mset_map)+
  have sets: "set desired' = set desired" "set current' = set current"
    using assms(3,4) mset_eq_setD by blast+
  have res: "resource_for desired' q = resource_for desired q"
    and ent: "entry_for current' q = entry_for current q" for q
    using index_by_unique [OF assms(1)] index_by_unique [OF dist(1)] index_by_unique [OF assms(2)]
      index_by_unique [OF dist(2)] sets by (metis not_None_eq)+
  have "plan_desired (index_by ent_FQN [] current') = plan_desired (index_by ent_FQN [] current)"
    by (rule ext) (simp add: plan_desired_def ent)
  then have "mset (unsorted_actions desired' current') = mset (unsorted_actions desired current)"
    using assms(3,4) by (simp add: unsorted_actions_def res mset_filter)
  moreover have "inj_on act_FQN (set (unsorted_actions desired current))"
    using distinct_unsorted [OF assms(1,2)] by (simp add: distinct_map)
  ultimately have "plan_Actions (ComputePlan desired' current') = plan_Actions (ComputePlan desired current)"
    unfolding plan_Actions_eq using distinct_unsorted [OF dist] distinct_unsorted [OF assms(1,2)]
    by (metis (no_types, lifting) distinct_map mset_eq_setD properties_for_sort_key sort_key_inj_key_eq
      mset_sort sorted_sort_key)
  moreover have "plan_HasChanges (ComputePlan desired' current') = plan_HasChanges (ComputePlan desired current)"
    by (simp add: plan_HasChanges_eq sets res plan_desired_changed
      \<open>plan_desired (index_by ent_FQN [] current') = _\<close>)
  moreover have "plan_TargetBinding (ComputePlan d c) = []" for d c
    by (simp add: ComputePlan_def case_prod_beta Let_def)
  ultimately show ?thesis by simp
qed

lemma drift_desired_flags:
  "dr_HasDrift (drift_desired cm rs res) \<longleftrightarrow> dr_HasDrift res \<or>
     (\<exists>r \<in> set rs. \<forall>e. mget cm (res_FQN r) = Some e \<longrightarrow> ent_Hash e \<noteq> res_Hash r)"
  by (induction rs arbitrary: res) (auto split: option.splits)

lemma drift_extra_flags:
  "dr_HasDrift (drift_extra dm es res) \<longleftrightarrow> dr_HasDrift res \<or> (\<exists>e \<in> set es. mget dm (ent_FQN e) = None)"
  by (induction es arbitrary: res) auto

lemma drift_desired_list:
  "dr_HasDrift res = (dr_Drifted res \<noteq> []) \<Longrightarrow>
     dr_HasDrift (drift_desired cm rs res) = (dr_Drifted (drift_desired cm rs res) \<noteq> [])"
  by (induction rs arbitrary: res) (auto split: option.splits)

lemma drift_extra_list:
  "dr_HasDrift res = (dr_Drifted res \<noteq> []) \<Longrightarrow>
     dr_HasDrift (drift_extra dm es res) = (dr_Drifted (drift_extra dm es res) \<noteq> [])"
  by (induction es arbitrary: res) auto

text \<open>The report that the differences call for, one entry for each.\<close>

definition drift_report :: "Resource list \<Rightarrow> Entry list \<Rightarrow> DriftEntry list" where
  "drift_report desired current =
     concat (map (\<lambda>r. case entry_for current (res_FQN r) of
         None \<Rightarrow> [\<lparr>dr_FQN = res_FQN r, dr_Expected = res_Hash r, dr_Actual = [], dr_Type = ''missing''\<rparr>]
       | Some e \<Rightarrow> if ent_Hash e = res_Hash r then []
           else [\<lparr>dr_FQN = res_FQN r, dr_Expected = res_Hash r, dr_Actual = ent_Hash e,
                  dr_Type = ''hash_mismatch''\<rparr>]) desired) @
     map (\<lambda>e. \<lparr>dr_FQN = ent_FQN e, dr_Expected = [], dr_Actual = ent_Hash e, dr_Type = ''extra''\<rparr>)
       (filter (\<lambda>e. ent_FQN e \<notin> res_FQN ` set desired) current)"

lemma drift_desired_entries:
  "dr_Drifted (drift_desired cm rs res) = dr_Drifted res @
     concat (map (\<lambda>r. case mget cm (res_FQN r) of
         None \<Rightarrow> [\<lparr>dr_FQN = res_FQN r, dr_Expected = res_Hash r, dr_Actual = [], dr_Type = ''missing''\<rparr>]
       | Some e \<Rightarrow> if ent_Hash e = res_Hash r then []
           else [\<lparr>dr_FQN = res_FQN r, dr_Expected = res_Hash r, dr_Actual = ent_Hash e,
                  dr_Type = ''hash_mismatch''\<rparr>]) rs)"
proof (induction rs arbitrary: res)
  case (Cons r rs)
  show ?case by (cases "mget cm (res_FQN r)") (simp_all add: Cons.IH)
qed simp

lemma drift_extra_entries:
  "dr_Drifted (drift_extra dm es res) = dr_Drifted res @
     map (\<lambda>e. \<lparr>dr_FQN = ent_FQN e, dr_Expected = [], dr_Actual = ent_Hash e, dr_Type = ''extra''\<rparr>)
       (filter (\<lambda>e. mget dm (ent_FQN e) = None) es)"
  by (induction es arbitrary: res) simp_all

text \<open>
  C30. Drift and plans agree. The drift report has exactly one entry for each desired resource
  that is missing or has another hash, and one for each stored entry that is not desired; drift
  is reported exactly when there is such an entry; and a plan has changes exactly when there is
  drift or a stored resource with the desired hash failed and is to be retried.
\<close>

theorem DetectDrift_vs_plan:
  "dr_Drifted (DetectDrift desired current) = drift_report desired current \<and>
   (dr_HasDrift (DetectDrift desired current) \<longleftrightarrow>
      (\<exists>r \<in> set desired. \<nexists>e. entry_for current (res_FQN r) = Some e \<and> ent_Hash e = res_Hash r) \<or>
      (\<exists>e \<in> set current. ent_FQN e \<notin> res_FQN ` set desired)) \<and>
   (dr_HasDrift (DetectDrift desired current) \<longleftrightarrow> dr_Drifted (DetectDrift desired current) \<noteq> []) \<and>
   (plan_HasChanges (ComputePlan desired current) \<longleftrightarrow>
      dr_HasDrift (DetectDrift desired current) \<or>
      (\<exists>r \<in> set desired. \<exists>e. entry_for current (res_FQN r) = Some e \<and> ent_Hash e = res_Hash r \<and>
         ent_Status e = StatusFailed))"
proof (intro conjI)
  show "dr_Drifted (DetectDrift desired current) = drift_report desired current"
    by (simp add: DetectDrift_def drift_desired_entries drift_extra_entries drift_report_def index_by_None)
  show "dr_HasDrift (DetectDrift desired current) \<longleftrightarrow>
      (\<exists>r \<in> set desired. \<nexists>e. entry_for current (res_FQN r) = Some e \<and> ent_Hash e = res_Hash r) \<or>
      (\<exists>e \<in> set current. ent_FQN e \<notin> res_FQN ` set desired)"
    by (auto simp: DetectDrift_def Let_def drift_desired_flags drift_extra_flags index_by_None)
  show "dr_HasDrift (DetectDrift desired current) \<longleftrightarrow> dr_Drifted (DetectDrift desired current) \<noteq> []"
    unfolding DetectDrift_def Let_def by (intro drift_extra_list drift_desired_list) simp
  have "snd (plan_desired (index_by ent_FQN [] current) r) \<longleftrightarrow>
      (\<forall>e. entry_for current (res_FQN r) = Some e \<longrightarrow> ent_Hash e \<noteq> res_Hash r) \<or>
      (\<exists>e. entry_for current (res_FQN r) = Some e \<and> ent_Hash e = res_Hash r \<and> ent_Status e = StatusFailed)" for r
    by (cases "entry_for current (res_FQN r)") (simp_all add: plan_desired_def)
  then show "plan_HasChanges (ComputePlan desired current) \<longleftrightarrow>
      dr_HasDrift (DetectDrift desired current) \<or>
      (\<exists>r \<in> set desired. \<exists>e. entry_for current (res_FQN r) = Some e \<and> ent_Hash e = res_Hash r \<and>
         ent_Status e = StatusFailed)"
    by (auto simp: plan_HasChanges_eq DetectDrift_def Let_def drift_desired_flags drift_extra_flags)
qed

subsection \<open>Witnesses\<close>

definition mk_entry :: "string \<Rightarrow> string \<Rightarrow> string \<Rightarrow> Entry" where
  "mk_entry fqn hash status = \<lparr>ent_FQN = fqn, ent_Hash = hash, ent_Status = status, ent_LastApplied = 0,
     ent_Adapter = ''local-mcp'', ent_Error = [], ent_OrphanedAt = 0\<rparr>"

definition sample_desired :: "Resource list" where
  "sample_desired = [mk_resource ''Agent'' ''b'' [] ''h2'', mk_resource ''Agent'' ''a'' [] ''h1'']"

definition sample_current :: "Entry list" where
  "sample_current = [mk_entry ''pkg/Agent/c'' ''h3'' ''applied'', mk_entry ''pkg/Agent/b'' ''h2'' ''failed'']"

theorem ComputePlan_classifies_witness:
  "map_of (map (\<lambda>a. (act_FQN a, act_Type a)) (plan_Actions (ComputePlan sample_desired sample_current)))
     ''pkg/Agent/b'' = Some ActionUpdate"
proof -
  have "distinct (map res_FQN sample_desired)" "distinct (map ent_FQN sample_current)"
    "required_action (resource_for sample_desired ''pkg/Agent/b'') (entry_for sample_current ''pkg/Agent/b'') =
       Some ActionUpdate"
    by (simp_all add: sample_desired_def sample_current_def mk_resource_def mk_entry_def StatusFailed_def)
  with ComputePlan_classifies [of sample_desired sample_current] show ?thesis by simp
qed

end
