(* ===== verification/State_Backend.thy ===== *)
theory State_Backend
  imports Plan
begin

text \<open>
  The local state backend of \<open>internal/state/local.go\<close>: the JSON state file with its backup,
  the cache in front of it, budgets and version histories. Files are modelled by what the
  code can observe of them: whether they exist, their modification time, and what
  \<open>json.Unmarshal\<close> makes of their bytes. Every system call that can fail has an outcome in
  the argument \<open>io\<close>, so each error branch of the source is a branch here. The file lock is
  not part of this theory.
\<close>

subsection \<open>Files\<close>

record VersionEntry =
  ver_Version :: int
  ver_Timestamp :: string
  ver_Summary :: string
  ver_Snapshot :: "(string, string) gomap"

record BudgetState =
  bs_Agent :: string
  bs_Period :: string
  bs_LimitDollars :: rat
  bs_UsedDollars :: rat
  bs_ResetAt :: string
  bs_Paused :: bool
  bs_WarnedAt :: string

text \<open>The slice of entries is \<open>None\<close> when it is nil (JSON \<open>null\<close>): the cache tests for that.\<close>

record stateFile =
  sf_Version :: string
  sf_Entries :: "Entry list option"
  sf_Budgets :: "BudgetState list"
  sf_AgentVersions :: "(string, VersionEntry list) gomap"

definition zero_stateFile :: stateFile where
  "zero_stateFile = \<lparr>sf_Version = [], sf_Entries = None, sf_Budgets = [], sf_AgentVersions = []\<rparr>"

text \<open>
  File contents: no bytes, bytes that decode to a state file, or bytes \<open>json.Unmarshal\<close>
  refuses, with what it has stored into the target by then (nothing after a syntax error).
\<close>

datatype content = Empty | Valid stateFile | Invalid stateFile

fun Unmarshal :: "content \<Rightarrow> stateFile \<times> bool" where
  "Unmarshal Empty = (zero_stateFile, False)"
| "Unmarshal (Valid sf) = (sf, True)"
| "Unmarshal (Invalid sf) = (sf, False)"

record disk_file =
  f_data :: content
  f_mtime :: int

record files =
  fs_main :: "disk_file option"
  fs_bak :: "disk_file option"
  fs_tmp :: "disk_file option"

text \<open>
  Outcomes of the system calls, \<open>True\<close> for success; \<open>os.WriteFile\<close> truncates before it writes,
  so it can also fail half way. \<open>io_now\<close> is the modification time a write leaves.
\<close>

datatype write_outcome = Written | NotOpened | Torn content

record io =
  io_now :: int
  io_stat :: bool
  io_read :: bool
  io_read_bak :: bool
  io_write :: write_outcome
  io_marshal :: bool
  io_create :: bool
  io_write_tmp :: bool
  io_sync :: bool
  io_close :: bool
  io_backup :: bool
  io_rename :: bool
  io_restore :: bool

datatype state_error = ErrIO string | ErrStateCorrupted bool

definition write_main :: "io \<Rightarrow> content \<Rightarrow> files \<Rightarrow> files" where
  "write_main io data fs =
     (case io_write io of
        Written \<Rightarrow> fs\<lparr>fs_main := Some \<lparr>f_data = data, f_mtime = io_now io\<rparr>\<rparr>
      | NotOpened \<Rightarrow> fs
      | Torn part \<Rightarrow> fs\<lparr>fs_main := Some \<lparr>f_data = part, f_mtime = io_now io\<rparr>\<rparr>)"

subsection \<open>The backend and its cache\<close>

record LocalBackend =
  lb_cachedEntries :: "Entry list option"
  lb_index :: "(string, Entry) gomap"
  lb_cacheModTime :: int
  lb_hits :: nat
  lb_misses :: nat

definition NewLocalBackend :: LocalBackend where
  "NewLocalBackend = \<lparr>lb_cachedEntries = None, lb_index = [], lb_cacheModTime = 0, lb_hits = 0, lb_misses = 0\<rparr>"

definition invalidateCache :: "LocalBackend \<Rightarrow> LocalBackend" where
  "invalidateCache b = b\<lparr>lb_cachedEntries := None, lb_index := [], lb_cacheModTime := 0\<rparr>"

definition elems :: "'a list option \<Rightarrow> 'a list" where
  "elems xs = (case xs of None \<Rightarrow> [] | Some ys \<Rightarrow> ys)"

text \<open>A slice built by \<open>append\<close> from nil stays nil when nothing is appended.\<close>

definition slice_of :: "'a list \<Rightarrow> 'a list option" where
  "slice_of xs = (if xs = [] then None else Some xs)"

definition buildIndex :: "LocalBackend \<Rightarrow> LocalBackend" where
  "buildIndex b = b\<lparr>lb_index := index_by ent_FQN [] (elems (lb_cachedEntries b))\<rparr>"

type_synonym backend = "LocalBackend \<times> files"

definition loadFromBackup :: "io \<Rightarrow> backend \<Rightarrow> (state_error + Entry list option) \<times> backend" where
  "loadFromBackup io s =
     (let (b, fs) = s in
      case fs_bak fs of
        None \<Rightarrow> (Inr None, b, fs)
      | Some bak \<Rightarrow>
          if \<not> io_read_bak io then (Inl (ErrIO ''read backup''), b, fs)
          else let (sf, ok) = Unmarshal (f_data bak)
               in if \<not> ok then (Inl (ErrStateCorrupted True), b, fs)
                  else (Inr (sf_Entries sf), b, write_main io (f_data bak) fs))"

definition recoverFromBackup :: "io \<Rightarrow> backend \<Rightarrow> (state_error + Entry list option) \<times> backend" where
  "recoverFromBackup io s =
     (let (b, fs) = s in
      case fs_bak fs of
        None \<Rightarrow> (Inl (ErrStateCorrupted True), b, fs)
      | Some bak \<Rightarrow>
          if \<not> io_read_bak io then (Inl (ErrStateCorrupted True), b, fs)
          else let (sf, ok) = Unmarshal (f_data bak)
               in if \<not> ok then (Inl (ErrStateCorrupted True), b, fs)
                  else (Inr (sf_Entries sf), b, write_main io (f_data bak) fs))"

definition Load :: "io \<Rightarrow> backend \<Rightarrow> (state_error + Entry list option) \<times> backend" where
  "Load io s =
     (let (b, fs) = s in
      if \<not> io_stat io then (Inl (ErrIO ''stat''), b, fs)
      else case fs_main fs of
          None \<Rightarrow> loadFromBackup io (invalidateCache b, fs)
        | Some f \<Rightarrow>
            if lb_cachedEntries b \<noteq> None \<and> f_mtime f = lb_cacheModTime b
            then (Inr (lb_cachedEntries b), b, fs)
            else if \<not> io_read io then (Inl (ErrIO ''read''), b, fs)
            else let (sf, ok) = Unmarshal (f_data f)
                 in if \<not> ok then recoverFromBackup io (b, fs)
                    else let b = (buildIndex (b\<lparr>lb_cachedEntries := sf_Entries sf\<rparr>))\<lparr>lb_cacheModTime := f_mtime f\<rparr>
                         in (Inr (lb_cachedEntries b), b, fs))"

definition Get :: "io \<Rightarrow> string \<Rightarrow> backend \<Rightarrow> (state_error + Entry option) \<times> backend" where
  "Get io fqn s =
     (case Load io s of
        (Inl e, s') \<Rightarrow> (Inl e, s')
      | (Inr es, b, fs) \<Rightarrow>
          (case mget (lb_index b) fqn of
             Some entry \<Rightarrow> (Inr (Some entry), b\<lparr>lb_hits := Suc (lb_hits b)\<rparr>, fs)
           | None \<Rightarrow> (Inr None, b\<lparr>lb_misses := Suc (lb_misses b)\<rparr>, fs)))"

definition List_entries :: "io \<Rightarrow> string option \<Rightarrow> backend \<Rightarrow> (state_error + Entry list option) \<times> backend" where
  "List_entries io status s =
     (case Load io s of
        (Inl e, s') \<Rightarrow> (Inl e, s')
      | (Inr es, s') \<Rightarrow>
          (case status of
             None \<Rightarrow> (Inr es, s')
           | Some st \<Rightarrow>
               (Inr (slice_of (filter (\<lambda>e. ent_Status e = st) (elems es))), s')))"

subsection \<open>Saving\<close>

text \<open>The effect on the disk of the system calls of \<open>Save\<close> that change it, one definition for each.\<close>

definition op_create :: "io \<Rightarrow> files \<Rightarrow> files" where
  "op_create io fs = fs\<lparr>fs_tmp := Some \<lparr>f_data = Empty, f_mtime = io_now io\<rparr>\<rparr>"

definition op_write :: "io \<Rightarrow> content \<Rightarrow> files \<Rightarrow> files" where
  "op_write io data fs = fs\<lparr>fs_tmp := Some \<lparr>f_data = data, f_mtime = io_now io\<rparr>\<rparr>"

definition op_backup :: "files \<Rightarrow> files" where
  "op_backup fs = fs\<lparr>fs_bak := fs_main fs, fs_main := None\<rparr>"

definition op_commit :: "files \<Rightarrow> files" where
  "op_commit fs = fs\<lparr>fs_main := fs_tmp fs, fs_tmp := None\<rparr>"

definition op_restore :: "files \<Rightarrow> files" where
  "op_restore fs = (if fs_bak fs = None then fs else fs\<lparr>fs_main := fs_bak fs, fs_bak := None\<rparr>)"

definition op_remove_tmp :: "files \<Rightarrow> files" where
  "op_remove_tmp fs = fs\<lparr>fs_tmp := None\<rparr>"

text \<open>
  What a later \<open>json.Unmarshal\<close> makes of the bytes that \<open>json.MarshalIndent\<close> writes: the value
  written. This is so for strings of valid UTF-8, as the names, hashes and messages of the
  program are; \<open>encoding/json\<close> replaces other bytes by the replacement character.
\<close>

definition saved_content :: "Entry list option \<Rightarrow> content" where
  "saved_content entries =
     Valid \<lparr>sf_Version = ''1.0'', sf_Entries = map_option (sort_key ent_FQN) entries,
            sf_Budgets = [], sf_AgentVersions = []\<rparr>"

text \<open>The calls of \<open>Save\<close> that change the disk, and what each does to it.\<close>

datatype file_op = CreateTemp | WriteTemp content | RenameToBackup | RenameToState | RenameBack | RemoveTemp

fun do_op :: "io \<Rightarrow> file_op \<Rightarrow> files \<Rightarrow> files" where
  "do_op io CreateTemp fs = op_create io fs"
| "do_op io (WriteTemp data) fs = op_write io data fs"
| "do_op io RenameToBackup fs = op_backup fs"
| "do_op io RenameToState fs = op_commit fs"
| "do_op io RenameBack fs = op_restore fs"
| "do_op io RemoveTemp fs = op_remove_tmp fs"

text \<open>
  The body of \<open>Save\<close> with its early returns: the calls it makes on the disk, in their order,
  and the result. On each error return after the temporary file exists the deferred function
  removes it. \<open>sort.Slice\<close> is the stable sort here: the order it gives to two entries of the
  same name is not specified, and the callers save entries of distinct names.
\<close>

definition Save_calls :: "io \<Rightarrow> Entry list option \<Rightarrow> files \<Rightarrow> (state_error + unit) \<times> file_op list" where
  "Save_calls io entries fs =
     (let data = saved_content entries; exists = (io_stat io \<and> fs_main fs \<noteq> None) in
      if \<not> io_marshal io then (Inl (ErrIO ''marshal''), [])
      else if \<not> io_create io then (Inl (ErrIO ''create temp file''), [])
      else if \<not> io_write_tmp io then (Inl (ErrIO ''write temp file''), [CreateTemp, RemoveTemp])
      else if \<not> io_sync io then (Inl (ErrIO ''fsync temp file''), [CreateTemp, WriteTemp data, RemoveTemp])
      else if \<not> io_close io then (Inl (ErrIO ''close temp file''), [CreateTemp, WriteTemp data, RemoveTemp])
      else if exists \<and> \<not> io_backup io
           then (Inl (ErrIO ''create backup''), [CreateTemp, WriteTemp data, RemoveTemp])
      else let calls = [CreateTemp, WriteTemp data] @ (if exists then [RenameToBackup] else []) in
      if \<not> io_rename io
      then (Inl (ErrIO ''rename temp to state''),
            calls @ (if io_restore io then [RenameBack] else []) @ [RemoveTemp])
      else (Inr (), calls @ [RenameToState]))"


definition Save :: "io \<Rightarrow> Entry list option \<Rightarrow> backend \<Rightarrow> (state_error + unit) \<times> backend" where
  "Save io entries s =
     (let (b, fs) = s; (r, calls) = Save_calls io entries fs
      in (r, if r = Inr () then invalidateCache b else b, fold (do_op io) calls fs))"

subsection \<open>Budgets and version histories\<close>

definition read_for_update :: "io \<Rightarrow> files \<Rightarrow> state_error + stateFile" where
  "read_for_update io fs =
     (case fs_main fs of
        None \<Rightarrow> Inr zero_stateFile
      | Some f \<Rightarrow> if io_read io then Inr (fst (Unmarshal (f_data f))) else Inl (ErrIO ''read''))"

definition writeStateFile :: "io \<Rightarrow> stateFile \<Rightarrow> backend \<Rightarrow> (state_error + unit) \<times> backend" where
  "writeStateFile io sf s =
     (let (b, fs) = s in
      if \<not> io_marshal io then (Inl (ErrIO ''marshal''), b, fs)
      else (if io_write io = Written then Inr () else Inl (ErrIO ''write''), b, write_main io (Valid sf) fs))"

definition LoadBudgets :: "io \<Rightarrow> backend \<Rightarrow> state_error + BudgetState list" where
  "LoadBudgets io s =
     (case fs_main (snd s) of
        None \<Rightarrow> Inr []
      | Some f \<Rightarrow>
          if \<not> io_read io then Inl (ErrIO ''read'')
          else let (sf, ok) = Unmarshal (f_data f)
               in if ok then Inr (sf_Budgets sf) else Inl (ErrIO ''unmarshal''))"

definition with_version :: "stateFile \<Rightarrow> stateFile" where
  "with_version sf = (if sf_Version sf = [] then sf\<lparr>sf_Version := ''1.0''\<rparr> else sf)"

definition SaveBudgets :: "io \<Rightarrow> BudgetState list \<Rightarrow> backend \<Rightarrow> (state_error + unit) \<times> backend" where
  "SaveBudgets io budgets s =
     (case read_for_update io (snd s) of
        Inl e \<Rightarrow> (Inl e, s)
      | Inr sf \<Rightarrow> writeStateFile io (with_version (sf\<lparr>sf_Budgets := budgets\<rparr>)) s)"

definition SaveVersion :: "io \<Rightarrow> string \<Rightarrow> VersionEntry \<Rightarrow> backend \<Rightarrow> (state_error + unit) \<times> backend" where
  "SaveVersion io agent entry s =
     (case read_for_update io (snd s) of
        Inl e \<Rightarrow> (Inl e, s)
      | Inr sf \<Rightarrow>
          (let versions = mget0 [] (sf_AgentVersions sf) agent @ [entry];
               versions = (if length versions > 10 then drop (length versions - 10) versions else versions)
           in writeStateFile io
                (with_version (sf\<lparr>sf_AgentVersions := mput agent versions (sf_AgentVersions sf)\<rparr>)) s))"

definition GetVersions :: "io \<Rightarrow> string \<Rightarrow> backend \<Rightarrow> state_error + VersionEntry list" where
  "GetVersions io agent s =
     (case fs_main (snd s) of
        None \<Rightarrow> Inr []
      | Some f \<Rightarrow>
          if \<not> io_read io then Inl (ErrIO ''read'')
          else let (sf, ok) = Unmarshal (f_data f)
               in if ok then Inr (mget0 [] (sf_AgentVersions sf) agent) else Inl (ErrIO ''unmarshal''))"

subsection \<open>What the disk holds\<close>

fun decoded :: "disk_file option \<Rightarrow> stateFile option" where
  "decoded (Some f) = (if snd (Unmarshal (f_data f)) then Some (fst (Unmarshal (f_data f))) else None)"
| "decoded None = None"

text \<open>
  The entries the disk stands for, \<open>None\<close> when they are lost: those of the state file, or of
  the backup when the state file is missing or damaged, or none on a fresh start.
\<close>

definition stored :: "files \<Rightarrow> Entry list option" where
  "stored fs =
     (case decoded (fs_main fs) of
        Some sf \<Rightarrow> Some (elems (sf_Entries sf))
      | None \<Rightarrow>
          (case decoded (fs_bak fs) of
             Some sf \<Rightarrow> Some (elems (sf_Entries sf))
           | None \<Rightarrow> if fs_main fs = None \<and> fs_bak fs = None then Some [] else None))"

definition intact :: "files \<Rightarrow> bool" where
  "intact fs \<longleftrightarrow> (fs_main fs = None \<or> decoded (fs_main fs) \<noteq> None) \<and> stored fs \<noteq> None"

text \<open>
  A file with the time stamp of a warm cache holds the entries cached, indexed by name. This
  is asked of the backup too, because a failed \<open>Save\<close> can bring it back.
\<close>

definition stamped :: "files \<Rightarrow> bool" where
  "stamped fs \<longleftrightarrow>
     (\<forall>f g. fs_main fs = Some f \<longrightarrow> fs_bak fs = Some g \<longrightarrow> f_mtime f = f_mtime g \<longrightarrow> f_data f = f_data g)"

definition coherent :: "backend \<Rightarrow> bool" where
  "coherent s \<longleftrightarrow> stamped (snd s) \<and>
     (\<forall>es f. lb_cachedEntries (fst s) = Some es \<longrightarrow> Some f \<in> {fs_main (snd s), fs_bak (snd s)} \<longrightarrow>
        f_mtime f = lb_cacheModTime (fst s) \<longrightarrow>
        (\<exists>sf. f_data f = Valid sf \<and> sf_Entries sf = Some es) \<and> lb_index (fst s) = index_by ent_FQN [] es)"

text \<open>
  What a call needs of its environment: \<open>os.Stat\<close> sees whether the file exists, no write is
  torn, and the clock is past the time stamps of the cache and of the files.
\<close>

definition stamps :: "backend \<Rightarrow> int set" where
  "stamps s = {lb_cacheModTime (fst s)} \<union> f_mtime ` {f. Some f \<in> {fs_main (snd s), fs_bak (snd s)}}"

definition good_io :: "io \<Rightarrow> backend \<Rightarrow> bool" where
  "good_io io s \<longleftrightarrow> io_stat io \<and> (\<forall>c. io_write io \<noteq> Torn c) \<and> (\<forall>t \<in> stamps s. t < io_now io)"

definition backend_inv :: "backend \<Rightarrow> bool" where
  "backend_inv s \<longleftrightarrow> coherent s \<and> intact (snd s)"

definition entries_of :: "backend \<Rightarrow> Entry list" where
  "entries_of s = the (stored (snd s))"

lemma elems_simps [simp]: "elems None = []" "elems (Some xs) = xs"
  by (simp_all add: elems_def)

lemma elems_slice_of [simp]: "elems (slice_of xs) = xs"
  by (simp add: slice_of_def)

lemma Unmarshal_ok [simp]: "snd (Unmarshal c) \<longleftrightarrow> (\<exists>sf. c = Valid sf)"
  by (cases c) auto

lemma Unmarshal_Valid [simp]: "Unmarshal c = (sf, True) \<longleftrightarrow> c = Valid sf"
  by (cases c) auto

lemma decoded_Some [simp]: "decoded f = Some sf \<longleftrightarrow> (\<exists>x. f = Some x \<and> f_data x = Valid sf)"
  by (cases f) auto

lemma decoded_None: "decoded f = None \<longleftrightarrow> (\<forall>x sf. f = Some x \<longrightarrow> f_data x \<noteq> Valid sf)"
  by (cases f) auto

lemma invalidateCache_simps [simp]:
  "lb_cachedEntries (invalidateCache b) = None" "lb_index (invalidateCache b) = []"
  by (simp_all add: invalidateCache_def)

lemma coherent_cold: "lb_cachedEntries b = None \<Longrightarrow> stamped fs \<Longrightarrow> coherent (b, fs)"
  by (simp add: coherent_def)

lemma stored_main: "fs_main fs = Some f \<Longrightarrow> f_data f = Valid sf \<Longrightarrow> stored fs = Some (elems (sf_Entries sf))"
  by (simp add: stored_def)

lemma stored_bak:
  assumes "decoded (fs_main fs) = None" "fs_bak fs = Some f" "f_data f = Valid sf"
  shows "stored fs = Some (elems (sf_Entries sf))"
proof -
  have "decoded (fs_bak fs) = Some sf" using assms by simp
  then show ?thesis using assms(1) by (simp add: stored_def del: decoded_Some)
qed

lemma restore_keeps:
  assumes "good_io io (b, fs)" "coherent (b, fs)" "decoded (fs_main fs) = None"
    "fs_bak fs = Some f" "f_data f = Valid sf"
  shows "stored (write_main io (Valid sf) fs) = stored fs \<and> coherent (b, write_main io (Valid sf) fs) \<and>
    (fs_main fs = None \<longrightarrow> intact (write_main io (Valid sf) fs))"
proof (cases "io_write io")
  case Written
  then have "stored (write_main io (Valid sf) fs) = Some (elems (sf_Entries sf))"
    by (simp add: write_main_def stored_def)
  moreover have "coherent (b, write_main io (Valid sf) fs)"
    using assms Written by (auto simp: write_main_def coherent_def good_io_def stamps_def stamped_def)
  ultimately show ?thesis using assms Written stored_bak [OF assms(3-5)]
    by (simp add: intact_def write_main_def)
next
  case NotOpened
  then show ?thesis using assms stored_bak [OF assms(3-5)] by (simp add: write_main_def intact_def)
qed (use assms in \<open>simp add: good_io_def\<close>)

subsection \<open>Load\<close>

lemma loadFromBackup_cases:
  assumes "loadFromBackup io (b, fs) = (r, b', fs')"
  shows "b' = b \<and> ((\<exists>e. r = Inl e \<and> fs' = fs) \<or> (r = Inr None \<and> fs_bak fs = None \<and> fs' = fs) \<or>
    (\<exists>f sf. fs_bak fs = Some f \<and> f_data f = Valid sf \<and> r = Inr (sf_Entries sf) \<and>
       fs' = write_main io (Valid sf) fs))"
proof (cases "fs_bak fs")
  case (Some f)
  with assms show ?thesis by (cases "f_data f") (auto simp: loadFromBackup_def split: if_splits)
qed (use assms in \<open>simp add: loadFromBackup_def\<close>)

lemma recoverFromBackup_cases:
  assumes "recoverFromBackup io (b, fs) = (r, b', fs')"
  shows "b' = b \<and> ((\<exists>e. r = Inl e \<and> fs' = fs) \<or>
    (\<exists>f sf. fs_bak fs = Some f \<and> f_data f = Valid sf \<and> r = Inr (sf_Entries sf) \<and>
       fs' = write_main io (Valid sf) fs))"
proof (cases "fs_bak fs")
  case (Some f)
  with assms show ?thesis by (cases "f_data f") (auto simp: recoverFromBackup_def split: if_splits)
qed (use assms in \<open>auto simp: recoverFromBackup_def\<close>)

lemma Load_cases:
  assumes "Load io (b, fs) = (r, b', fs')"
  obtains (error) e where "r = Inl e" "fs' = fs" "b' = b \<or> lb_cachedEntries b' = None"
  | (fresh) "r = Inr None" "fs_main fs = None" "fs_bak fs = None" "fs' = fs" "b' = invalidateCache b"
  | (hit) f where "fs_main fs = Some f" "f_mtime f = lb_cacheModTime b" "lb_cachedEntries b \<noteq> None"
      "r = Inr (lb_cachedEntries b)" "b' = b" "fs' = fs"
  | (miss) f sf where "fs_main fs = Some f" "f_data f = Valid sf" "r = Inr (sf_Entries sf)" "fs' = fs"
      "lb_cachedEntries b' = sf_Entries sf" "lb_index b' = index_by ent_FQN [] (elems (sf_Entries sf))"
      "lb_cacheModTime b' = f_mtime f"
  | (restored) f sf where "decoded (fs_main fs) = None" "fs_bak fs = Some f" "f_data f = Valid sf"
      "r = Inr (sf_Entries sf)" "fs' = write_main io (Valid sf) fs"
      "b' = (if fs_main fs = None then invalidateCache b else b)"
proof -
  note load = assms [unfolded Load_def Let_def prod.case]
  show thesis
  proof (cases "io_stat io")
    case False
    with load have "r = Inl (ErrIO ''stat'')" "fs' = fs" "b' = b" by auto
    then show ?thesis by (intro error) simp_all
  next
    case stat: True
    show ?thesis
    proof (cases "fs_main fs")
      case None
      with load stat have "loadFromBackup io (invalidateCache b, fs) = (r, b', fs')" by simp
      from loadFromBackup_cases [OF this] consider (e) e where "r = Inl e" "fs' = fs" "b' = invalidateCache b"
        | (n) "r = Inr None" "fs_bak fs = None" "fs' = fs" "b' = invalidateCache b"
        | (v) f sf where "fs_bak fs = Some f" "f_data f = Valid sf" "r = Inr (sf_Entries sf)"
            "fs' = write_main io (Valid sf) fs" "b' = invalidateCache b"
        by metis
      then show ?thesis
      proof cases
        case e
        show ?thesis by (rule error [OF e(1,2)]) (simp add: e(3))
      next
        case n
        show ?thesis by (rule fresh [OF n(1) None n(2-4)])
      next
        case v
        show ?thesis by (rule restored [OF _ v(1-4)]) (simp_all add: None v(5))
      qed
    next
      case (Some f)
      show ?thesis
      proof (cases "lb_cachedEntries b \<noteq> None \<and> f_mtime f = lb_cacheModTime b")
        case True
        with load stat Some have "r = Inr (lb_cachedEntries b)" "b' = b" "fs' = fs" by auto
        with True show ?thesis by (intro hit [OF Some]) simp_all
      next
        case cold: False
        show ?thesis
        proof (cases "io_read io")
          case False
          with load stat Some cold have "r = Inl (ErrIO ''read'')" "fs' = fs" "b' = b" by auto
          then show ?thesis by (intro error) simp_all
        next
          case read: True
          show ?thesis
          proof (cases "\<exists>sf. f_data f = Valid sf")
            case True
            then obtain sf where sf: "f_data f = Valid sf" by blast
            show ?thesis
              by (rule miss [OF Some sf]) (use load stat Some cold read sf in \<open>auto simp: buildIndex_def\<close>)
          next
            case False
            then have "recoverFromBackup io (b, fs) = (r, b', fs')"
              using load stat Some cold read by (cases "f_data f") auto
            from recoverFromBackup_cases [OF this] consider (e) e where "r = Inl e" "fs' = fs" "b' = b"
              | (v) g sf where "fs_bak fs = Some g" "f_data g = Valid sf" "r = Inr (sf_Entries sf)"
                  "fs' = write_main io (Valid sf) fs" "b' = b"
              by metis
            then show ?thesis
            proof cases
              case e
              show ?thesis by (rule error [OF e(1,2)]) (simp add: e(3))
            next
              case v
              have "decoded (fs_main fs) = None" using False Some by simp
              from restored [OF this v(1-4)] show ?thesis using Some v(5) by simp
            qed
          qed
        qed
      qed
    qed
  qed
qed

lemma Load_stored:
  assumes "coherent (b, fs)" "Load io (b, fs) = (Inr es, b', fs')"
  shows "stored fs = Some (elems es)"
  using assms(2)
proof (cases rule: Load_cases)
  case fresh
  then show ?thesis by (simp add: stored_def)
next
  case (hit f)
  then obtain es' where es': "lb_cachedEntries b = Some es'" by blast
  with assms(1) hit obtain sf where "f_data f = Valid sf" "sf_Entries sf = Some es'"
    by (auto simp: coherent_def)
  with hit es' show ?thesis by (simp add: stored_main)
next
  case (miss f sf)
  then show ?thesis by (simp add: stored_main)
next
  case (restored f sf)
  then show ?thesis by (simp add: stored_bak)
qed simp

lemma Load_coherent:
  assumes "good_io io (b, fs)" "coherent (b, fs)" "Load io (b, fs) = (r, b', fs')"
  shows "coherent (b', fs') \<and> stored fs' = stored fs \<and> (intact fs \<longrightarrow> intact fs')"
  using assms(3)
proof (cases rule: Load_cases)
  case (error e)
  then show ?thesis using assms(2) by (auto simp: coherent_def)
next
  case (miss f sf)
  have st: "stamped fs" using assms(2) by (simp add: coherent_def)
  with miss have "f_data g = Valid sf" if "fs_bak fs = Some g" "f_mtime g = f_mtime f" for g
    using that by (simp add: stamped_def)
  with miss st have "coherent (b', fs')" by (auto simp: coherent_def eq_commute [of "Some _" "fs_bak fs"])
  with miss show ?thesis by simp
next
  case (restored f sf)
  from restore_keeps [OF assms(1,2) restored(1-3)]
  have keep: "stored fs' = stored fs" "coherent (b, fs')" "fs_main fs = None \<longrightarrow> intact fs'"
    using restored(5) by simp_all
  moreover have "coherent (b', fs')" using keep(2) restored(6) by (auto simp: coherent_def)
  moreover have "intact fs \<longrightarrow> fs_main fs = None" using restored(1) by (auto simp: intact_def)
  ultimately show ?thesis by simp
qed (use assms(2) in \<open>auto simp: coherent_def\<close>)

lemma Load_keeps:
  assumes "good_io io (b, fs)" "backend_inv (b, fs)" "Load io (b, fs) = (r, b', fs')"
  shows "backend_inv (b', fs') \<and> stored fs' = stored fs"
  using Load_coherent [OF assms(1) _ assms(3)] assms(2) by (simp add: backend_inv_def)

subsection \<open>Save\<close>

lemma elems_sort [simp]: "elems (map_option (sort_key k) es) = sort_key k (elems es)"
  by (cases es) simp_all

lemma stored_cong: "fs_main fs = fs_main fs' \<Longrightarrow> fs_bak fs = fs_bak fs' \<Longrightarrow> stored fs = stored fs'"
  by (simp only: stored_def)

lemma inv_cong:
  "fs_main fs = fs_main fs' \<Longrightarrow> fs_bak fs = fs_bak fs' \<Longrightarrow> backend_inv (b, fs) = backend_inv (b, fs')"
  by (simp only: backend_inv_def coherent_def stamped_def intact_def stored_def fst_conv snd_conv)

text \<open>The state file moved to the backup, or the backup brought back, stores the same.\<close>

lemma moved_keeps:
  assumes "backend_inv (b, fs)" "fs_main fs \<noteq> None" "fs_main fs' = None" "fs_bak fs' = fs_main fs"
  shows "backend_inv (b, fs') \<and> stored fs' = stored fs"
proof -
  from assms obtain f sf where f: "fs_main fs = Some f" "f_data f = Valid sf"
    by (auto simp: backend_inv_def intact_def)
  have eq: "stored fs' = stored fs"
    using f assms stored_main [OF f] stored_bak [of fs' f sf] by simp
  moreover have "coherent (b, fs')"
    using assms by (auto simp: backend_inv_def coherent_def stamped_def)
  moreover have "intact fs'" using assms eq by (simp add: intact_def backend_inv_def)
  ultimately show ?thesis by (simp add: backend_inv_def)
qed

lemma returned_keeps:
  assumes "backend_inv (b, fs)" "fs_main fs = None" "fs_bak fs \<noteq> None" "fs_main fs' = fs_bak fs" "fs_bak fs' = None"
  shows "backend_inv (b, fs') \<and> stored fs' = stored fs"
proof -
  from assms obtain f sf where f: "fs_bak fs = Some f" "f_data f = Valid sf"
    by (auto simp: backend_inv_def intact_def stored_def split: option.splits if_splits)
  have eq: "stored fs' = stored fs"
    using f assms stored_main [of fs' f sf] stored_bak [of fs f sf] by simp
  moreover have "coherent (b, fs')"
    using assms by (auto simp: backend_inv_def coherent_def stamped_def)
  moreover have "intact fs'" using assms f eq by (auto simp: intact_def backend_inv_def)
  ultimately show ?thesis by (simp add: backend_inv_def)
qed

lemmas file_ops = op_create_def op_write_def op_backup_def op_commit_def op_restore_def op_remove_tmp_def

definition tmp_ok :: "io \<Rightarrow> bool" where
  "tmp_ok io \<longleftrightarrow> io_marshal io \<and> io_create io \<and> io_write_tmp io \<and> io_sync io \<and> io_close io"

lemma Save_early:
  assumes "\<not> tmp_ok io"
  shows "\<exists>e fs'. Save io es (b, fs) = (Inl e, b, fs') \<and> fs_main fs' = fs_main fs \<and> fs_bak fs' = fs_bak fs"
proof -
  consider "\<not> io_marshal io" | "io_marshal io" "\<not> io_create io"
    | "io_marshal io" "io_create io" "\<not> io_write_tmp io"
    | "io_marshal io" "io_create io" "io_write_tmp io" "\<not> io_sync io"
    | "io_marshal io" "io_create io" "io_write_tmp io" "io_sync io" "\<not> io_close io"
    using assms unfolding tmp_ok_def by blast
  then show ?thesis by cases (simp_all add: Save_def Save_calls_def file_ops Let_def)
qed

lemma Save_late:
  assumes "tmp_ok io" "io_stat io"
  shows "Save io es (b, fs) =
    (let fs1 = op_write io (saved_content es) (op_create io fs);
         fs2 = (if fs_main fs = None then fs1 else op_backup fs1)
     in if fs_main fs \<noteq> None \<and> \<not> io_backup io then (Inl (ErrIO ''create backup''), b, op_remove_tmp fs1)
        else if \<not> io_rename io
          then (Inl (ErrIO ''rename temp to state''), b, op_remove_tmp (if io_restore io then op_restore fs2 else fs2))
        else (Inr (), invalidateCache b, op_commit fs2))"
proof -
  from assms show ?thesis by (simp add: Save_def Save_calls_def tmp_ok_def Let_def)
qed

lemma Save_result:
  assumes "Save io es (b, fs) = (r, b', fs')" "io_stat io"
  shows "(r = Inr () \<and> b' = invalidateCache b \<and>
      fs_main fs' = Some \<lparr>f_data = saved_content es, f_mtime = io_now io\<rparr> \<and>
      fs_bak fs' = (if fs_main fs = None then fs_bak fs else fs_main fs)) \<or>
    ((\<exists>e. r = Inl e) \<and> b' = b \<and>
      ((fs_main fs' = fs_main fs \<and> fs_bak fs' = fs_bak fs) \<or>
       (fs_main fs \<noteq> None \<and> fs_main fs' = None \<and> fs_bak fs' = fs_main fs) \<or>
       (fs_main fs \<noteq> None \<and> fs_main fs' = fs_main fs \<and> fs_bak fs' = None) \<or>
       (fs_main fs = None \<and> fs_bak fs \<noteq> None \<and> fs_main fs' = fs_bak fs \<and> fs_bak fs' = None)))"
proof (cases "tmp_ok io")
  case False
  from Save_early [OF this, of es b fs] assms(1) show ?thesis by auto
next
  case True
  let ?fs1 = "op_write io (saved_content es) (op_create io fs)"
  let ?fs2 = "if fs_main fs = None then ?fs1 else op_backup ?fs1"
  note save = assms(1) [unfolded Save_late [OF True assms(2)] Let_def]
  show ?thesis
  proof (cases "fs_main fs \<noteq> None \<and> \<not> io_backup io")
    case True
    from save [unfolded if_P [OF True]]
    have "r = Inl (ErrIO ''create backup'')" "b' = b" "fs' = op_remove_tmp ?fs1" by simp_all
    then show ?thesis by (simp add: file_ops)
  next
    case False
    note save = save [unfolded if_not_P [OF this]]
    show ?thesis
    proof (cases "io_rename io")
      case True
      then have "\<not> \<not> io_rename io" by simp
      from save [unfolded if_not_P [OF this]] have "r = Inr ()" "b' = invalidateCache b" "fs' = op_commit ?fs2" by simp_all
      then show ?thesis by (simp add: file_ops)
    next
      case False
      from save [unfolded if_P [OF False]] have "r = Inl (ErrIO ''rename temp to state'')" "b' = b"
        "fs' = op_remove_tmp (if io_restore io then op_restore ?fs2 else ?fs2)" by simp_all
      then show ?thesis
        by (cases "fs_main fs"; cases "io_restore io"; cases "fs_bak fs") (simp_all add: file_ops)
    qed
  qed
qed

lemma Save_stored:
  assumes "good_io io (b, fs)" "backend_inv (b, fs)" "Save io es (b, fs) = (Inr (), b', fs')"
  shows "backend_inv (b', fs') \<and> stored fs' = Some (sort_key ent_FQN (elems es))"
proof -
  from Save_result [OF assms(3)] assms(1) have new: "b' = invalidateCache b"
    "fs_main fs' = Some \<lparr>f_data = saved_content es, f_mtime = io_now io\<rparr>"
    "fs_bak fs' = (if fs_main fs = None then fs_bak fs else fs_main fs)" by (auto simp: good_io_def)
  have "stored fs' = Some (sort_key ent_FQN (elems es))"
    using stored_main [OF new(2)] by (simp add: saved_content_def)
  moreover have "stamped fs'"
    using assms(1) new by (auto simp: stamped_def good_io_def stamps_def split: if_splits)
  ultimately show ?thesis using new by (simp add: backend_inv_def coherent_def intact_def saved_content_def)
qed

lemma Save_failed_keeps:
  assumes "good_io io (b, fs)" "backend_inv (b, fs)" "Save io es (b, fs) = (Inl e, b', fs')"
  shows "backend_inv (b', fs') \<and> stored fs' = stored fs"
proof -
  from Save_result [OF assms(3)] assms(1) consider
      (same) "b' = b" "fs_main fs' = fs_main fs" "fs_bak fs' = fs_bak fs"
    | (moved) "b' = b" "fs_main fs \<noteq> None" "fs_main fs' = None" "fs_bak fs' = fs_main fs"
    | (undone) "b' = b" "fs_main fs \<noteq> None" "fs_main fs' = fs_main fs" "fs_bak fs' = None"
    | (old) "b' = b" "fs_main fs = None" "fs_bak fs \<noteq> None" "fs_main fs' = fs_bak fs" "fs_bak fs' = None"
    by (auto simp: good_io_def)
  then show ?thesis
  proof cases
    case same
    then show ?thesis using assms(2) stored_cong inv_cong by metis
  next
    case moved
    then show ?thesis using moved_keeps [OF assms(2)] by simp
  next
    case undone
    let ?mid = "fs\<lparr>fs_main := None, fs_bak := fs_main fs\<rparr>"
    have "backend_inv (b, ?mid) \<and> stored ?mid = stored fs"
      using undone moved_keeps [OF assms(2), of ?mid] by simp
    with undone returned_keeps [of b ?mid fs'] show ?thesis by simp
  next
    case old
    then show ?thesis using returned_keeps [OF assms(2)] by simp
  qed
qed

subsection \<open>The contract of a state backend\<close>

text \<open>
  What the callers of \<open>state.Backend\<close> rely on: a load returns the entries stored, a save that
  succeeds replaces them, and an operation that fails leaves them as they were.
\<close>

locale state_backend =
  fixes load :: "'io \<Rightarrow> 's \<Rightarrow> ('e + Entry list option) \<times> 's"
    and save :: "'io \<Rightarrow> Entry list option \<Rightarrow> 's \<Rightarrow> ('e + unit) \<times> 's"
    and good :: "'io \<Rightarrow> 's \<Rightarrow> bool"
    and inv :: "'s \<Rightarrow> bool"
    and view :: "'s \<Rightarrow> Entry list"
  assumes load_view: "inv s \<Longrightarrow> load io s = (Inr es, s') \<Longrightarrow> elems es = view s"
    and load_keeps: "good io s \<Longrightarrow> inv s \<Longrightarrow> load io s = (r, s') \<Longrightarrow> inv s' \<and> view s' = view s"
    and save_view: "good io s \<Longrightarrow> inv s \<Longrightarrow> save io es s = (Inr u, s') \<Longrightarrow>
      inv s' \<and> view s' = sort_key ent_FQN (elems es)"
    and save_error: "good io s \<Longrightarrow> inv s \<Longrightarrow> save io es s = (Inl e, s') \<Longrightarrow> inv s' \<and> view s' = view s"
begin

lemma load_after_save:
  assumes "inv s" "good io s" "save io es s = (Inr u, s1)" "load io' s1 = (Inr es', s2)"
  shows "elems es' = sort_key ent_FQN (elems es)"
  using assms load_view save_view by metis

lemma load_twice:
  assumes "inv s" "good io s" "load io s = (Inr es, s1)" "load io' s1 = (Inr es', s2)"
  shows "elems es' = elems es"
  using assms load_view load_keeps by metis

lemma load_after_failed_save:
  assumes "inv s" "good io s" "save io es s = (Inl e, s1)" "load io' s1 = (Inr es', s2)"
  shows "elems es' = view s"
  using assms load_view save_error by metis

end

interpretation local: state_backend Load Save good_io backend_inv entries_of
proof
  fix io s es s'
  assume "backend_inv s" "Load io s = (Inr es, s')"
  then show "elems es = entries_of s"
    using Load_stored by (cases s; cases s') (fastforce simp: backend_inv_def entries_of_def)
next
  fix io s r s'
  assume "good_io io s" "backend_inv s" "Load io s = (r, s')"
  then show "backend_inv s' \<and> entries_of s' = entries_of s"
    using Load_keeps by (cases s; cases s') (auto simp: entries_of_def)
next
  fix io s es u s'
  assume "good_io io s" "backend_inv s" "Save io es s = (Inr u, s')"
  then show "backend_inv s' \<and> entries_of s' = sort_key ent_FQN (elems es)"
    using Save_stored by (cases s; cases s') (auto simp: entries_of_def)
next
  fix io s es e s'
  assume "good_io io s" "backend_inv s" "Save io es s = (Inl e, s')"
  then show "backend_inv s' \<and> entries_of s' = entries_of s"
    using Save_failed_keeps by (cases s; cases s') (auto simp: entries_of_def)
qed

subsection \<open>Crashes\<close>







lemma recoverFromBackup_complete:
  assumes "io_read_bak io" "decoded (fs_main fs) = None" "fs_main fs \<noteq> None" "stored fs = Some xs"
  shows "\<exists>es s'. recoverFromBackup io (b, fs) = (Inr es, s') \<and> elems es = xs"
proof (cases "fs_bak fs")
  case None
  then show ?thesis using assms(2-4) by (auto simp: stored_def split: if_splits)
next
  case (Some g)
  with assms show ?thesis
    by (cases "f_data g") (auto simp: recoverFromBackup_def stored_def)
qed

text \<open>When the files can be read and the entries are not lost, \<open>Load\<close> returns some.\<close>

lemma Load_complete:
  assumes "io_stat io" "io_read io" "io_read_bak io" "stored fs = Some xs"
  shows "\<exists>es s'. Load io (b, fs) = (Inr es, s')"
proof (cases "fs_main fs")
  case None
  show ?thesis
  proof (cases "fs_bak fs")
    case None
    with \<open>fs_main fs = None\<close> assms show ?thesis by (simp add: Load_def loadFromBackup_def)
  next
    case (Some f)
    with \<open>fs_main fs = None\<close> assms show ?thesis
      by (cases "f_data f") (auto simp: Load_def loadFromBackup_def stored_def)
  qed
next
  case (Some f)
  show ?thesis
  proof (cases "f_data f")
    case (Valid sf)
    with Some assms show ?thesis by (simp add: Load_def)
  next
    case Empty
    with Some assms recoverFromBackup_complete [of io fs xs b] show ?thesis by (auto simp: Load_def)
  next
    case (Invalid sf)
    with Some assms recoverFromBackup_complete [of io fs xs b] show ?thesis by (auto simp: Load_def)
  qed
qed


subsection \<open>Properties\<close>

text \<open>
  C1. Saving is a round trip: after a successful \<open>Save\<close> a \<open>Load\<close> returns exactly the entries
  saved, ordered by name, whatever the cache held before.
\<close>

theorem Load_after_Save:
  assumes "backend_inv s" "good_io io s" "Save io es s = (Inr (), s1)" "Load io' s1 = (Inr es', s2)"
  shows "elems es' = sort_key ent_FQN (elems es)"
  by (rule local.load_after_save [OF assms])



text \<open>
  C21. The cache and the backup are transparent, also when the state file is missing or damaged:
  what \<open>Load\<close> returns, from the cache, the state file or the backup, is what the disk stores, and
  an error means that a file could not be read or that the entries are lost. In every case the
  cache stays coherent and the disk goes on storing the same entries.
\<close>

theorem Load_transparent:
  assumes "coherent s" "good_io io s" "Load io s = (r, s')"
  shows "(case r of Inr es \<Rightarrow> stored (snd s) = Some (elems es)
      | Inl e \<Rightarrow> \<not> io_read io \<or> \<not> io_read_bak io \<or> stored (snd s) = None) \<and>
    coherent s' \<and> stored (snd s') = stored (snd s) \<and> (intact (snd s) \<longrightarrow> intact (snd s'))"
proof -
  obtain b fs b' fs' where [simp]: "s = (b, fs)" "s' = (b', fs')" by fastforce
  have "stored fs = Some (elems es)" if "r = Inr es" for es
    using Load_stored [of b fs io es b' fs'] assms(1,3) that by simp
  moreover have "\<not> io_read io \<or> \<not> io_read_bak io \<or> stored fs = None" if "r = Inl e" for e
    using Load_complete [of io fs _ b] assms(2,3) that by (cases "stored fs") (auto simp: good_io_def)
  ultimately show ?thesis
    using Load_coherent [of io b fs r b' fs'] assms by (simp split: sum.splits)
qed

text \<open>
  C32. Version histories: after a successful \<open>SaveVersion\<close> the history of the agent is the old
  one with the new version at its end, cut to its last ten entries and to no fewer; the
  histories of the other agents, the entries and the budgets of the file are kept.
\<close>

theorem SaveVersion_history:
  assumes "fs_main fs = Some f" "f_data f = Valid sf" "SaveVersion io agent v (b, fs) = (Inr (), b', fs')"
    "io_read io'"
  shows "(let versions = mget0 [] (sf_AgentVersions sf) agent @ [v]
      in GetVersions io' agent (b', fs') = Inr (drop (length versions - 10) versions)) \<and>
    (\<forall>other. other \<noteq> agent \<longrightarrow> GetVersions io' other (b', fs') = GetVersions io' other (b, fs)) \<and>
    stored fs' = stored fs \<and> LoadBudgets io' (b', fs') = LoadBudgets io' (b, fs)"
proof -
  let ?all = "mget0 [] (sf_AgentVersions sf) agent @ [v]"
  let ?vs = "drop (length ?all - 10) ?all"
  let ?sf = "with_version (sf\<lparr>sf_AgentVersions := mput agent ?vs (sf_AgentVersions sf)\<rparr>)"
  have rd: "io_read io" using assms(1,3) by (auto simp: SaveVersion_def read_for_update_def split: if_splits)
  let ?cut = "if length ?all > 10 then ?vs else ?all"
  have "writeStateFile io (with_version (sf\<lparr>sf_AgentVersions := mput agent ?cut (sf_AgentVersions sf)\<rparr>)) (b, fs) =
      (Inr (), b', fs')"
    using assms(1,2,3) rd by (simp add: SaveVersion_def read_for_update_def Let_def)
  moreover have "?cut = ?vs" by simp
  ultimately have wr: "writeStateFile io ?sf (b, fs) = (Inr (), b', fs')" by (simp only:)
  then have fs': "fs' = write_main io (Valid ?sf) fs" "io_write io = Written"
    by (auto simp: writeStateFile_def split: if_splits)
  have sf: "sf_AgentVersions ?sf = mput agent ?vs (sf_AgentVersions sf)" "sf_Entries ?sf = sf_Entries sf"
    "sf_Budgets ?sf = sf_Budgets sf" by (simp_all add: with_version_def)
  have main: "fs_main fs' = Some \<lparr>f_data = Valid ?sf, f_mtime = io_now io\<rparr>" using fs' by (simp add: write_main_def)
  have "GetVersions io' other (b', fs') = GetVersions io' other (b, fs)" if "other \<noteq> agent" for other
    using main sf assms(1,2,4) that by (simp add: GetVersions_def mget0_def)
  moreover have "LoadBudgets io' (b', fs') = LoadBudgets io' (b, fs)" "GetVersions io' agent (b', fs') = Inr ?vs"
    using main sf assms(1,2,4) by (simp_all add: GetVersions_def LoadBudgets_def mget0_def)
  moreover have "stored fs' = stored fs"
    using stored_main [OF main] stored_main [OF assms(1,2)] sf(2) by simp
  ultimately show ?thesis by (simp add: Let_def)
qed

text \<open>
  C36. \<open>Save\<close> rebuilds the file from the entries alone: after every successful \<open>Save\<close> the
  budgets and the version histories the file held are gone.
\<close>

theorem Save_drops_budgets_and_versions:
  assumes "Save io es s = (Inr (), s')" "io_stat io" "io_read io'"
  shows "LoadBudgets io' s' = Inr [] \<and> GetVersions io' agent s' = Inr []"
proof -
  from Save_result [of io es "fst s" "snd s" "Inr ()" "fst s'" "snd s'"] assms(1,2)
  have "fs_main (snd s') = Some \<lparr>f_data = saved_content es, f_mtime = io_now io\<rparr>" by auto
  with assms(3) show ?thesis by (simp add: LoadBudgets_def GetVersions_def saved_content_def)
qed

text \<open>
  C38. When the state file is missing and the backup is used, the index is not built: \<open>Get\<close>
  reports every resource as absent, although \<open>Load\<close> returns it.
\<close>

theorem Get_after_restore_misses:
  assumes "fs_main fs = None" "fs_bak fs = Some f" "f_data f = Valid sf" "e \<in> set (elems (sf_Entries sf))"
    "io_stat io" "io_read_bak io"
  shows "fst (Get io (ent_FQN e) (b, fs)) = Inr None \<and> e \<in> set (elems (projr (fst (Load io (b, fs)))))"
  using assms by (simp add: Get_def Load_def loadFromBackup_def)

text \<open>
  C39. \<open>SaveBudgets\<close> ignores that the state file does not decode: it replaces a damaged file by
  a valid one without entries, and the backup that \<open>Load\<close> would have recovered is not used.
\<close>

theorem SaveBudgets_on_damaged_file_loses_entries:
  assumes "fs_main fs = Some f" "f_data f = Invalid zero_stateFile" "fs_bak fs = Some g" "f_data g = Valid sf"
    "io_read io" "io_marshal io" "io_write io = Written"
  shows "stored fs = Some (elems (sf_Entries sf)) \<and>
    fst (SaveBudgets io budgets (b, fs)) = Inr () \<and> stored (snd (snd (SaveBudgets io budgets (b, fs)))) = Some []"
proof -
  have "stored fs = Some (elems (sf_Entries sf))" using assms stored_bak [of fs g sf] by simp
  moreover have "SaveBudgets io budgets (b, fs) =
      (Inr (), b, fs\<lparr>fs_main := Some \<lparr>f_data = Valid (with_version (zero_stateFile\<lparr>sf_Budgets := budgets\<rparr>)),
        f_mtime = io_now io\<rparr>\<rparr>)"
    using assms by (simp add: SaveBudgets_def read_for_update_def writeStateFile_def write_main_def)
  ultimately show ?thesis by (simp add: stored_def with_version_def zero_stateFile_def)
qed

subsection \<open>Witnesses\<close>

definition ok_io :: "int \<Rightarrow> io" where
  "ok_io t = \<lparr>io_now = t, io_stat = True, io_read = True, io_read_bak = True, io_write = Written,
     io_marshal = True, io_create = True, io_write_tmp = True, io_sync = True, io_close = True,
     io_backup = True, io_rename = True, io_restore = True\<rparr>"

definition old_sf :: stateFile where
  "old_sf = \<lparr>sf_Version = ''1.0'', sf_Entries = Some [mk_entry ''old'' ''h'' ''applied''], sf_Budgets = [],
     sf_AgentVersions = []\<rparr>"

definition sample_files :: files where
  "sample_files = \<lparr>fs_main = Some \<lparr>f_data = Valid old_sf, f_mtime = 5\<rparr>, fs_bak = None, fs_tmp = None\<rparr>"

definition sample_entries :: "Entry list option" where
  "sample_entries = Some [mk_entry ''b'' ''h2'' ''applied'', mk_entry ''a'' ''h1'' ''applied'']"

abbreviation sample_backend :: backend where
  "sample_backend \<equiv> (NewLocalBackend, sample_files)"

lemma sample_inv: "backend_inv sample_backend" "good_io (ok_io 9) sample_backend"
  "good_io ((ok_io 9)\<lparr>io_rename := False\<rparr>) sample_backend" "intact sample_files"
  "stored sample_files = Some [mk_entry ''old'' ''h'' ''applied'']"
  by (simp_all add: backend_inv_def coherent_def stamped_def intact_def stored_def good_io_def stamps_def
    NewLocalBackend_def sample_files_def ok_io_def old_sf_def)

theorem Load_after_Save_witness:
  "\<exists>s1 s2 es'. Save (ok_io 9) sample_entries sample_backend = (Inr (), s1) \<and>
     Load (ok_io 10) s1 = (Inr es', s2) \<and> elems es' = sort_key ent_FQN (elems sample_entries)"
proof -
  obtain s1 where s1: "Save (ok_io 9) sample_entries sample_backend = (Inr (), s1)"
    by (simp add: Save_def Save_calls_def ok_io_def sample_files_def file_ops)
  obtain es' s2 where "Load (ok_io 10) s1 = (Inr es', s2)"
    using s1 by (auto simp: Save_def Save_calls_def ok_io_def sample_files_def file_ops Load_def saved_content_def)
  with s1 Load_after_Save [OF sample_inv(1,2) s1] show ?thesis by blast
qed



definition only_backup :: files where
  "only_backup = \<lparr>fs_main = None, fs_bak = Some \<lparr>f_data = Valid old_sf, f_mtime = 5\<rparr>, fs_tmp = None\<rparr>"

definition damaged :: files where
  "damaged = only_backup\<lparr>fs_main := Some \<lparr>f_data = Invalid zero_stateFile, f_mtime = 7\<rparr>\<rparr>"

theorem Load_transparent_witness:
  "\<exists>es s'. Load (ok_io 9) (NewLocalBackend, damaged) = (Inr es, s') \<and>
     stored damaged = Some (elems es) \<and> coherent s' \<and> stored (snd s') = stored damaged"
proof -
  have hyp: "coherent (NewLocalBackend, damaged)" "good_io (ok_io 9) (NewLocalBackend, damaged)"
    by (simp_all add: coherent_def stamped_def good_io_def stamps_def NewLocalBackend_def damaged_def
      only_backup_def ok_io_def)
  obtain es s' where "Load (ok_io 9) (NewLocalBackend, damaged) = (Inr es, s')"
    by (simp add: Load_def recoverFromBackup_def NewLocalBackend_def damaged_def only_backup_def ok_io_def)
  with Load_transparent [OF hyp this] show ?thesis by auto
qed

definition sample_version :: "int \<Rightarrow> VersionEntry" where
  "sample_version n = \<lparr>ver_Version = n, ver_Timestamp = ''t'', ver_Summary = ''s'', ver_Snapshot = []\<rparr>"

definition full_history :: files where
  "full_history = \<lparr>fs_main = Some \<lparr>f_data = Valid (old_sf\<lparr>sf_AgentVersions :=
     [(''a'', map sample_version [1, 2, 3, 4, 5, 6, 7, 8, 9, 10])]\<rparr>), f_mtime = 5\<rparr>, fs_bak = None, fs_tmp = None\<rparr>"

theorem SaveVersion_history_witness:
  "\<exists>b' fs'. SaveVersion (ok_io 9) ''a'' (sample_version 11) (NewLocalBackend, full_history) = (Inr (), b', fs') \<and>
     GetVersions (ok_io 10) ''a'' (b', fs') = Inr (map sample_version [2, 3, 4, 5, 6, 7, 8, 9, 10, 11])"
proof -
  obtain b' fs' where run: "SaveVersion (ok_io 9) ''a'' (sample_version 11) (NewLocalBackend, full_history) =
      (Inr (), b', fs')"
    by (simp add: SaveVersion_def read_for_update_def writeStateFile_def full_history_def ok_io_def Let_def)
  from SaveVersion_history [OF _ _ run, of _ _ "ok_io 10"] run show ?thesis
    by (simp add: full_history_def ok_io_def mget0_def)
qed

theorem Save_drops_budgets_and_versions_witness:
  "GetVersions (ok_io 10) ''a'' (snd (Save (ok_io 9) sample_entries sample_backend)) = Inr []"
proof -
  obtain s1 where s1: "Save (ok_io 9) sample_entries sample_backend = (Inr (), s1)"
    by (simp add: Save_def Save_calls_def ok_io_def sample_files_def file_ops)
  with Save_drops_budgets_and_versions [OF s1, of "ok_io 10"] show ?thesis by (simp add: ok_io_def)
qed

theorem Get_after_restore_misses_witness:
  "fst (Get (ok_io 9) ''old'' (NewLocalBackend, only_backup)) = Inr None"
  using Get_after_restore_misses [of only_backup _ old_sf "mk_entry ''old'' ''h'' ''applied''" "ok_io 9"]
  by (simp add: only_backup_def old_sf_def mk_entry_def ok_io_def)

theorem SaveBudgets_on_damaged_file_loses_entries_witness:
  "stored damaged = Some [mk_entry ''old'' ''h'' ''applied''] \<and>
   stored (snd (snd (SaveBudgets (ok_io 9) [] (NewLocalBackend, damaged)))) = Some []"
  using SaveBudgets_on_damaged_file_loses_entries [of damaged _ _ old_sf "ok_io 9" "[]" NewLocalBackend]
  by (simp add: damaged_def only_backup_def old_sf_def ok_io_def)

end
