(* ===== verification/Apply.thy ===== *)
theory Apply
  imports State_Backend
begin

text \<open>
  The apply engine of \<open>internal/apply/apply.go\<close> over any state backend and adapter, with the
  local adapter of \<open>internal/adapters/local/local.go\<close>. The backend is a pair of operations on
  an abstract state, the adapter a function from actions to results; the laws the engine
  needs are the locales \<open>state_backend\<close> and \<open>adapter\<close>.
\<close>

subsection \<open>Adapters\<close>

datatype ResultStatus = ResultSuccess | ResultFailed

record AdapterResult =
  ar_FQN :: string
  ar_Action :: ActionType
  ar_Status :: ResultStatus
  ar_Error :: string
  ar_Artifact :: string

text \<open>An adapter answers each action, in order, with a result of the same name and type.\<close>

locale adapter =
  fixes adapter_apply :: "Action list \<Rightarrow> string + AdapterResult list"
  assumes mirrors: "adapter_apply as = Inr rs \<Longrightarrow>
    map (\<lambda>r. (ar_FQN r, ar_Action r)) rs = map (\<lambda>a. (act_FQN a, act_Type a)) as"

definition local_Apply :: "Action list \<Rightarrow> string + AdapterResult list" where
  "local_Apply actions =
     Inr (map (\<lambda>action. \<lparr>ar_FQN = act_FQN action, ar_Action = act_Type action, ar_Status = ResultSuccess,
                          ar_Error = [], ar_Artifact = []\<rparr>) actions)"

definition local_Name :: string where
  "local_Name = ''local-mcp''"

interpretation local_adapter: adapter local_Apply
  by unfold_locales (auto simp: local_Apply_def)

subsection \<open>The registry of adapters\<close>

type_synonym 'f registry = "(string, 'f) gomap"

definition Register :: "string \<Rightarrow> 'f \<Rightarrow> 'f registry \<Rightarrow> 'f registry" where
  "Register name factory registry = mput name factory registry"

definition Get_factory :: "string \<Rightarrow> 'f registry \<Rightarrow> string + 'f" where
  "Get_factory name registry =
     (case mget registry name of
        None \<Rightarrow> Inl (''adapter '' @ name @ '' not registered'')
      | Some factory \<Rightarrow> Inr factory)"

definition List_names :: "(string list \<Rightarrow> string list) \<Rightarrow> 'f registry \<Rightarrow> string list" where
  "List_names rng registry = rng (mkeys registry)"

subsection \<open>Applying a plan\<close>

record ApplyResult =
  apr_Created :: nat
  apr_Updated :: nat
  apr_Deleted :: nat
  apr_Failed :: nat
  apr_Results :: "AdapterResult list"

datatype apply_event =
    ApplyStarted string nat
  | ApplyCompletedNoChanges
  | ApplyResource string ActionType ResultStatus
  | ApplyCompleted nat nat nat nat

datatype 'e apply_error = LockError 'e | AdapterError string | SaveError 'e

definition empty_result :: ApplyResult where
  "empty_result = \<lparr>apr_Created = 0, apr_Updated = 0, apr_Deleted = 0, apr_Failed = 0, apr_Results = []\<rparr>"

definition applied_hash :: "Action list \<Rightarrow> nat \<Rightarrow> string" where
  "applied_hash toApply i =
     (if i < length toApply
      then case act_Resource (toApply ! i) of Some r \<Rightarrow> res_Hash r | None \<Rightarrow> []
      else [])"

definition applied_entry :: "string \<Rightarrow> int \<Rightarrow> string \<Rightarrow> AdapterResult \<Rightarrow> Entry" where
  "applied_entry adapterName t hash r =
     \<lparr>ent_FQN = ar_FQN r, ent_Hash = hash, ent_Status = StatusApplied, ent_LastApplied = t,
      ent_Adapter = adapterName, ent_Error = [], ent_OrphanedAt = 0\<rparr>"

definition failed_entry :: "string \<Rightarrow> int \<Rightarrow> AdapterResult \<Rightarrow> Entry" where
  "failed_entry adapterName t r =
     \<lparr>ent_FQN = ar_FQN r, ent_Hash = [], ent_Status = StatusFailed, ent_LastApplied = t,
      ent_Adapter = adapterName, ent_Error = ar_Error r, ent_OrphanedAt = 0\<rparr>"

text \<open>The loop over the results; \<open>now i\<close> is what \<open>time.Now()\<close> returns in iteration \<open>i\<close>.\<close>

fun process_results ::
  "string \<Rightarrow> (nat \<Rightarrow> int) \<Rightarrow> Action list \<Rightarrow> nat \<Rightarrow> AdapterResult list \<Rightarrow> ApplyResult
    \<Rightarrow> (string, Entry) gomap \<Rightarrow> apply_event list
    \<Rightarrow> ApplyResult \<times> (string, Entry) gomap \<times> apply_event list"
where
  "process_results adapterName now toApply i [] result stateMap ev = (result, stateMap, ev)"
| "process_results adapterName now toApply i (r # rs) result stateMap ev =
     (let ev = ev @ [ApplyResource (ar_FQN r) (ar_Action r) (ar_Status r)] in
      if ar_Status r = ResultSuccess then
        if ar_Action r = ActionDelete then
          process_results adapterName now toApply (Suc i) rs
            (result\<lparr>apr_Deleted := Suc (apr_Deleted result)\<rparr>) (mdel (ar_FQN r) stateMap) ev
        else
          process_results adapterName now toApply (Suc i) rs
            (case ar_Action r of
               ActionCreate \<Rightarrow> result\<lparr>apr_Created := Suc (apr_Created result)\<rparr>
             | ActionUpdate \<Rightarrow> result\<lparr>apr_Updated := Suc (apr_Updated result)\<rparr>
             | _ \<Rightarrow> result)
            (mput (ar_FQN r) (applied_entry adapterName (now i) (applied_hash toApply i) r) stateMap) ev
      else
        process_results adapterName now toApply (Suc i) rs
          (result\<lparr>apr_Failed := Suc (apr_Failed result)\<rparr>)
          (mput (ar_FQN r) (failed_entry adapterName (now i) r) stateMap) ev)"

text \<open>
  \<open>Apply\<close> with its early returns. \<open>lock\<close> is the error of acquiring the lock, if any; \<open>rng\<close> the
  order in which the final loop visits the map of entries; \<open>io\<close> and \<open>io'\<close> the outcomes of
  the two backend calls.
\<close>

definition Apply ::
  "('io \<Rightarrow> 's \<Rightarrow> ('e + Entry list option) \<times> 's) \<Rightarrow> ('io \<Rightarrow> Entry list option \<Rightarrow> 's \<Rightarrow> ('e + unit) \<times> 's)
    \<Rightarrow> string \<Rightarrow> (Action list \<Rightarrow> string + AdapterResult list) \<Rightarrow> 'e option \<Rightarrow> (nat \<Rightarrow> int)
    \<Rightarrow> (string list \<Rightarrow> string list) \<Rightarrow> 'io \<Rightarrow> 'io \<Rightarrow> Action list \<Rightarrow> 's
    \<Rightarrow> (ApplyResult option \<times> 'e apply_error option) \<times> 's \<times> apply_event list"
where
  "Apply load save adapterName adapterApply lock now rng io io' actions s =
     (case lock of
        Some e \<Rightarrow> ((None, Some (LockError e)), s, [])
      | None \<Rightarrow>
          (let ev = [ApplyStarted adapterName (length actions)];
               toApply = filter (\<lambda>a. act_Type a \<noteq> ActionNoop) actions
           in if toApply = [] then ((Some empty_result, None), s, ev @ [ApplyCompletedNoChanges])
              else case adapterApply toApply of
                  Inl e \<Rightarrow> ((None, Some (AdapterError e)), s, ev)
                | Inr results \<Rightarrow>
                    (let (loaded, s) = load io s;
                         existing = (case loaded of Inl _ \<Rightarrow> [] | Inr es \<Rightarrow> elems es);
                         stateMap = index_by ent_FQN [] existing;
                         (result, stateMap, ev) = process_results adapterName now toApply 0 results
                           (empty_result\<lparr>apr_Results := results\<rparr>) stateMap ev;
                         entries = map (\<lambda>k. the (mget stateMap k)) (rng (mkeys stateMap))
                     in case save io' (slice_of entries) s of
                          (Inl e, s) \<Rightarrow> ((Some result, Some (SaveError e)), s, ev)
                        | (Inr _, s) \<Rightarrow>
                            ((Some result, None), s,
                             ev @ [ApplyCompleted (apr_Created result) (apr_Updated result)
                                     (apr_Deleted result) (apr_Failed result)]))))"

subsection \<open>The map of entries after the loop\<close>

definition result_entry ::
  "string \<Rightarrow> (nat \<Rightarrow> int) \<Rightarrow> Action list \<Rightarrow> nat \<Rightarrow> AdapterResult \<Rightarrow> Entry option"
where
  "result_entry n now toApply i r =
     (if ar_Status r = ResultSuccess
      then if ar_Action r = ActionDelete then None
           else Some (applied_entry n (now i) (applied_hash toApply i) r)
      else Some (failed_entry n (now i) r))"

definition keyed :: "(string, Entry) gomap \<Rightarrow> bool" where
  "keyed m \<longleftrightarrow> distinct (mkeys m) \<and> (\<forall>k e. mget m k = Some e \<longrightarrow> ent_FQN e = k)"

definition set_entry :: "string \<Rightarrow> Entry option \<Rightarrow> (string, Entry) gomap \<Rightarrow> (string, Entry) gomap" where
  "set_entry k v m = (case v of None \<Rightarrow> mdel k m | Some e \<Rightarrow> mput k e m)"

lemma set_entry_get [simp]: "mget (set_entry k v m) q = (if q = k then v else mget m q)"
  by (simp add: set_entry_def split: option.splits)

lemma result_entry_FQN: "result_entry n now ta i r = Some e \<Longrightarrow> ent_FQN e = ar_FQN r"
  by (auto simp: result_entry_def applied_entry_def failed_entry_def split: if_splits)

lemma keyed_set_entry: "keyed m \<Longrightarrow> keyed (set_entry (ar_FQN r) (result_entry n now ta i r) m)"
  unfolding keyed_def
proof (intro conjI allI impI)
  assume "distinct (mkeys m) \<and> (\<forall>k e. mget m k = Some e \<longrightarrow> ent_FQN e = k)"
  then show "distinct (mkeys (set_entry (ar_FQN r) (result_entry n now ta i r) m))"
    by (simp add: set_entry_def split: option.splits)
  fix k e
  assume "distinct (mkeys m) \<and> (\<forall>k e. mget m k = Some e \<longrightarrow> ent_FQN e = k)"
    "mget (set_entry (ar_FQN r) (result_entry n now ta i r) m) k = Some e"
  then show "ent_FQN e = k" using result_entry_FQN by (metis set_entry_get)
qed

lemma process_results_Cons:
  "\<exists>res' ev'. process_results n now ta i (r # rs) res m ev =
     process_results n now ta (Suc i) rs res' (set_entry (ar_FQN r) (result_entry n now ta i r) m) ev' \<and>
     apr_Results res' = apr_Results res \<and>
     apr_Failed res' = apr_Failed res + (if ar_Status r = ResultSuccess then 0 else 1) \<and>
     apr_Created res' + apr_Updated res' + apr_Deleted res' \<le>
       apr_Created res + apr_Updated res + apr_Deleted res + (if ar_Status r = ResultSuccess then 1 else 0) \<and>
     (ar_Action r \<noteq> ActionNoop \<longrightarrow> apr_Created res' + apr_Updated res' + apr_Deleted res' =
       apr_Created res + apr_Updated res + apr_Deleted res + (if ar_Status r = ResultSuccess then 1 else 0))"
  by (cases "ar_Action r") (auto simp: result_entry_def set_entry_def Let_def)

lemma process_results_map:
  assumes "process_results n now ta i rs res m ev = (res', m', ev')" "distinct (map ar_FQN rs)" "keyed m"
  shows "keyed m' \<and> (\<forall>j < length rs. mget m' (ar_FQN (rs ! j)) = result_entry n now ta (i + j) (rs ! j)) \<and>
    (\<forall>q. q \<notin> ar_FQN ` set rs \<longrightarrow> mget m' q = mget m q)"
  using assms
proof (induction rs arbitrary: i res m ev)
  case (Cons r rs)
  let ?m = "set_entry (ar_FQN r) (result_entry n now ta i r) m"
  from process_results_Cons [of n now ta i r rs res m ev] Cons.prems(1) obtain res1 ev1 where
    "process_results n now ta (Suc i) rs res1 ?m ev1 = (res', m', ev')" by metis
  from Cons.IH [OF this] Cons.prems(2,3) keyed_set_entry have IH: "keyed m'"
    "\<forall>j < length rs. mget m' (ar_FQN (rs ! j)) = result_entry n now ta (Suc i + j) (rs ! j)"
    "\<forall>q. q \<notin> ar_FQN ` set rs \<longrightarrow> mget m' q = mget ?m q" by auto
  have "mget m' (ar_FQN r) = result_entry n now ta i r"
    using IH(3) Cons.prems(2) by (auto simp: image_iff)
  with IH show ?case by (auto simp: nth_Cons split: nat.splits)
qed simp

lemma process_results_counts:
  assumes "process_results n now ta i rs res m ev = (res', m', ev')" "\<forall>r \<in> set rs. ar_Action r \<noteq> ActionNoop"
  shows "apr_Created res' + apr_Updated res' + apr_Deleted res' + apr_Failed res' =
      apr_Created res + apr_Updated res + apr_Deleted res + apr_Failed res + length rs \<and>
    apr_Failed res' = apr_Failed res + length (filter (\<lambda>r. ar_Status r \<noteq> ResultSuccess) rs) \<and>
    apr_Results res' = apr_Results res"
  using assms
proof (induction rs arbitrary: i res m ev)
  case (Cons r rs)
  from process_results_Cons [of n now ta i r rs res m ev] obtain res1 ev1 where
    step: "process_results n now ta i (r # rs) res m ev =
      process_results n now ta (Suc i) rs res1 (set_entry (ar_FQN r) (result_entry n now ta i r) m) ev1"
    "apr_Results res1 = apr_Results res"
    "apr_Failed res1 = apr_Failed res + (if ar_Status r = ResultSuccess then 0 else 1)"
    "apr_Created res1 + apr_Updated res1 + apr_Deleted res1 =
      apr_Created res + apr_Updated res + apr_Deleted res + (if ar_Status r = ResultSuccess then 1 else 0)"
    using Cons.prems(2) by (auto simp del: process_results.simps)
  with Cons.IH [of "Suc i" res1 "set_entry (ar_FQN r) (result_entry n now ta i r) m" ev1] Cons.prems
  show ?case by (auto simp del: process_results.simps)
qed simp

text \<open>The entries saved are the values of the map, found again under their names.\<close>

lemma entries_of_map:
  assumes "keyed m" "range_order rng"
  defines "es \<equiv> map (\<lambda>k. the (mget m k)) (rng (mkeys m))"
  shows "distinct (map ent_FQN (sort_key ent_FQN es))" "entry_for (sort_key ent_FQN es) q = mget m q"
proof -
  have keys: "set (rng (mkeys m)) = set (mkeys m)" "distinct (rng (mkeys m))"
    using assms by (simp_all add: keyed_def)
  have val: "\<exists>e. mget m k = Some e \<and> ent_FQN e = k" if "k \<in> set (mkeys m)" for k
    using that assms(1) by (metis keyed_def mget_None_iff option.exhaust)
  then have FQNs: "map ent_FQN es = rng (mkeys m)"
    unfolding es_def using keys(1) by (force intro!: map_idI simp: comp_def)
  have "mset (map ent_FQN (sort_key ent_FQN es)) = mset (rng (mkeys m))" by (simp flip: FQNs)
  with keys(2) show dist: "distinct (map ent_FQN (sort_key ent_FQN es))" by (metis mset_eq_imp_distinct_iff)
  have "entry_for (sort_key ent_FQN es) q = Some e \<longleftrightarrow> mget m q = Some e" for e
  proof -
    have "e \<in> set es \<and> ent_FQN e = q \<longleftrightarrow> mget m q = Some e"
    proof
      assume e: "e \<in> set es \<and> ent_FQN e = q"
      then obtain k where "k \<in> set (mkeys m)" "e = the (mget m k)" unfolding es_def using keys(1) by auto
      with val [of k] e show "mget m q = Some e" by auto
    next
      assume e: "mget m q = Some e"
      then have "q \<in> set (mkeys m)" by (metis mget_None_iff option.distinct(1))
      with e show "e \<in> set es \<and> ent_FQN e = q" using val [of q] keys(1) unfolding es_def by force
    qed
    then show ?thesis using index_by_unique [OF dist] by simp
  qed
  then show "entry_for (sort_key ent_FQN es) q = mget m q" by (metis option.exhaust)
qed

subsection \<open>Applying over any backend\<close>

lemma keyed_index: "keyed (index_by ent_FQN [] es)"
  unfolding keyed_def
proof (intro conjI allI impI)
  show "distinct (mkeys (index_by ent_FQN [] es))" by (rule index_by_distinct) simp
  fix k e assume "mget (index_by ent_FQN [] es) k = Some e"
  then show "ent_FQN e = k"
    using find_SomeE [of "\<lambda>x. ent_FQN x = k" "rev es"] by (auto simp: index_by_get split: option.splits)
qed

definition to_apply :: "Action list \<Rightarrow> Action list" where
  "to_apply actions = filter (\<lambda>a. act_Type a \<noteq> ActionNoop) actions"

context state_backend
begin

lemma Apply_saved_gen:
  assumes "inv s" "good io s" "load io s = (loaded, s1)" "good io' s1" "range_order rng"
    "adapterApply (to_apply actions) = Inr results" "distinct (map ar_FQN results)" "to_apply actions \<noteq> []"
    "Apply load save name adapterApply None now rng io io' actions s = ((Some res, None), s', ev)"
    and existing: "existing = (case loaded of Inl _ \<Rightarrow> [] | Inr _ \<Rightarrow> view s)"
  shows "inv s'" "distinct (map ent_FQN (view s'))"
    "j < length results \<Longrightarrow>
       entry_for (view s') (ar_FQN (results ! j)) = result_entry name now (to_apply actions) j (results ! j)"
    "q \<notin> ar_FQN ` set results \<Longrightarrow> entry_for (view s') q = entry_for existing q"
proof -
  let ?m = "index_by ent_FQN [] existing"
  obtain r m' ev' where run: "process_results name now (to_apply actions) 0 results
      (empty_result\<lparr>apr_Results := results\<rparr>) ?m [ApplyStarted name (length actions)] = (r, m', ev')"
    by (metis surj_pair)
  let ?es = "map (\<lambda>k. the (mget m' k)) (rng (mkeys m'))"
  have ex: "(case loaded of Inl _ \<Rightarrow> [] | Inr es \<Rightarrow> elems es) = existing"
    using load_view [OF assms(1)] assms(3) existing by (auto split: sum.splits)
  have save: "\<exists>u. save io' (slice_of ?es) s1 = (Inr u, s')"
    using assms(9,8,6,3) run
    by (simp add: Apply_def to_apply_def [symmetric] Let_def ex split: prod.splits sum.splits)
  note map = process_results_map [OF run assms(7) keyed_index]
  then have keyed: "keyed m'" by blast
  from save save_view [OF assms(4)] load_keeps [OF assms(2,1,3)]
  have s': "inv s'" "view s' = sort_key ent_FQN ?es" by (metis elems_slice_of)+
  note es = entries_of_map [OF keyed assms(5)]
  show "inv s'" by (rule s')
  show "distinct (map ent_FQN (view s'))" using es(1) s'(2) by simp
  show "entry_for (view s') (ar_FQN (results ! j)) = result_entry name now (to_apply actions) j (results ! j)"
    if "j < length results" using es(2) s'(2) map that by simp
  show "entry_for (view s') q = entry_for existing q" if "q \<notin> ar_FQN ` set results"
    using es(2) s'(2) map that by simp
qed

lemmas Apply_saved = Apply_saved_gen [where loaded = "Inr es" for es, OF _ _ _ _ _ _ _ _ _ refl, simplified]

end

subsection \<open>Convergence\<close>

text \<open>What a run in which every action succeeded leaves, from the two halves of \<open>Apply_saved\<close>.\<close>

lemma success_in_sync:
  assumes dist: "distinct (map res_FQN desired)" "distinct (map ent_FQN current)" "distinct (map ent_FQN after)"
    and mirror: "map (\<lambda>r. (ar_FQN r, ar_Action r)) results =
      map (\<lambda>a. (act_FQN a, act_Type a)) (to_apply (plan_Actions (ComputePlan desired current)))"
    and ok: "\<forall>r \<in> set results. ar_Status r = ResultSuccess"
    and new: "\<And>j. j < length results \<Longrightarrow> entry_for after (ar_FQN (results ! j)) =
      result_entry n now (to_apply (plan_Actions (ComputePlan desired current))) j (results ! j)"
    and old: "\<And>q. q \<notin> ar_FQN ` set results \<Longrightarrow> entry_for after q = entry_for current q"
  shows "in_sync desired after"
proof -
  let ?as = "to_apply (plan_Actions (ComputePlan desired current))"
  have len: "length results = length ?as" using arg_cong [OF mirror, of length] by simp
  have nth: "ar_FQN (results ! j) = act_FQN (?as ! j) \<and> ar_Action (results ! j) = act_Type (?as ! j)"
    if "j < length ?as" for j
    using arg_cong [OF mirror, of "\<lambda>xs. xs ! j"] that len by simp
  have names: "ar_FQN ` set results = act_FQN ` set ?as"
    using arg_cong [OF mirror, of "\<lambda>xs. fst ` set xs"] by (simp add: image_image)
  have entry: "(act_Type a = ActionDelete \<longrightarrow> entry_for after (act_FQN a) = None) \<and>
      (\<forall>r. act_Type a \<noteq> ActionDelete \<longrightarrow> act_Resource a = Some r \<longrightarrow>
        (\<exists>e. entry_for after (act_FQN a) = Some e \<and> ent_Hash e = res_Hash r \<and> ent_Status e \<noteq> StatusFailed))"
    if "a \<in> set ?as" for a
  proof -
    from that obtain j where j: "j < length ?as" "?as ! j = a" by (auto simp: in_set_conv_nth)
    then have "results ! j \<in> set results" "ar_FQN (results ! j) = act_FQN a" "ar_Action (results ! j) = act_Type a"
      using len nth [OF j(1)] by simp_all
    moreover from this ok have "ar_Status (results ! j) = ResultSuccess" by blast
    ultimately show ?thesis
      using new [of j] j len
      by (auto simp: result_entry_def applied_entry_def applied_hash_def StatusApplied_def StatusFailed_def)
  qed
  have in_as: "a \<in> set ?as \<longleftrightarrow> a \<in> set (plan_Actions (ComputePlan desired current)) \<and> act_Type a \<noteq> ActionNoop" for a
    by (auto simp: to_apply_def)
  have "\<exists>e. entry_for after (res_FQN r) = Some e \<and> ent_Hash e = res_Hash r \<and> ent_Status e \<noteq> StatusFailed"
    if r: "r \<in> set desired" for r
  proof -
    let ?a = "fst (plan_desired (index_by ent_FQN [] current) r)"
    have mem: "?a \<in> set (plan_Actions (ComputePlan desired current))"
      using r by (auto simp: set_plan_Actions unsorted_actions_def)
    have nodel: "act_Type ?a \<noteq> ActionDelete" by (auto simp: plan_desired_def split: option.splits)
    show ?thesis
    proof (cases "act_Type ?a = ActionNoop")
      case False
      with mem nodel entry [of ?a] show ?thesis by (simp add: in_as)
    next
      case True
      then obtain e where e: "entry_for current (res_FQN r) = Some e" "ent_Hash e = res_Hash r"
        "ent_Status e \<noteq> StatusFailed" by (auto simp: plan_desired_def split: option.splits if_splits)
      have "res_FQN r \<notin> act_FQN ` set ?as"
      proof
        assume "res_FQN r \<in> act_FQN ` set ?as"
        then obtain b where b: "b \<in> set (plan_Actions (ComputePlan desired current))" "act_Type b \<noteq> ActionNoop"
          "act_FQN b = act_FQN ?a" by (auto simp: in_as)
        with mem distinct_plan_Actions [OF dist(1,2)] have "b = ?a" by (metis distinct_map inj_onD)
        with b(2) True show False by simp
      qed
      with old [of "res_FQN r"] names e show ?thesis by simp
    qed
  qed
  moreover have "ent_FQN e \<in> res_FQN ` set desired" if e: "e \<in> set after" for e
  proof (rule ccontr)
    assume none: "ent_FQN e \<notin> res_FQN ` set desired"
    have after: "entry_for after (ent_FQN e) = Some e" using e index_by_unique [OF dist(3)] by blast
    show False
    proof (cases "ent_FQN e \<in> act_FQN ` set ?as")
      case True
      then obtain a where a: "a \<in> set ?as" "act_FQN a = ent_FQN e" by auto
      then have "a \<in> set (plan_Actions (ComputePlan desired current))" by (simp add: in_as)
      then have "act_Type a = ActionDelete"
      proof (cases rule: plan_action_cases)
        case (want r)
        with none a(2) show ?thesis by (metis act_FQN_plan(1) imageI)
      qed simp
      with entry [OF a(1)] a(2) after show False by simp
    next
      case False
      with old names after have "entry_for current (ent_FQN e) = Some e" by simp
      then have "e \<in> set current" using index_by_unique [OF dist(2)] by blast
      then have "delete_action e \<in> set ?as"
        using none by (auto simp: in_as set_plan_Actions unsorted_actions_def index_by_None)
      with False show False by force
    qed
  qed
  ultimately show ?thesis by (auto simp: in_sync_def)
qed

subsection \<open>Properties\<close>

lemma mirrored_names:
  assumes "adapter A" "A as = Inr results"
  shows "map ar_FQN results = map act_FQN as" "\<forall>r \<in> set results. ar_Action r \<in> act_Type ` set as"
proof -
  from adapter.mirrors [OF assms] have m: "map (\<lambda>r. (ar_FQN r, ar_Action r)) results = map (\<lambda>a. (act_FQN a, act_Type a)) as" .
  from arg_cong [OF m, of "map fst"] show "map ar_FQN results = map act_FQN as" by (simp add: comp_def)
  from arg_cong [OF m, of "\<lambda>xs. snd ` set xs"] show "\<forall>r \<in> set results. ar_Action r \<in> act_Type ` set as"
    by (auto simp: image_image)
qed

lemma distinct_to_apply: "distinct (map act_FQN as) \<Longrightarrow> distinct (map act_FQN (to_apply as))"
  by (simp add: to_apply_def distinct_map_filter)

text \<open>
  C4. Apply converges. Take the plan of the desired resources against the stored entries and
  apply it with any adapter that answers action by action: if every action succeeds and the
  state is saved, the stored entries agree with the desired resources, so that the next plan
  has no changes.
\<close>

theorem Apply_converges:
  assumes "backend_inv s" "good_io io s" "Load io s = (Inr es, s1)" "good_io io' s1" "range_order rng"
    "adapter A" "A (to_apply actions) = Inr results" "\<forall>r \<in> set results. ar_Status r = ResultSuccess"
    "actions = plan_Actions (ComputePlan desired (entries_of s))"
    "distinct (map res_FQN desired)" "distinct (map ent_FQN (entries_of s))"
    "Apply Load Save name A None now rng io io' actions s = ((Some res, None), s', ev)"
  shows "\<not> plan_HasChanges (ComputePlan desired (entries_of s'))"
proof (cases "to_apply actions = []")
  case True
  then have "s' = s" using assms(12) by (simp add: Apply_def to_apply_def Let_def)
  moreover from True have "\<forall>a \<in> set actions. act_Type a = ActionNoop"
    unfolding to_apply_def filter_empty_conv by blast
  ultimately show ?thesis using assms(9) by (simp add: plan_HasChanges_actions)
next
  case False
  note names = mirrored_names [OF assms(6,7)]
  have dist: "distinct (map ar_FQN results)"
    using distinct_to_apply distinct_plan_Actions [OF assms(10,11)] assms(9) names(1) by metis
  note saved = local.Apply_saved [OF assms(1-5,7) dist False assms(12)]
  have "in_sync desired (entries_of s')"
    using success_in_sync [OF assms(10,11) saved(2) adapter.mirrors [OF assms(6,7), unfolded assms(9)] assms(8)]
      saved(3,4) assms(9) by blast
  then show ?thesis by (simp add: in_sync_iff)
qed

text \<open>
  C22. Success and failure are recorded action by action. A create or update that succeeded is
  stored as applied with the hash of its resource, a delete that succeeded removes the entry,
  an action that failed is stored as failed with an empty hash and the adapter's error, and
  resources without an action keep their entry. So in the next plan a failed action is an
  update if its resource is still desired and a delete if not.
\<close>

theorem Apply_records_failures:
  assumes "backend_inv s" "good_io io s" "Load io s = (Inr es, s1)" "good_io io' s1" "range_order rng"
    "adapter A" "A (to_apply actions) = Inr results" "distinct (map act_FQN actions)" "to_apply actions \<noteq> []"
    "Apply Load Save name A None now rng io io' actions s = ((Some res, None), s', ev)"
  shows "length results = length (to_apply actions) \<and>
    (\<forall>j < length results. let a = to_apply actions ! j; r = results ! j; stored = entry_for (entries_of s') (act_FQN a) in
      (ar_Status r = ResultSuccess \<and> act_Type a = ActionDelete \<longrightarrow> stored = None) \<and>
      (ar_Status r = ResultSuccess \<and> act_Type a \<noteq> ActionDelete \<longrightarrow>
         (\<exists>e. stored = Some e \<and> ent_Status e = StatusApplied \<and> ent_Error e = [] \<and> ent_Adapter e = name \<and>
            ent_Hash e = (case act_Resource a of Some d \<Rightarrow> res_Hash d | None \<Rightarrow> []))) \<and>
      (ar_Status r = ResultFailed \<longrightarrow>
         (\<exists>e. stored = Some e \<and> ent_Status e = StatusFailed \<and> ent_Error e = ar_Error r \<and> ent_Adapter e = name \<and>
            ent_Hash e = []) \<and>
         (\<forall>d. required_action d stored = Some (if d = None then ActionDelete else ActionUpdate)))) \<and>
    (\<forall>q. q \<notin> act_FQN ` set (to_apply actions) \<longrightarrow> entry_for (entries_of s') q = entry_for (entries_of s) q)"
proof -
  note names = mirrored_names [OF assms(6,7)]
  have dist: "distinct (map ar_FQN results)"
    using distinct_to_apply [OF assms(8)] names(1) by metis
  note saved = local.Apply_saved [OF assms(1-5,7) dist assms(9,10)]
  have len: "length results = length (to_apply actions)" using arg_cong [OF names(1), of length] by simp
  have entry: "entry_for (entries_of s') (act_FQN (to_apply actions ! j)) =
      result_entry name now (to_apply actions) j (results ! j) \<and> ar_Action (results ! j) = act_Type (to_apply actions ! j)"
    if "j < length results" for j
    using saved(3) [OF that] arg_cong [OF adapter.mirrors [OF assms(6,7)], of "\<lambda>xs. xs ! j"] that len by simp
  have other: "\<forall>q. q \<notin> act_FQN ` set (to_apply actions) \<longrightarrow> entry_for (entries_of s') q = entry_for (entries_of s) q"
    using saved(4) arg_cong [OF names(1), of set] by simp
  have failed: "required_action d (Some (failed_entry name t r)) = Some (if d = None then ActionDelete else ActionUpdate)"
    for d t r by (cases d) (simp_all add: failed_entry_def)
  have flds: "ent_Status (failed_entry n t r) = StatusFailed" "ent_Error (failed_entry n t r) = ar_Error r"
    "ent_Adapter (failed_entry n t r) = n" "ent_Hash (failed_entry n t r) = []" for n t r
    by (simp_all add: failed_entry_def)
  show ?thesis
  proof (intro conjI other len allI impI)
    fix j assume j: "j < length results"
    note e = entry [OF j, THEN conjunct1] and ty = entry [OF j, THEN conjunct2]
    show "let a = to_apply actions ! j; r = results ! j; stored = entry_for (entries_of s') (act_FQN a) in
      (ar_Status r = ResultSuccess \<and> act_Type a = ActionDelete \<longrightarrow> stored = None) \<and>
      (ar_Status r = ResultSuccess \<and> act_Type a \<noteq> ActionDelete \<longrightarrow>
         (\<exists>e. stored = Some e \<and> ent_Status e = StatusApplied \<and> ent_Error e = [] \<and> ent_Adapter e = name \<and>
            ent_Hash e = (case act_Resource a of Some d \<Rightarrow> res_Hash d | None \<Rightarrow> []))) \<and>
      (ar_Status r = ResultFailed \<longrightarrow>
         (\<exists>e. stored = Some e \<and> ent_Status e = StatusFailed \<and> ent_Error e = ar_Error r \<and> ent_Adapter e = name \<and>
            ent_Hash e = []) \<and>
         (\<forall>d. required_action d stored = Some (if d = None then ActionDelete else ActionUpdate)))"
      unfolding Let_def e using j len ty
      by (cases "ar_Status (results ! j)"; cases "act_Type (to_apply actions ! j) = ActionDelete")
        (simp_all add: result_entry_def applied_entry_def applied_hash_def flds failed)
  qed
qed

text \<open>
  The summary accounts for every action applied: created, updated, deleted and failed add
  up to the number of actions that are not noops, and failed counts the failed results.
\<close>

lemma Apply_counts:
  assumes "adapter A" "A (to_apply actions) = Inr results" "to_apply actions \<noteq> []"
    "Apply load save name A None now rng io io' actions s = ((Some res, err), s', ev)"
  shows "apr_Created res + apr_Updated res + apr_Deleted res + apr_Failed res = length (to_apply actions) \<and>
    apr_Failed res = length (filter (\<lambda>r. ar_Status r \<noteq> ResultSuccess) results) \<and> apr_Results res = results"
proof -
  note names = mirrored_names [OF assms(1,2)]
  have noop: "\<forall>r \<in> set results. ar_Action r \<noteq> ActionNoop" using names(2) by (auto simp: to_apply_def)
  obtain m m' ev' where "process_results name now (to_apply actions) 0 results
      (empty_result\<lparr>apr_Results := results\<rparr>) m [ApplyStarted name (length actions)] = (res, m', ev')"
    using assms(2-4) by (auto simp: Apply_def to_apply_def [symmetric] Let_def split: prod.splits sum.splits)
  from process_results_counts [OF this noop] arg_cong [OF names(1), of length] show ?thesis
    by (simp add: empty_result_def)
qed

text \<open>
  C40. The error of the load is ignored: when reading the state fails, a successful apply stores
  the results of this run alone, and every other resource is forgotten.
\<close>

theorem Apply_forgets_after_load_error:
  assumes "backend_inv s" "good_io io s" "Load io s = (Inl e, s1)" "good_io io' s1" "range_order rng"
    "adapter A" "A (to_apply actions) = Inr results" "distinct (map act_FQN actions)" "to_apply actions \<noteq> []"
    "Apply Load Save name A None now rng io io' actions s = ((Some res, None), s', ev)"
  shows "ent_FQN ` set (entries_of s') \<subseteq> act_FQN ` set (to_apply actions)"
proof
  fix q assume "q \<in> ent_FQN ` set (entries_of s')"
  then have some: "entry_for (entries_of s') q \<noteq> None" by (simp add: index_by_None)
  note names = mirrored_names [OF assms(6,7)]
  have "distinct (map ar_FQN results)" using distinct_to_apply [OF assms(8)] names(1) by metis
  from local.Apply_saved_gen(4) [OF assms(1-5,7) this assms(9,10) refl, of q] some
  show "q \<in> act_FQN ` set (to_apply actions)" using arg_cong [OF names(1), of set] by auto
qed

subsection \<open>Witnesses\<close>

text \<open>One stored resource to delete, one to keep, one to create, on the local backend.\<close>

definition run_sf :: stateFile where
  "run_sf = \<lparr>sf_Version = ''1.0'', sf_Entries = Some [mk_entry ''old'' ''h'' ''applied'',
     mk_entry ''pkg/Agent/a'' ''h1'' ''applied''], sf_Budgets = [], sf_AgentVersions = []\<rparr>"

definition run_backend :: backend where
  "run_backend = (NewLocalBackend, \<lparr>fs_main = Some \<lparr>f_data = Valid run_sf, f_mtime = 5\<rparr>, fs_bak = None, fs_tmp = None\<rparr>)"

definition run_actions :: "Action list" where
  "run_actions = plan_Actions (ComputePlan sample_desired (entries_of run_backend))"

definition flaky_Apply :: "Action list \<Rightarrow> string + AdapterResult list" where
  "flaky_Apply actions = Inr (map (\<lambda>a. \<lparr>ar_FQN = act_FQN a, ar_Action = act_Type a,
     ar_Status = (if act_Type a = ActionDelete then ResultFailed else ResultSuccess),
     ar_Error = ''busy'', ar_Artifact = []\<rparr>) actions)"

lemma flaky_adapter: "adapter flaky_Apply"
  by unfold_locales (auto simp: flaky_Apply_def)

lemma run_inv: "backend_inv run_backend" "good_io (ok_io 9) run_backend"
  "good_io ((ok_io 9)\<lparr>io_read := False\<rparr>) run_backend"
  "entries_of run_backend = [mk_entry ''old'' ''h'' ''applied'', mk_entry ''pkg/Agent/a'' ''h1'' ''applied'']"
  by (simp_all add: backend_inv_def coherent_def stamped_def intact_def stored_def good_io_def stamps_def
    entries_of_def NewLocalBackend_def run_backend_def run_sf_def ok_io_def)

lemma run_load: "\<exists>s1. Load (ok_io 9) run_backend = (Inr (sf_Entries run_sf), s1) \<and> good_io (ok_io 10) s1"
  by (simp add: Load_def run_backend_def ok_io_def NewLocalBackend_def buildIndex_def good_io_def stamps_def)

lemma run_load_error:
  "Load ((ok_io 9)\<lparr>io_read := False\<rparr>) run_backend = (Inl (ErrIO ''read''), run_backend) \<and> good_io (ok_io 10) run_backend"
  by (simp add: Load_def run_backend_def ok_io_def NewLocalBackend_def good_io_def stamps_def)

lemma run_plan: "run_actions =
  [\<lparr>act_FQN = ''old'', act_Type = ActionDelete, act_Resource = None, act_Reason = ''resource no longer defined''\<rparr>,
   \<lparr>act_FQN = ''pkg/Agent/a'', act_Type = ActionNoop, act_Resource = Some (mk_resource ''Agent'' ''a'' [] ''h1''),
    act_Reason = ''no changes''\<rparr>,
   \<lparr>act_FQN = ''pkg/Agent/b'', act_Type = ActionCreate, act_Resource = Some (mk_resource ''Agent'' ''b'' [] ''h2''),
    act_Reason = ''resource does not exist''\<rparr>]"
  unfolding run_actions_def run_inv(4) by code_simp

lemma run_toApply: "distinct (map act_FQN run_actions)" "to_apply run_actions \<noteq> []"
  "distinct (map res_FQN sample_desired)" "distinct (map ent_FQN (entries_of run_backend))"
  by (simp_all add: run_plan to_apply_def run_inv(4) sample_desired_def mk_resource_def mk_entry_def)

text \<open>The final save succeeds, whatever the entries are.\<close>

lemma Save_ok_io: "\<exists>s'. Save (ok_io t) es s = (Inr (), s')"
  by (cases s) (simp add: Save_def Save_calls_def ok_io_def Let_def)

lemma Apply_ok_io:
  assumes "A (to_apply actions) = Inr results" "to_apply actions \<noteq> []"
  shows "\<exists>res s' ev. Apply Load Save name A None now rng io (ok_io t) actions s = ((Some res, None), s', ev)"
proof -
  obtain l s1 where l: "Load io s = (l, s1)" by (metis surj_pair)
  let ?m = "index_by ent_FQN [] (case l of Inl _ \<Rightarrow> [] | Inr es \<Rightarrow> elems es)"
  obtain r m' ev' where p: "process_results name now (to_apply actions) 0 results
      (empty_result\<lparr>apr_Results := results\<rparr>) ?m [ApplyStarted name (length actions)] = (r, m', ev')"
    by (metis surj_pair)
  obtain s' where "Save (ok_io t) (slice_of (map (\<lambda>k. the (mget m' k)) (rng (mkeys m')))) s1 = (Inr (), s')"
    using Save_ok_io by blast
  with l p assms show ?thesis by (simp add: Apply_def to_apply_def [symmetric])
qed

theorem Apply_converges_witness:
  "\<exists>res s' ev. Apply Load Save ''local-mcp'' local_Apply None (\<lambda>_. 9) rev (ok_io 9) (ok_io 10) run_actions run_backend =
     ((Some res, None), s', ev) \<and> \<not> plan_HasChanges (ComputePlan sample_desired (entries_of s'))"
proof -
  obtain s1 where s1: "Load (ok_io 9) run_backend = (Inr (sf_Entries run_sf), s1)" "good_io (ok_io 10) s1"
    using run_load by blast
  obtain results where results: "local_Apply (to_apply run_actions) = Inr results"
    "\<forall>r \<in> set results. ar_Status r = ResultSuccess" by (simp add: local_Apply_def)
  obtain res s' ev where run: "Apply Load Save ''local-mcp'' local_Apply None (\<lambda>_. 9) rev (ok_io 9) (ok_io 10)
      run_actions run_backend = ((Some res, None), s', ev)"
    using Apply_ok_io [of local_Apply run_actions results, OF results(1) run_toApply(2)] by blast
  from run Apply_converges [OF run_inv(1,2) s1 range_order_rev local_adapter.adapter_axioms results
      run_actions_def run_toApply(3,4) run] show ?thesis by blast
qed

theorem Apply_records_failures_witness:
  "\<exists>res s' ev e e'. Apply Load Save ''flaky'' flaky_Apply None (\<lambda>_. 9) rev (ok_io 9) (ok_io 10) run_actions run_backend =
     ((Some res, None), s', ev) \<and> entry_for (entries_of s') ''old'' = Some e \<and> ent_Status e = StatusFailed \<and>
     entry_for (entries_of s') ''pkg/Agent/b'' = Some e' \<and> ent_Status e' = StatusApplied \<and> ent_Hash e' = ''h2''"
proof -
  obtain s1 where s1: "Load (ok_io 9) run_backend = (Inr (sf_Entries run_sf), s1)" "good_io (ok_io 10) s1"
    using run_load by blast
  obtain results where results: "flaky_Apply (to_apply run_actions) = Inr results"
    "length results = 2" "ar_Status (results ! 0) = ResultFailed" "ar_Status (results ! Suc 0) = ResultSuccess"
    by (simp add: flaky_Apply_def run_plan to_apply_def)
  have acts: "act_FQN (to_apply run_actions ! 0) = ''old''" "act_FQN (to_apply run_actions ! Suc 0) = ''pkg/Agent/b''"
    "act_Type (to_apply run_actions ! Suc 0) \<noteq> ActionDelete"
    "act_Resource (to_apply run_actions ! Suc 0) = Some (mk_resource ''Agent'' ''b'' [] ''h2'')"
    by (simp_all add: run_plan to_apply_def)
  obtain res s' ev where run: "Apply Load Save ''flaky'' flaky_Apply None (\<lambda>_. 9) rev (ok_io 9) (ok_io 10)
      run_actions run_backend = ((Some res, None), s', ev)"
    using Apply_ok_io [of flaky_Apply run_actions results, OF results(1) run_toApply(2)] by blast
  note all = Apply_records_failures [OF run_inv(1,2) s1 range_order_rev flaky_adapter results(1)
      run_toApply(1,2) run, THEN conjunct2, THEN conjunct1, rule_format, unfolded Let_def results(2)]
  from all [of 0] all [of "Suc 0"] results(3,4) acts run show ?thesis by (simp add: mk_resource_def) blast
qed

theorem Apply_forgets_after_load_error_witness:
  "\<exists>res s' ev. Apply Load Save ''local-mcp'' local_Apply None (\<lambda>_. 9) rev ((ok_io 9)\<lparr>io_read := False\<rparr>) (ok_io 10)
     run_actions run_backend = ((Some res, None), s', ev) \<and> ''pkg/Agent/a'' \<notin> ent_FQN ` set (entries_of s')"
proof -
  obtain results where results: "local_Apply (to_apply run_actions) = Inr results" by (simp add: local_Apply_def)
  obtain res s' ev where run: "Apply Load Save ''local-mcp'' local_Apply None (\<lambda>_. 9) rev
      ((ok_io 9)\<lparr>io_read := False\<rparr>) (ok_io 10) run_actions run_backend = ((Some res, None), s', ev)"
    using Apply_ok_io [of local_Apply run_actions results, OF results run_toApply(2)] by blast
  from Apply_forgets_after_load_error [OF run_inv(1,3) conjunct1 [OF run_load_error] conjunct2 [OF run_load_error]
      range_order_rev local_adapter.adapter_axioms results run_toApply(1,2) run] run show ?thesis
    by (force simp: run_plan to_apply_def)
qed

end
