(* ===== verification/Go_Strings.thy ===== *)
theory Go_Strings
  imports Prelude
begin

text \<open>
  The functions of Go's \<open>strings\<close> and \<open>strconv\<close> packages the components use, on byte strings:
  prefixes and suffixes, searching and splitting, printing an integer, and \<open>Atoi\<close> with its
  64-bit range and its convention of returning a value even together with an error.
\<close>

subsection \<open>Strings\<close>

definition HasPrefix :: "string \<Rightarrow> string \<Rightarrow> bool" where
  "HasPrefix s p = (take (length p) s = p)"

definition HasSuffix :: "string \<Rightarrow> string \<Rightarrow> bool" where
  "HasSuffix s p = (length p \<le> length s \<and> drop (length s - length p) s = p)"

definition TrimPrefix :: "string \<Rightarrow> string \<Rightarrow> string" where
  "TrimPrefix s p = (if HasPrefix s p then drop (length p) s else s)"

text \<open>Cut at the first occurrence of a byte: what precedes it, and what follows if it occurs.\<close>

fun cut_at :: "char \<Rightarrow> string \<Rightarrow> string \<times> string option" where
  "cut_at c [] = ([], None)"
| "cut_at c (x # xs) =
     (if x = c then ([], Some xs) else let (a, b) = cut_at c xs in (x # a, b))"

text \<open>\<open>strings.SplitN(s, sep, n)\<close> for a separator of one byte and \<open>n > 0\<close>.\<close>

fun SplitN :: "char \<Rightarrow> nat \<Rightarrow> string \<Rightarrow> string list" where
  "SplitN c 0 s = []"
| "SplitN c (Suc 0) s = [s]"
| "SplitN c (Suc (Suc n)) s =
     (case cut_at c s of
        (a, None) \<Rightarrow> [a]
      | (a, Some rest) \<Rightarrow> a # SplitN c (Suc n) rest)"

fun contains :: "string \<Rightarrow> string \<Rightarrow> bool" where
  "contains [] p = (p = [])"
| "contains (c # s) p = (HasPrefix (c # s) p \<or> contains s p)"

text \<open>\<open>strings.Index\<close>, whose result -1 is \<open>None\<close> here, and \<open>strings.LastIndex\<close> for one byte.\<close>

fun Index :: "string \<Rightarrow> string \<Rightarrow> nat option" where
  "Index [] sub = (if sub = [] then Some 0 else None)"
| "Index (c # cs) sub = (if HasPrefix (c # cs) sub then Some 0 else map_option Suc (Index cs sub))"

fun LastIndex :: "string \<Rightarrow> char \<Rightarrow> nat option" where
  "LastIndex [] b = None"
| "LastIndex (c # cs) b =
     (case LastIndex cs b of Some i \<Rightarrow> Some (Suc i) | None \<Rightarrow> if c = b then Some 0 else None)"

fun Join :: "string list \<Rightarrow> string \<Rightarrow> string" where
  "Join [] sep = []"
| "Join [x] sep = x"
| "Join (x # y # ys) sep = x @ sep @ Join (y # ys) sep"

text \<open>
  \<open>strings.TrimSpace\<close> cuts white space of Unicode at both ends; on bytes, the encodings of
  the white space runes.
\<close>

definition space_codes :: "string list" where
  "space_codes = map (map char_of)
     ([[9], [10], [11], [12], [13], [32], [0xC2, 0x85], [0xC2, 0xA0], [0xE1, 0x9A, 0x80], [0xE2, 0x80, 0xA8],
       [0xE2, 0x80, 0xA9], [0xE2, 0x80, 0xAF], [0xE2, 0x81, 0x9F], [0xE3, 0x80, 0x80 :: nat]]
      @ map (\<lambda>n. [0xE2, 0x80, 0x80 + n]) [0..<11])"

function trim_left :: "string list \<Rightarrow> string \<Rightarrow> string" where
  "trim_left codes s =
     (case find (\<lambda>c. c \<noteq> [] \<and> HasPrefix s c) codes of
        None \<Rightarrow> s
      | Some c \<Rightarrow> trim_left codes (drop (length c) s))"
  by pat_completeness auto

lemma HasPrefix_length: "HasPrefix s c \<Longrightarrow> length c \<le> length s"
  unfolding HasPrefix_def by (metis length_take min.cobounded1)

termination trim_left
proof (relation "measure (\<lambda>(_, s). length s)")
  fix codes s c
  assume "find (\<lambda>c. c \<noteq> [] \<and> HasPrefix s c) codes = Some c"
  then have "c \<noteq> []" "HasPrefix s c" by (auto simp: find_Some_iff)
  then have "length s - length c < length s" using HasPrefix_length [of s c] by (intro diff_less) auto
  then show "((codes, drop (length c) s), (codes, s)) \<in> measure (\<lambda>(_, s). length s)" by simp
qed simp

declare trim_left.simps [simp del]

definition TrimSpace :: "string \<Rightarrow> string" where
  "TrimSpace s = rev (trim_left (map rev space_codes) (rev (trim_left space_codes s)))"

lemma HasPrefix_iff: "HasPrefix s p \<longleftrightarrow> (\<exists>t. s = p @ t)"
proof
  assume "HasPrefix s p"
  then have "s = p @ drop (length p) s" unfolding HasPrefix_def by (metis append_take_drop_id)
  then show "\<exists>t. s = p @ t" by blast
qed (auto simp: HasPrefix_def)

lemma HasPrefix_append: "HasPrefix (p @ t) p"
  by (simp add: HasPrefix_def)

lemma TrimPrefix_append: "TrimPrefix (p @ t) p = t"
  by (simp add: TrimPrefix_def HasPrefix_def)

lemma LastIndex_None: "LastIndex s b = None \<longleftrightarrow> b \<notin> set s"
  by (induction s) (auto split: option.splits)

lemma LastIndex_append: "b \<notin> set v \<Longrightarrow> LastIndex (a @ b # v) b = Some (length a)"
  by (induction a) (simp_all add: LastIndex_None [THEN iffD2])

subsection \<open>Integers\<close>

definition digit :: "nat \<Rightarrow> char" where
  "digit n = char_of (48 + n)"

fun itoa_nat :: "nat \<Rightarrow> string" where
  "itoa_nat n = (if n < 10 then [digit n] else itoa_nat (n div 10) @ [digit (n mod 10)])"

definition itoa :: "int \<Rightarrow> string" where
  "itoa n = (if n < 0 then ''-'' @ itoa_nat (nat (- n)) else itoa_nat (nat n))"

declare itoa_nat.simps [simp del]

definition is_digit :: "char \<Rightarrow> bool" where
  "is_digit c = (48 \<le> (of_char c :: nat) \<and> (of_char c :: nat) \<le> 57)"

definition digit_value :: "char \<Rightarrow> nat" where
  "digit_value c = of_char c - 48"

fun digits_value :: "nat \<Rightarrow> string \<Rightarrow> nat" where
  "digits_value acc [] = acc"
| "digits_value acc (c # cs) = digits_value (acc * 10 + digit_value c) cs"

definition max_int :: int where "max_int = 9223372036854775807"
definition min_int :: int where "min_int = -9223372036854775808"

definition clamp_int :: "int \<Rightarrow> int" where
  "clamp_int n = max min_int (min max_int n)"

text \<open>
  The value of \<open>n, _ := strconv.Atoi(s)\<close>: an optional sign and decimal digits, clamped to the
  range of \<open>int\<close>; 0 when the string is not of that form.
\<close>

definition Atoi :: "string \<Rightarrow> int" where
  "Atoi s =
     (let neg = HasPrefix s ''-'';
          ds = (if HasPrefix s ''-'' \<or> HasPrefix s ''+'' then tl s else s)
      in if ds = [] \<or> \<not> list_all is_digit ds then 0
         else clamp_int (if neg then - int (digits_value 0 ds) else int (digits_value 0 ds)))"

subsection \<open>Facts\<close>

lemma cut_at_id: "cut_at c s = (a, b) \<Longrightarrow>
  c \<notin> set a \<and> s = a @ (case b of None \<Rightarrow> [] | Some r \<Rightarrow> c # r)"
  by (induction s arbitrary: a b) (auto split: if_splits prod.splits option.splits)

lemma length_SplitN: "length (SplitN c n s) \<le> n"
  by (induction c n s rule: SplitN.induct) (auto split: prod.splits option.splits)

lemma Atoi_nonneg: "\<not> HasPrefix s ''-'' \<Longrightarrow> 0 \<le> Atoi s"
  by (auto simp: Atoi_def clamp_int_def max_int_def min_int_def Let_def)

lemma Atoi_bounds: "min_int \<le> Atoi s \<and> Atoi s \<le> max_int"
  by (auto simp: Atoi_def clamp_int_def max_int_def min_int_def Let_def)

lemma of_char_digit: "n < 10 \<Longrightarrow> (of_char (digit n) :: nat) = 48 + n"
  by (simp add: digit_def of_char_of)

lemma digit_simps [simp]: "n < 10 \<Longrightarrow> is_digit (digit n)" "n < 10 \<Longrightarrow> digit_value (digit n) = n"
  by (simp_all add: is_digit_def digit_value_def of_char_digit)

lemma digits_value_append: "digits_value acc (xs @ ys) = digits_value (digits_value acc xs) ys"
  by (induction acc xs rule: digits_value.induct) simp_all

lemma itoa_nat_digits: "itoa_nat n \<noteq> [] \<and> list_all is_digit (itoa_nat n) \<and> digits_value 0 (itoa_nat n) = n"
proof (induction n rule: itoa_nat.induct)
  case (1 n)
  show ?case
  proof (cases "n < 10")
    case True
    then show ?thesis by (simp add: itoa_nat.simps)
  next
    case False
    with 1 show ?thesis
      by (simp add: itoa_nat.simps [of n] digits_value_append)
  qed
qed

end
