(* ===== verification/Imports_MVS.thy ===== *)
theory Imports_MVS
  imports Go_Strings "HOL-Library.Product_Lexorder"
begin

text \<open>
  Minimal version selection, \<open>internal/imports/mvs.go\<close>: parsing and comparing versions,
  grouping constraints by package, selecting the largest lower bound, and reporting
  incompatible major versions.
\<close>

subsection \<open>Versions\<close>

record VersionConstraint =
  vc_Package :: string
  vc_MinVersion :: string
  vc_RequiredBy :: string

record ResolvedVersion =
  rv_Package :: string
  rv_Version :: string

record VersionConflict =
  vcf_Package :: string
  vcf_ChainA :: string
  vcf_ChainB :: string
  vcf_Reason :: string

type_synonym semver = "int \<times> int \<times> int"

text \<open>The array \<open>[3]int\<close>: parts that are missing stay zero.\<close>

definition nth_part :: "string list \<Rightarrow> nat \<Rightarrow> int" where
  "nth_part parts i = (if i < length parts then Atoi (parts ! i) else 0)"

definition parseSemver :: "string \<Rightarrow> semver" where
  "parseSemver v =
     (let v = TrimPrefix v ''v'';
          v = fst (cut_at (CHR ''-'') v);
          parts = SplitN (CHR ''.'') 3 v
      in (nth_part parts 0, nth_part parts 1, nth_part parts 2))"

fun compare_parts :: "int list \<Rightarrow> int list \<Rightarrow> int" where
  "compare_parts (a # as) (b # bs) =
     (if a < b then -1 else if a > b then 1 else compare_parts as bs)"
| "compare_parts _ _ = 0"

definition compareSemver :: "string \<Rightarrow> string \<Rightarrow> int" where
  "compareSemver a b =
     (let (a0, a1, a2) = parseSemver a; (b0, b1, b2) = parseSemver b
      in compare_parts [a0, a1, a2] [b0, b1, b2])"

subsection \<open>Selection\<close>

fun group_constraints ::
  "VersionConstraint list \<Rightarrow> (string, VersionConstraint list) gomap \<Rightarrow> (string, VersionConstraint list) gomap"
where
  "group_constraints [] byPackage = byPackage"
| "group_constraints (c # cs) byPackage =
     group_constraints cs (mput (vc_Package c) (mget0 [] byPackage (vc_Package c) @ [c]) byPackage)"

fun max_min :: "VersionConstraint list \<Rightarrow> string \<Rightarrow> string" where
  "max_min [] maxMin = maxMin"
| "max_min (c # cs) maxMin =
     max_min cs (if maxMin = [] \<or> compareSemver (vc_MinVersion c) maxMin > 0 then vc_MinVersion c else maxMin)"

datatype mvs_error = NoVersionConstraint string | VersionConflicts string

fun select_versions ::
  "(string, VersionConstraint list) gomap \<Rightarrow> string list \<Rightarrow> ResolvedVersion list
    \<Rightarrow> mvs_error + ResolvedVersion list"
where
  "select_versions byPackage [] resolved = Inr resolved"
| "select_versions byPackage (pkg # pkgs) resolved =
     (let maxMin = max_min (mget0 [] byPackage pkg) []
      in if maxMin = [] then Inl (NoVersionConstraint pkg)
         else select_versions byPackage pkgs (resolved @ [\<lparr>rv_Package = pkg, rv_Version = maxMin\<rparr>]))"

definition MVS ::
  "(string list \<Rightarrow> string list) \<Rightarrow> VersionConstraint list \<Rightarrow> mvs_error + ResolvedVersion list"
where
  "MVS rng constraints =
     (let byPackage = group_constraints constraints []
      in case select_versions byPackage (rng (mkeys byPackage)) [] of
           Inl e \<Rightarrow> Inl e
         | Inr resolved \<Rightarrow> Inr (sort_key rv_Package resolved))"

subsection \<open>Conflicts\<close>

definition chain_text :: "string \<Rightarrow> VersionConstraint \<Rightarrow> string" where
  "chain_text pkg c = vc_RequiredBy c @ '' requires '' @ pkg @ ''@'' @ vc_MinVersion c"

definition conflict_of :: "string \<Rightarrow> VersionConstraint \<Rightarrow> VersionConstraint \<Rightarrow> VersionConflict option" where
  "conflict_of pkg a b =
     (let ma = fst (parseSemver (vc_MinVersion a)); mb = fst (parseSemver (vc_MinVersion b))
      in if ma \<noteq> mb
         then Some \<lparr>vcf_Package = pkg, vcf_ChainA = chain_text pkg a, vcf_ChainB = chain_text pkg b,
                    vcf_Reason = ''major version mismatch: v'' @ itoa ma @ '' vs v'' @ itoa mb\<rparr>
         else None)"

fun pair_conflicts :: "string \<Rightarrow> VersionConstraint list \<Rightarrow> VersionConflict list" where
  "pair_conflicts pkg [] = []"
| "pair_conflicts pkg (c # cs) = List.map_filter (conflict_of pkg c) cs @ pair_conflicts pkg cs"

definition DetectConflicts ::
  "(string list \<Rightarrow> string list) \<Rightarrow> VersionConstraint list \<Rightarrow> VersionConflict list"
where
  "DetectConflicts rng constraints =
     (let byPackage = group_constraints constraints []
      in concat (map (\<lambda>pkg. let cs = mget0 [] byPackage pkg
                           in if length cs < 2 then [] else pair_conflicts pkg cs)
                  (rng (mkeys byPackage))))"

definition newline :: string where "newline = [char_of (10 :: nat)]"

fun format_conflicts :: "nat \<Rightarrow> VersionConflict list \<Rightarrow> string" where
  "format_conflicts i [] = []"
| "format_conflicts i (c # cs) =
     (if i > 0 then newline else []) @
     ''  - '' @ vcf_Package c @ '': '' @ vcf_Reason c @ newline @
     ''    '' @ vcf_ChainA c @ newline @
     ''    '' @ vcf_ChainB c @ newline @
     ''    Suggestion: align both dependencies to the same major version'' @
     format_conflicts (Suc i) cs"

definition FormatConflicts :: "VersionConflict list \<Rightarrow> string" where
  "FormatConflicts conflicts = format_conflicts 0 conflicts"

definition ValidateConstraints ::
  "(string list \<Rightarrow> string list) \<Rightarrow> (string list \<Rightarrow> string list) \<Rightarrow> VersionConstraint list \<Rightarrow> mvs_error option"
where
  "ValidateConstraints rng rng' constraints =
     (case MVS rng constraints of
        Inl e \<Rightarrow> Some e
      | Inr _ \<Rightarrow>
          (let conflicts = DetectConflicts rng' constraints
           in if conflicts \<noteq> []
              then Some (VersionConflicts (''version conflicts detected:'' @ newline @ FormatConflicts conflicts))
              else None))"

subsection \<open>The comparison is the order of the parsed versions\<close>

lemma compareSemver_order:
  "compareSemver a b = (if parseSemver a < parseSemver b then -1
     else if parseSemver b < parseSemver a then 1 else 0)"
  by (cases "parseSemver a"; cases "parseSemver b") (auto simp: compareSemver_def less_prod_def)

lemma cut_at_no_sep: "c \<notin> set (fst (cut_at c s))"
  by (metis cut_at_id prod.collapse)

lemma cut_at_subset: "set (fst (cut_at c s)) \<subseteq> set s" "set (the (snd (cut_at c s))) \<subseteq> set s \<or> snd (cut_at c s) = None"
  by (induction c s rule: cut_at.induct) (auto split: prod.splits)

lemma SplitN_subset: "p \<in> set (SplitN c n s) \<Longrightarrow> set p \<subseteq> set s"
proof (induction c n s rule: SplitN.induct)
  case (3 c n s)
  obtain a b where ab: "cut_at c s = (a, b)" by fastforce
  from cut_at_id [OF ab] have s: "s = a @ (case b of None \<Rightarrow> [] | Some r \<Rightarrow> c # r)" by blast
  show ?case
  proof (cases b)
    case None
    with 3 ab s show ?thesis by simp
  next
    case (Some r)
    with 3 ab s show ?thesis by auto
  qed
qed auto

lemma nth_part_nonneg:
  assumes "CHR ''-'' \<notin> set v"
  shows "0 \<le> nth_part (SplitN (CHR ''.'') 3 v) i"
proof (cases "i < length (SplitN (CHR ''.'') 3 v)")
  case True
  then have "set (SplitN (CHR ''.'') 3 v ! i) \<subseteq> set v" using SplitN_subset nth_mem by blast
  with assms have "\<not> HasPrefix (SplitN (CHR ''.'') 3 v ! i) ''-''"
    by (cases "SplitN (CHR ''.'') 3 v ! i") (auto simp: HasPrefix_def)
  with True show ?thesis by (simp add: nth_part_def Atoi_nonneg)
qed (simp add: nth_part_def)

lemma parseSemver_nonneg: "(0, 0, 0) \<le> parseSemver v"
  using nth_part_nonneg [OF cut_at_no_sep] by (simp add: parseSemver_def Let_def less_eq_prod_def order_le_less)

lemma parseSemver_Nil [simp]: "parseSemver [] = (0, 0, 0)"
  by (simp add: parseSemver_def TrimPrefix_def HasPrefix_def nth_part_def Atoi_def numeral_3_eq_3)

subsection \<open>Grouping and selection\<close>

abbreviation for_package :: "string \<Rightarrow> VersionConstraint list \<Rightarrow> VersionConstraint list" where
  "for_package p cs \<equiv> filter (\<lambda>c. vc_Package c = p) cs"

lemma group_get: "mget0 [] (group_constraints cs m) p = mget0 [] m p @ for_package p cs"
  by (induction cs m rule: group_constraints.induct) auto

lemma group_keys:
  "set (mkeys (group_constraints cs m)) = set (mkeys m) \<union> vc_Package ` set cs"
  "distinct (mkeys m) \<Longrightarrow> distinct (mkeys (group_constraints cs m))"
  by (induction cs m rule: group_constraints.induct) (auto simp del: set_map)

lemma max_min_spec:
  "(max_min cs acc = [] \<longleftrightarrow> acc = [] \<and> (\<forall>c \<in> set cs. vc_MinVersion c = [])) \<and>
   (max_min cs acc = acc \<or> max_min cs acc \<in> vc_MinVersion ` set cs) \<and>
   parseSemver acc \<le> parseSemver (max_min cs acc) \<and>
   (\<forall>c \<in> set cs. parseSemver (vc_MinVersion c) \<le> parseSemver (max_min cs acc))"
proof (induction cs acc rule: max_min.induct)
  case (2 c cs acc)
  let ?acc = "if acc = [] \<or> compareSemver (vc_MinVersion c) acc > 0 then vc_MinVersion c else acc"
  have "parseSemver acc \<le> parseSemver ?acc" "parseSemver (vc_MinVersion c) \<le> parseSemver ?acc"
    using parseSemver_nonneg [of "vc_MinVersion c"] by (auto simp: compareSemver_order not_less)
  moreover have "?acc = [] \<longleftrightarrow> acc = [] \<and> vc_MinVersion c = []"
    using parseSemver_nonneg [of acc] by (auto simp: compareSemver_order not_less [symmetric])
  ultimately show ?case using 2 by (auto intro: order_trans)
qed simp

lemma max_min_Nil: "max_min cs [] = [] \<longleftrightarrow> (\<forall>c \<in> set cs. vc_MinVersion c = [])"
  using max_min_spec [of cs "[]"] by blast

lemma select_versions_eq:
  "select_versions g ps acc = Inr res \<longleftrightarrow>
     (\<forall>p \<in> set ps. max_min (mget0 [] g p) [] \<noteq> []) \<and>
     res = acc @ map (\<lambda>p. \<lparr>rv_Package = p, rv_Version = max_min (mget0 [] g p) []\<rparr>) ps"
  by (induction g ps acc rule: select_versions.induct) (auto simp: Let_def)

lemma MVS_eq:
  "MVS rng cs = Inr res \<longleftrightarrow>
     (\<forall>p \<in> set (rng (mkeys (group_constraints cs []))). max_min (for_package p cs) [] \<noteq> []) \<and>
     res = sort_key rv_Package (map (\<lambda>p. \<lparr>rv_Package = p, rv_Version = max_min (for_package p cs) []\<rparr>)
       (rng (mkeys (group_constraints cs []))))"
proof -
  have "MVS rng cs = Inr res \<longleftrightarrow> (\<exists>r. select_versions (group_constraints cs [])
      (rng (mkeys (group_constraints cs []))) [] = Inr r \<and> res = sort_key rv_Package r)"
    by (auto simp: MVS_def Let_def split: sum.splits)
  then show ?thesis by (simp add: select_versions_eq group_get)
qed

lemma insort_key_map: "insort_key f (g x) (map g xs) = map g (insort_key (\<lambda>x. f (g x)) x xs)"
  by (induction xs) auto

lemma sort_key_map_keys:
  assumes "\<And>x. f (g x) = x"
  shows "sort_key f (map g ps) = map g (sort ps)"
  by (induction ps) (simp_all add: insort_key_map assms)

text \<open>The answer in closed form: the packages in order, each with its largest lower bound.\<close>

lemma MVS_closed:
  assumes "range_order rng"
  shows "MVS rng cs = Inr res \<longleftrightarrow> (\<forall>p \<in> vc_Package ` set cs. \<exists>c \<in> set cs. vc_Package c = p \<and> vc_MinVersion c \<noteq> []) \<and>
    res = map (\<lambda>p. \<lparr>rv_Package = p, rv_Version = max_min (for_package p cs) []\<rparr>)
      (sorted_list_of_set (vc_Package ` set cs))"
proof -
  let ?ks = "rng (mkeys (group_constraints cs []))"
  have ks: "set ?ks = vc_Package ` set cs" "distinct ?ks"
    using assms group_keys(1) [of cs "[]"] group_keys(2) [of "[]" cs] by simp_all
  have "sort ?ks = sorted_list_of_set (vc_Package ` set cs)"
    using ks by (metis sorted_list_of_set_sort_remdups distinct_remdups_id)
  then show ?thesis
    unfolding MVS_eq by (subst sort_key_map_keys) (auto simp: ks max_min_Nil)
qed

lemma pair_conflicts_iff:
  "pair_conflicts pkg cs = [] \<longleftrightarrow>
     (\<forall>a \<in> set cs. \<forall>b \<in> set cs. fst (parseSemver (vc_MinVersion a)) = fst (parseSemver (vc_MinVersion b)))"
proof (induction cs)
  case (Cons c cs)
  have "List.map_filter (conflict_of pkg c) cs = [] \<longleftrightarrow>
      (\<forall>b \<in> set cs. fst (parseSemver (vc_MinVersion c)) = fst (parseSemver (vc_MinVersion b)))"
    by (auto simp: map_filter_def filter_empty_conv conflict_of_def Let_def)
  with Cons show ?case
    by (simp only: pair_conflicts.simps append_is_Nil_conv list.set ball_simps) metis
qed simp

lemma DetectConflicts_iff:
  assumes "range_order rng"
  shows "DetectConflicts rng cs = [] \<longleftrightarrow>
    (\<forall>a \<in> set cs. \<forall>b \<in> set cs. vc_Package a = vc_Package b \<longrightarrow>
       fst (parseSemver (vc_MinVersion a)) = fst (parseSemver (vc_MinVersion b)))"
proof -
  have keys: "set (rng (mkeys (group_constraints cs []))) = vc_Package ` set cs"
    using assms group_keys(1) [of cs "[]"] by simp
  have short: "(if length xs < 2 then [] else pair_conflicts p xs) = pair_conflicts p xs"
    for p and xs :: "VersionConstraint list"
    by (cases xs) (auto simp: map_filter_def)
  have "DetectConflicts rng cs =
      concat (map (\<lambda>p. pair_conflicts p (for_package p cs)) (rng (mkeys (group_constraints cs []))))"
    by (simp add: DetectConflicts_def Let_def group_get short)
  then have "DetectConflicts rng cs = [] \<longleftrightarrow> (\<forall>p \<in> vc_Package ` set cs. pair_conflicts p (for_package p cs) = [])"
    by (simp only: concat_eq_Nil_conv set_map keys ball_simps(9))
  then show ?thesis unfolding pair_conflicts_iff set_filter by blast
qed

subsection \<open>Properties\<close>

text \<open>
  C23. Minimal version selection. The answer lists every package once, in order, with a version
  that some constraint asks for and that is at least every version required; so it is the
  least version that meets all constraints. It does not depend on the order of map iteration.
\<close>

theorem MVS_selects_minimum:
  assumes "range_order rng" "MVS rng cs = Inr res"
  shows "map rv_Package res = sorted_list_of_set (vc_Package ` set cs) \<and>
    (\<forall>rv \<in> set res. (\<exists>c \<in> set cs. vc_Package c = rv_Package rv \<and> vc_MinVersion c = rv_Version rv) \<and>
      (\<forall>c \<in> set cs. vc_Package c = rv_Package rv \<longrightarrow> compareSemver (vc_MinVersion c) (rv_Version rv) \<le> 0)) \<and>
    (\<forall>rng'. range_order rng' \<longrightarrow> MVS rng' cs = Inr res)"
proof (intro conjI ballI allI impI)
  note closed = MVS_closed [OF assms(1), of cs res, THEN iffD1, OF assms(2)]
  show "map rv_Package res = sorted_list_of_set (vc_Package ` set cs)"
    using closed by (simp add: comp_def)
  show "MVS rng' cs = Inr res" if "range_order rng'" for rng'
    using MVS_closed [OF that] closed by blast
  fix rv assume "rv \<in> set res"
  with closed obtain p where p: "p \<in> vc_Package ` set cs" "rv = \<lparr>rv_Package = p, rv_Version = max_min (for_package p cs) []\<rparr>"
    by auto
  with closed have "max_min (for_package p cs) [] \<noteq> []" by (auto simp: max_min_Nil)
  with p max_min_spec [of "for_package p cs" "[]"]
  show "\<exists>c \<in> set cs. vc_Package c = rv_Package rv \<and> vc_MinVersion c = rv_Version rv" by auto
  fix c assume "c \<in> set cs" "vc_Package c = rv_Package rv"
  with p max_min_spec [of "for_package p cs" "[]"]
  show "compareSemver (vc_MinVersion c) (rv_Version rv) \<le> 0"
    by (auto simp: compareSemver_order not_less)
qed

text \<open>
  C35. Validation accepts a set of constraints exactly when every package has a version and no
  two constraints on a package disagree on the major version.
\<close>

theorem ValidateConstraints_iff:
  assumes "range_order rng" "range_order rng'"
  shows "ValidateConstraints rng rng' cs = None \<longleftrightarrow>
    (\<forall>p \<in> vc_Package ` set cs. \<exists>c \<in> set cs. vc_Package c = p \<and> vc_MinVersion c \<noteq> []) \<and>
    (\<forall>a \<in> set cs. \<forall>b \<in> set cs. vc_Package a = vc_Package b \<longrightarrow>
       fst (parseSemver (vc_MinVersion a)) = fst (parseSemver (vc_MinVersion b)))"
proof (cases "MVS rng cs")
  case (Inl e)
  then have "\<not> (\<forall>p \<in> vc_Package ` set cs. \<exists>c \<in> set cs. vc_Package c = p \<and> vc_MinVersion c \<noteq> [])"
    using MVS_closed [OF assms(1), of cs] by fastforce
  moreover have "ValidateConstraints rng rng' cs \<noteq> None" using Inl by (simp add: ValidateConstraints_def)
  ultimately show ?thesis by blast
next
  case (Inr res)
  then have "\<forall>p \<in> vc_Package ` set cs. \<exists>c \<in> set cs. vc_Package c = p \<and> vc_MinVersion c \<noteq> []"
    using MVS_closed [OF assms(1), of cs res] by blast
  moreover have "ValidateConstraints rng rng' cs = None \<longleftrightarrow> DetectConflicts rng' cs = []"
    using Inr by (simp add: ValidateConstraints_def Let_def)
  moreover have "C \<Longrightarrow> V = D \<Longrightarrow> D = M \<Longrightarrow> V = (C \<and> M)" for C V D M by blast
  ultimately show ?thesis using DetectConflicts_iff [OF assms(2)] by metis
qed

subsection \<open>Witnesses\<close>

definition mk_constraint :: "string \<Rightarrow> string \<Rightarrow> VersionConstraint" where
  "mk_constraint p v = \<lparr>vc_Package = p, vc_MinVersion = v, vc_RequiredBy = ''root''\<rparr>"

definition sample_constraints :: "VersionConstraint list" where
  "sample_constraints = [mk_constraint ''lib'' ''1.2.0'', mk_constraint ''util'' ''v0.9'',
     mk_constraint ''lib'' ''1.10.0'', mk_constraint ''lib'' ''1.9.3'']"

lemma MVS_sample: "MVS rev sample_constraints =
  Inr [\<lparr>rv_Package = ''lib'', rv_Version = ''1.10.0''\<rparr>, \<lparr>rv_Package = ''util'', rv_Version = ''v0.9''\<rparr>]"
  by code_simp

theorem MVS_selects_minimum_witness: "compareSemver ''1.9.3'' ''1.10.0'' \<le> 0"
proof -
  have "mk_constraint ''lib'' ''1.9.3'' \<in> set sample_constraints" by (simp add: sample_constraints_def)
  with MVS_selects_minimum [OF range_order_rev MVS_sample] show ?thesis by (force simp: mk_constraint_def)
qed

theorem ValidateConstraints_iff_witness:
  "fst (parseSemver ''1.2.0'') = fst (parseSemver ''1.10.0'')"
proof -
  have "ValidateConstraints rev rev sample_constraints = None" by code_simp
  with ValidateConstraints_iff [OF range_order_rev range_order_rev, of sample_constraints]
  have all: "\<forall>a \<in> set sample_constraints. \<forall>b \<in> set sample_constraints. vc_Package a = vc_Package b \<longrightarrow>
      fst (parseSemver (vc_MinVersion a)) = fst (parseSemver (vc_MinVersion b))" by blast
  have "mk_constraint ''lib'' ''1.2.0'' \<in> set sample_constraints"
    "mk_constraint ''lib'' ''1.10.0'' \<in> set sample_constraints" by (simp_all add: sample_constraints_def)
  from all [rule_format, OF this] show ?thesis by (simp add: mk_constraint_def)
qed

end
