(* ===== verification/Lexer_Tokens.thy ===== *)
theory Lexer_Tokens
  imports Go_Strings
begin

text \<open>
  The tokens of IntentLang (\<open>internal/parser/token.go\<close>). A token type is an integer, as in
  the source, whose constants are numbered by \<open>iota\<close>; the parser compares them by \<open>>=\<close>.
  The tables of names and of keywords are association lists, and looking up a keyword undoes
  printing its type.
\<close>

subsection \<open>Token types\<close>

type_synonym TokenType = nat

abbreviation (input) TokenEOF :: TokenType where "TokenEOF \<equiv> 0"
abbreviation (input) TokenError :: TokenType where "TokenError \<equiv> 1"
abbreviation (input) TokenNewline :: TokenType where "TokenNewline \<equiv> 2"
abbreviation (input) TokenIdent :: TokenType where "TokenIdent \<equiv> 3"
abbreviation (input) TokenString :: TokenType where "TokenString \<equiv> 4"
abbreviation (input) TokenNumber :: TokenType where "TokenNumber \<equiv> 5"
abbreviation (input) TokenBool :: TokenType where "TokenBool \<equiv> 6"
abbreviation (input) TokenLBrace :: TokenType where "TokenLBrace \<equiv> 7"
abbreviation (input) TokenRBrace :: TokenType where "TokenRBrace \<equiv> 8"
abbreviation (input) TokenLBracket :: TokenType where "TokenLBracket \<equiv> 9"
abbreviation (input) TokenRBracket :: TokenType where "TokenRBracket \<equiv> 10"
abbreviation (input) TokenLParen :: TokenType where "TokenLParen \<equiv> 11"
abbreviation (input) TokenRParen :: TokenType where "TokenRParen \<equiv> 12"
abbreviation (input) TokenComma :: TokenType where "TokenComma \<equiv> 13"
abbreviation (input) TokenDot :: TokenType where "TokenDot \<equiv> 14"
abbreviation (input) TokenPackage :: TokenType where "TokenPackage \<equiv> 15"
abbreviation (input) TokenVersion :: TokenType where "TokenVersion \<equiv> 16"
abbreviation (input) TokenLang :: TokenType where "TokenLang \<equiv> 17"
abbreviation (input) TokenPrompt :: TokenType where "TokenPrompt \<equiv> 18"
abbreviation (input) TokenSkill :: TokenType where "TokenSkill \<equiv> 19"
abbreviation (input) TokenAgent :: TokenType where "TokenAgent \<equiv> 20"
abbreviation (input) TokenBinding :: TokenType where "TokenBinding \<equiv> 21"
abbreviation (input) TokenUses :: TokenType where "TokenUses \<equiv> 22"
abbreviation (input) TokenModel :: TokenType where "TokenModel \<equiv> 23"
abbreviation (input) TokenInput :: TokenType where "TokenInput \<equiv> 24"
abbreviation (input) TokenOutput :: TokenType where "TokenOutput \<equiv> 25"
abbreviation (input) TokenExecution :: TokenType where "TokenExecution \<equiv> 26"
abbreviation (input) TokenDescription :: TokenType where "TokenDescription \<equiv> 27"
abbreviation (input) TokenContent :: TokenType where "TokenContent \<equiv> 28"
abbreviation (input) TokenDefault :: TokenType where "TokenDefault \<equiv> 29"
abbreviation (input) TokenAdapter :: TokenType where "TokenAdapter \<equiv> 30"
abbreviation (input) TokenSecret :: TokenType where "TokenSecret \<equiv> 31"
abbreviation (input) TokenEnvironment :: TokenType where "TokenEnvironment \<equiv> 32"
abbreviation (input) TokenPolicy :: TokenType where "TokenPolicy \<equiv> 33"
abbreviation (input) TokenPlugin :: TokenType where "TokenPlugin \<equiv> 34"
abbreviation (input) TokenServer :: TokenType where "TokenServer \<equiv> 35"
abbreviation (input) TokenClient :: TokenType where "TokenClient \<equiv> 36"
abbreviation (input) TokenConnects :: TokenType where "TokenConnects \<equiv> 37"
abbreviation (input) TokenExposes :: TokenType where "TokenExposes \<equiv> 38"
abbreviation (input) TokenEnv :: TokenType where "TokenEnv \<equiv> 39"
abbreviation (input) TokenStore :: TokenType where "TokenStore \<equiv> 40"
abbreviation (input) TokenCommand :: TokenType where "TokenCommand \<equiv> 41"
abbreviation (input) TokenRequire :: TokenType where "TokenRequire \<equiv> 42"
abbreviation (input) TokenDeny :: TokenType where "TokenDeny \<equiv> 43"
abbreviation (input) TokenAllow :: TokenType where "TokenAllow \<equiv> 44"
abbreviation (input) TokenTo :: TokenType where "TokenTo \<equiv> 45"
abbreviation (input) TokenTrue :: TokenType where "TokenTrue \<equiv> 46"
abbreviation (input) TokenFalse :: TokenType where "TokenFalse \<equiv> 47"
abbreviation (input) TokenRequired :: TokenType where "TokenRequired \<equiv> 48"
abbreviation (input) TokenImport :: TokenType where "TokenImport \<equiv> 49"
abbreviation (input) TokenTransport :: TokenType where "TokenTransport \<equiv> 50"
abbreviation (input) TokenURL :: TokenType where "TokenURL \<equiv> 51"
abbreviation (input) TokenAuth :: TokenType where "TokenAuth \<equiv> 52"
abbreviation (input) TokenArgs :: TokenType where "TokenArgs \<equiv> 53"
abbreviation (input) TokenMetadata :: TokenType where "TokenMetadata \<equiv> 54"
abbreviation (input) TokenTool :: TokenType where "TokenTool \<equiv> 55"
abbreviation (input) TokenDeploy :: TokenType where "TokenDeploy \<equiv> 56"
abbreviation (input) TokenTarget :: TokenType where "TokenTarget \<equiv> 57"
abbreviation (input) TokenPipeline :: TokenType where "TokenPipeline \<equiv> 58"
abbreviation (input) TokenStep :: TokenType where "TokenStep \<equiv> 59"
abbreviation (input) TokenDelegate :: TokenType where "TokenDelegate \<equiv> 60"
abbreviation (input) TokenTypeKw :: TokenType where "TokenTypeKw \<equiv> 61"
abbreviation (input) TokenStrategy :: TokenType where "TokenStrategy \<equiv> 62"
abbreviation (input) TokenMaxTurns :: TokenType where "TokenMaxTurns \<equiv> 63"
abbreviation (input) TokenTimeout :: TokenType where "TokenTimeout \<equiv> 64"
abbreviation (input) TokenTokenBudget :: TokenType where "TokenTokenBudget \<equiv> 65"
abbreviation (input) TokenTemperature :: TokenType where "TokenTemperature \<equiv> 66"
abbreviation (input) TokenStream :: TokenType where "TokenStream \<equiv> 67"
abbreviation (input) TokenParallel :: TokenType where "TokenParallel \<equiv> 68"
abbreviation (input) TokenDependsOn :: TokenType where "TokenDependsOn \<equiv> 69"
abbreviation (input) TokenFrom :: TokenType where "TokenFrom \<equiv> 70"
abbreviation (input) TokenWhen :: TokenType where "TokenWhen \<equiv> 71"
abbreviation (input) TokenHealth :: TokenType where "TokenHealth \<equiv> 72"
abbreviation (input) TokenAutoscale :: TokenType where "TokenAutoscale \<equiv> 73"
abbreviation (input) TokenResources :: TokenType where "TokenResources \<equiv> 74"
abbreviation (input) TokenMemory :: TokenType where "TokenMemory \<equiv> 75"
abbreviation (input) TokenOnError :: TokenType where "TokenOnError \<equiv> 76"
abbreviation (input) TokenMaxRetries :: TokenType where "TokenMaxRetries \<equiv> 77"
abbreviation (input) TokenFallback :: TokenType where "TokenFallback \<equiv> 78"
abbreviation (input) TokenVariables :: TokenType where "TokenVariables \<equiv> 79"
abbreviation (input) TokenEnum :: TokenType where "TokenEnum \<equiv> 80"
abbreviation (input) TokenList :: TokenType where "TokenList \<equiv> 81"
abbreviation (input) TokenMCP :: TokenType where "TokenMCP \<equiv> 82"
abbreviation (input) TokenHTTP :: TokenType where "TokenHTTP \<equiv> 83"
abbreviation (input) TokenInline :: TokenType where "TokenInline \<equiv> 84"
abbreviation (input) TokenMethod :: TokenType where "TokenMethod \<equiv> 85"
abbreviation (input) TokenHeaders :: TokenType where "TokenHeaders \<equiv> 86"
abbreviation (input) TokenBodyTemplate :: TokenType where "TokenBodyTemplate \<equiv> 87"
abbreviation (input) TokenBinary :: TokenType where "TokenBinary \<equiv> 88"
abbreviation (input) TokenLanguage :: TokenType where "TokenLanguage \<equiv> 89"
abbreviation (input) TokenCode :: TokenType where "TokenCode \<equiv> 90"
abbreviation (input) TokenPort :: TokenType where "TokenPort \<equiv> 91"
abbreviation (input) TokenNamespace :: TokenType where "TokenNamespace \<equiv> 92"
abbreviation (input) TokenReplicas :: TokenType where "TokenReplicas \<equiv> 93"
abbreviation (input) TokenImage :: TokenType where "TokenImage \<equiv> 94"
abbreviation (input) TokenSecrets :: TokenType where "TokenSecrets \<equiv> 95"
abbreviation (input) TokenAs :: TokenType where "TokenAs \<equiv> 96"
abbreviation (input) TokenIf :: TokenType where "TokenIf \<equiv> 97"
abbreviation (input) TokenElse :: TokenType where "TokenElse \<equiv> 98"
abbreviation (input) TokenFor :: TokenType where "TokenFor \<equiv> 99"
abbreviation (input) TokenEach :: TokenType where "TokenEach \<equiv> 100"
abbreviation (input) TokenIn :: TokenType where "TokenIn \<equiv> 101"
abbreviation (input) TokenConfig :: TokenType where "TokenConfig \<equiv> 102"
abbreviation (input) TokenValidate :: TokenType where "TokenValidate \<equiv> 103"
abbreviation (input) TokenEval :: TokenType where "TokenEval \<equiv> 104"
abbreviation (input) TokenRule :: TokenType where "TokenRule \<equiv> 105"
abbreviation (input) TokenCase :: TokenType where "TokenCase \<equiv> 106"
abbreviation (input) TokenOn :: TokenType where "TokenOn \<equiv> 107"
abbreviation (input) TokenUse :: TokenType where "TokenUse \<equiv> 108"
abbreviation (input) TokenWith :: TokenType where "TokenWith \<equiv> 109"
abbreviation (input) TokenRespond :: TokenType where "TokenRespond \<equiv> 110"
abbreviation (input) TokenScoring :: TokenType where "TokenScoring \<equiv> 111"
abbreviation (input) TokenThreshold :: TokenType where "TokenThreshold \<equiv> 112"
abbreviation (input) TokenTags :: TokenType where "TokenTags \<equiv> 113"
abbreviation (input) TokenQuery :: TokenType where "TokenQuery \<equiv> 114"
abbreviation (input) TokenLoop :: TokenType where "TokenLoop \<equiv> 115"
abbreviation (input) TokenUser :: TokenType where "TokenUser \<equiv> 116"
abbreviation (input) TokenGuardrail :: TokenType where "TokenGuardrail \<equiv> 117"
abbreviation (input) TokenModels :: TokenType where "TokenModels \<equiv> 118"
abbreviation (input) TokenBudgetKw :: TokenType where "TokenBudgetKw \<equiv> 119"
abbreviation (input) TokenAgents :: TokenType where "TokenAgents \<equiv> 120"
abbreviation (input) TokenKeywords :: TokenType where "TokenKeywords \<equiv> 121"
abbreviation (input) TokenPatterns :: TokenType where "TokenPatterns \<equiv> 122"
abbreviation (input) TokenMode :: TokenType where "TokenMode \<equiv> 123"
abbreviation (input) TokenKey :: TokenType where "TokenKey \<equiv> 124"
abbreviation (input) TokenRole :: TokenType where "TokenRole \<equiv> 125"
abbreviation (input) TokenDaily :: TokenType where "TokenDaily \<equiv> 126"
abbreviation (input) TokenMonthly :: TokenType where "TokenMonthly \<equiv> 127"
abbreviation (input) TokenState :: TokenType where "TokenState \<equiv> 128"
abbreviation (input) TokenColon :: TokenType where "TokenColon \<equiv> 129"
abbreviation (input) TokenEqual :: TokenType where "TokenEqual \<equiv> 130"
abbreviation (input) TokenNotEqual :: TokenType where "TokenNotEqual \<equiv> 131"
abbreviation (input) TokenGreater :: TokenType where "TokenGreater \<equiv> 132"
abbreviation (input) TokenGreaterEq :: TokenType where "TokenGreaterEq \<equiv> 133"
abbreviation (input) TokenLess :: TokenType where "TokenLess \<equiv> 134"
abbreviation (input) TokenLessEq :: TokenType where "TokenLessEq \<equiv> 135"

subsection \<open>Names and keywords\<close>

definition tokenNames :: "(TokenType, string) gomap" where
  "tokenNames = [
    (TokenEOF, ''EOF''), (TokenError, ''Error''), (TokenNewline, ''Newline''), (TokenIdent, ''Ident''),
    (TokenString, ''String''), (TokenNumber, ''Number''), (TokenBool, ''Bool''), (TokenLBrace, ''{''),
    (TokenRBrace, ''}''), (TokenLBracket, ''[''), (TokenRBracket, '']''), (TokenLParen, ''(''),
    (TokenRParen, '')''), (TokenComma, '',''), (TokenDot, ''.''), (TokenPackage, ''package''),
    (TokenVersion, ''version''), (TokenLang, ''lang''), (TokenPrompt, ''prompt''), (TokenSkill, ''skill''),
    (TokenAgent, ''agent''), (TokenBinding, ''binding''), (TokenUses, ''uses''), (TokenModel, ''model''),
    (TokenInput, ''input''), (TokenOutput, ''output''), (TokenExecution, ''execution''), (TokenDescription, ''description''),
    (TokenContent, ''content''), (TokenDefault, ''default''), (TokenAdapter, ''adapter''), (TokenSecret, ''secret''),
    (TokenEnvironment, ''environment''), (TokenPolicy, ''policy''), (TokenPlugin, ''plugin''), (TokenServer, ''server''),
    (TokenClient, ''client''), (TokenConnects, ''connects''), (TokenExposes, ''exposes''), (TokenEnv, ''env''),
    (TokenStore, ''store''), (TokenCommand, ''command''), (TokenRequire, ''require''), (TokenDeny, ''deny''),
    (TokenAllow, ''allow''), (TokenTo, ''to''), (TokenTrue, ''true''), (TokenFalse, ''false''),
    (TokenRequired, ''required''), (TokenImport, ''import''), (TokenTransport, ''transport''), (TokenURL, ''url''),
    (TokenAuth, ''auth''), (TokenArgs, ''args''), (TokenMetadata, ''metadata''), (TokenTool, ''tool''),
    (TokenDeploy, ''deploy''), (TokenTarget, ''target''), (TokenPipeline, ''pipeline''), (TokenStep, ''step''),
    (TokenDelegate, ''delegate''), (TokenTypeKw, ''type''), (TokenStrategy, ''strategy''), (TokenMaxTurns, ''max_turns''),
    (TokenTimeout, ''timeout''), (TokenTokenBudget, ''token_budget''), (TokenTemperature, ''temperature''), (TokenStream, ''stream''),
    (TokenParallel, ''parallel''), (TokenDependsOn, ''depends_on''), (TokenFrom, ''from''), (TokenWhen, ''when''),
    (TokenHealth, ''health''), (TokenAutoscale, ''autoscale''), (TokenResources, ''resources''), (TokenMemory, ''memory''),
    (TokenOnError, ''on_error''), (TokenMaxRetries, ''max_retries''), (TokenFallback, ''fallback''), (TokenVariables, ''variables''),
    (TokenEnum, ''enum''), (TokenList, ''list''), (TokenMCP, ''mcp''), (TokenHTTP, ''http''),
    (TokenInline, ''inline''), (TokenMethod, ''method''), (TokenHeaders, ''headers''), (TokenBodyTemplate, ''body_template''),
    (TokenBinary, ''binary''), (TokenLanguage, ''language''), (TokenCode, ''code''), (TokenPort, ''port''),
    (TokenNamespace, ''namespace''), (TokenReplicas, ''replicas''), (TokenImage, ''image''), (TokenSecrets, ''secrets''),
    (TokenAs, ''as''), (TokenIf, ''if''), (TokenElse, ''else''), (TokenFor, ''for''),
    (TokenEach, ''each''), (TokenIn, ''in''), (TokenConfig, ''config''), (TokenValidate, ''validate''),
    (TokenEval, ''eval''), (TokenRule, ''rule''), (TokenCase, ''case''), (TokenOn, ''on''),
    (TokenUse, ''use''), (TokenWith, ''with''), (TokenRespond, ''respond''), (TokenScoring, ''scoring''),
    (TokenThreshold, ''threshold''), (TokenTags, ''tags''), (TokenQuery, ''query''), (TokenLoop, ''loop''),
    (TokenUser, ''user''), (TokenGuardrail, ''guardrail''), (TokenModels, ''models''), (TokenBudgetKw, ''budget''),
    (TokenAgents, ''agents''), (TokenKeywords, ''keywords''), (TokenPatterns, ''patterns''), (TokenMode, ''mode''),
    (TokenKey, ''key''), (TokenRole, ''role''), (TokenDaily, ''daily''), (TokenMonthly, ''monthly''),
    (TokenState, ''state''), (TokenColon, '':''), (TokenEqual, ''==''), (TokenNotEqual, ''!=''),
    (TokenGreater, ''>''), (TokenGreaterEq, ''>=''), (TokenLess, ''<''), (TokenLessEq, ''<='')]"

definition TokenType_String :: "TokenType \<Rightarrow> string" where
  "TokenType_String t =
     (case mget tokenNames t of
        Some name \<Rightarrow> name
      | None \<Rightarrow> ''Token('' @ itoa (int t) @ '')'')"

definition keyword_table :: "(string, TokenType) gomap" where
  "keyword_table = [
    (''package'', TokenPackage), (''version'', TokenVersion), (''lang'', TokenLang), (''prompt'', TokenPrompt),
    (''skill'', TokenSkill), (''agent'', TokenAgent), (''binding'', TokenBinding), (''uses'', TokenUses),
    (''model'', TokenModel), (''input'', TokenInput), (''output'', TokenOutput), (''execution'', TokenExecution),
    (''description'', TokenDescription), (''content'', TokenContent), (''default'', TokenDefault), (''adapter'', TokenAdapter),
    (''secret'', TokenSecret), (''environment'', TokenEnvironment), (''policy'', TokenPolicy), (''plugin'', TokenPlugin),
    (''server'', TokenServer), (''client'', TokenClient), (''connects'', TokenConnects), (''exposes'', TokenExposes),
    (''env'', TokenEnv), (''store'', TokenStore), (''command'', TokenCommand), (''require'', TokenRequire),
    (''deny'', TokenDeny), (''allow'', TokenAllow), (''to'', TokenTo), (''true'', TokenTrue),
    (''false'', TokenFalse), (''required'', TokenRequired), (''import'', TokenImport), (''transport'', TokenTransport),
    (''url'', TokenURL), (''auth'', TokenAuth), (''args'', TokenArgs), (''metadata'', TokenMetadata),
    (''tool'', TokenTool), (''deploy'', TokenDeploy), (''target'', TokenTarget), (''pipeline'', TokenPipeline),
    (''step'', TokenStep), (''delegate'', TokenDelegate), (''type'', TokenTypeKw), (''strategy'', TokenStrategy),
    (''max_turns'', TokenMaxTurns), (''timeout'', TokenTimeout), (''token_budget'', TokenTokenBudget), (''temperature'', TokenTemperature),
    (''stream'', TokenStream), (''parallel'', TokenParallel), (''depends_on'', TokenDependsOn), (''from'', TokenFrom),
    (''when'', TokenWhen), (''health'', TokenHealth), (''autoscale'', TokenAutoscale), (''resources'', TokenResources),
    (''memory'', TokenMemory), (''on_error'', TokenOnError), (''max_retries'', TokenMaxRetries), (''fallback'', TokenFallback),
    (''variables'', TokenVariables), (''enum'', TokenEnum), (''list'', TokenList), (''mcp'', TokenMCP),
    (''http'', TokenHTTP), (''inline'', TokenInline), (''method'', TokenMethod), (''headers'', TokenHeaders),
    (''body_template'', TokenBodyTemplate), (''binary'', TokenBinary), (''language'', TokenLanguage), (''code'', TokenCode),
    (''port'', TokenPort), (''namespace'', TokenNamespace), (''replicas'', TokenReplicas), (''image'', TokenImage),
    (''secrets'', TokenSecrets), (''as'', TokenAs), (''if'', TokenIf), (''else'', TokenElse),
    (''for'', TokenFor), (''each'', TokenEach), (''in'', TokenIn), (''config'', TokenConfig),
    (''validate'', TokenValidate), (''eval'', TokenEval), (''rule'', TokenRule), (''case'', TokenCase),
    (''on'', TokenOn), (''use'', TokenUse), (''with'', TokenWith), (''respond'', TokenRespond),
    (''scoring'', TokenScoring), (''threshold'', TokenThreshold), (''tags'', TokenTags), (''query'', TokenQuery),
    (''loop'', TokenLoop), (''user'', TokenUser), (''guardrail'', TokenGuardrail), (''models'', TokenModels),
    (''budget'', TokenBudgetKw), (''agents'', TokenAgents), (''keywords'', TokenKeywords), (''patterns'', TokenPatterns),
    (''mode'', TokenMode), (''key'', TokenKey), (''role'', TokenRole), (''daily'', TokenDaily),
    (''monthly'', TokenMonthly), (''state'', TokenState)]"

definition LookupKeyword :: "string \<Rightarrow> TokenType" where
  "LookupKeyword ident = (case mget keyword_table ident of Some tok \<Rightarrow> tok | None \<Rightarrow> TokenIdent)"

subsection \<open>Tokens\<close>

record Token =
  tok_Type :: TokenType
  tok_Literal :: string
  tok_File :: string
  tok_Line :: int
  tok_Column :: int

subsection \<open>Printing and looking up\<close>

lemma tokenNames_keys: "map fst tokenNames = [0..<136]"
  by (simp add: tokenNames_def upt_rec)

lemma keyword_table_alt:
  "keyword_table = map prod.swap (filter (\<lambda>(t, _). TokenPackage \<le> t \<and> t \<le> TokenState) tokenNames)"
  by (simp add: keyword_table_def tokenNames_def)

lemma distinct_keywords: "distinct (map fst keyword_table)"
  by (simp add: keyword_table_def)

lemma tokenNames_iff: "mget tokenNames t = Some n \<longleftrightarrow> (t, n) \<in> set tokenNames"
  using tokenNames_keys by (intro map_of_eq_Some_iff) simp

lemma keyword_iff:
  "mget keyword_table k = Some t \<longleftrightarrow> mget tokenNames t = Some k \<and> t \<in> {TokenPackage..TokenState}"
  unfolding tokenNames_iff map_of_eq_Some_iff [OF distinct_keywords]
  by (force simp: keyword_table_alt)

lemma tokenNames_total: "t < 136 \<Longrightarrow> \<exists>n. mget tokenNames t = Some n"
proof -
  assume "t < 136"
  then have "t \<in> fst ` set tokenNames"
    by (simp flip: set_map add: tokenNames_keys)
  then show ?thesis by (metis map_of_eq_None_iff not_None_eq)
qed

lemma keyword_of_name: "t \<in> {TokenPackage..TokenState} \<Longrightarrow> mget keyword_table (TokenType_String t) = Some t"
  using tokenNames_total [of t] by (fastforce simp: TokenType_String_def keyword_iff)

lemma name_of_keyword:
  "mget keyword_table s = Some t \<Longrightarrow> TokenType_String t = s \<and> t \<in> {TokenPackage..TokenState}"
  by (simp add: keyword_iff TokenType_String_def)

text \<open>
  Printing a keyword type and looking up its text are inverse to each other: an identifier
  that is a keyword is the text of its type, and the text of every keyword type, from
  \<open>package\<close> to \<open>state\<close>, is looked up as that type.
\<close>

lemma LookupKeyword_String:
  "(LookupKeyword s = TokenIdent \<or>
      TokenType_String (LookupKeyword s) = s \<and> LookupKeyword s \<in> {TokenPackage..TokenState}) \<and>
   (t \<in> {TokenPackage..TokenState} \<longrightarrow> LookupKeyword (TokenType_String t) = t)"
proof (cases "mget keyword_table s")
  case None
  then show ?thesis using keyword_of_name [of t] by (simp add: LookupKeyword_def)
next
  case (Some t')
  with name_of_keyword [OF Some] keyword_of_name [of t] show ?thesis by (simp add: LookupKeyword_def)
qed

end
