(* ===== verification/Go_UTF8.thy ===== *)
theory Go_UTF8
  imports Go_Strings
begin

text \<open>
  The functions of Go's \<open>unicode/utf8\<close> package the lexer uses: decoding the first rune of a
  byte string, with the replacement character for invalid input, and encoding a rune; and that
  decoding undoes encoding.
\<close>

type_synonym rune = nat

abbreviation (input) RuneError :: rune where "RuneError \<equiv> 0xFFFD"

definition byte :: "char \<Rightarrow> nat" where
  "byte c = of_char c"

definition cont :: "nat \<Rightarrow> bool" where
  "cont b \<longleftrightarrow> 0x80 \<le> b \<and> b \<le> 0xBF"

text \<open>The range of the second byte, which excludes overlong forms, surrogates and large values.\<close>

definition second_ok :: "nat \<Rightarrow> nat \<Rightarrow> bool" where
  "second_ok b0 b1 \<longleftrightarrow>
     (if b0 = 0xE0 then 0xA0 \<le> b1 \<and> b1 \<le> 0xBF
      else if b0 = 0xED then 0x80 \<le> b1 \<and> b1 \<le> 0x9F
      else if b0 = 0xF0 then 0x90 \<le> b1 \<and> b1 \<le> 0xBF
      else if b0 = 0xF4 then 0x80 \<le> b1 \<and> b1 \<le> 0x8F
      else cont b1)"

text \<open>\<open>DecodeRuneInString\<close>: the rune and the number of bytes it takes.\<close>

fun DecodeRune :: "string \<Rightarrow> rune \<times> nat" where
  "DecodeRune [] = (RuneError, 0)"
| "DecodeRune (c0 # cs) =
     (let b0 = byte c0 in
      if b0 < 0x80 then (b0, 1)
      else if 0xC2 \<le> b0 \<and> b0 \<le> 0xDF then
        (case cs of
           c1 # _ \<Rightarrow> if second_ok b0 (byte c1) then (b0 mod 32 * 64 + byte c1 mod 64, 2) else (RuneError, 1)
         | _ \<Rightarrow> (RuneError, 1))
      else if 0xE0 \<le> b0 \<and> b0 \<le> 0xEF then
        (case cs of
           c1 # c2 # _ \<Rightarrow>
             if second_ok b0 (byte c1) \<and> cont (byte c2)
             then ((b0 mod 16 * 64 + byte c1 mod 64) * 64 + byte c2 mod 64, 3) else (RuneError, 1)
         | _ \<Rightarrow> (RuneError, 1))
      else if 0xF0 \<le> b0 \<and> b0 \<le> 0xF4 then
        (case cs of
           c1 # c2 # c3 # _ \<Rightarrow>
             if second_ok b0 (byte c1) \<and> cont (byte c2) \<and> cont (byte c3)
             then (((b0 mod 8 * 64 + byte c1 mod 64) * 64 + byte c2 mod 64) * 64 + byte c3 mod 64, 4)
             else (RuneError, 1)
         | _ \<Rightarrow> (RuneError, 1))
      else (RuneError, 1))"

definition valid_rune :: "rune \<Rightarrow> bool" where
  "valid_rune r \<longleftrightarrow> r < 0xD800 \<or> (0xE000 \<le> r \<and> r \<le> 0x10FFFF)"

text \<open>\<open>WriteRune\<close>: an invalid rune is written as the replacement character.\<close>

definition EncodeRune :: "rune \<Rightarrow> string" where
  "EncodeRune rn =
     (let r = (if valid_rune rn then rn else RuneError) in
      map char_of
        (if r < 0x80 then [r]
         else if r < 0x800 then [0xC0 + r div 64, 0x80 + r mod 64]
         else if r < 0x10000 then [0xE0 + r div 64 div 64, 0x80 + r div 64 mod 64, 0x80 + r mod 64]
         else [0xF0 + r div 64 div 64 div 64, 0x80 + r div 64 div 64 mod 64,
               0x80 + r div 64 mod 64, 0x80 + r mod 64]))"

text \<open>The encoding of an ASCII rune is found before the bounds of the Unicode range are compared.\<close>

definition EncodeRune_wide :: "rune \<Rightarrow> string" where
  "EncodeRune_wide = EncodeRune"

lemma EncodeRune_code [code]: "EncodeRune r = (if r < 0x80 then [char_of r] else EncodeRune_wide r)"
proof (cases "r < 0x80")
  case True
  moreover from this have "valid_rune r" by (simp add: valid_rune_def)
  ultimately show ?thesis unfolding EncodeRune_def by (simp only: Let_def if_True list.map)
qed (simp add: EncodeRune_wide_def)

lemma EncodeRune_wide_code [code]:
  "EncodeRune_wide rn =
     (let r = (if valid_rune rn then rn else RuneError) in
      map char_of
        (if r < 0x80 then [r]
         else if r < 0x800 then [0xC0 + r div 64, 0x80 + r mod 64]
         else if r < 0x10000 then [0xE0 + r div 64 div 64, 0x80 + r div 64 mod 64, 0x80 + r mod 64]
         else [0xF0 + r div 64 div 64 div 64, 0x80 + r div 64 div 64 mod 64,
               0x80 + r div 64 mod 64, 0x80 + r mod 64]))"
  unfolding EncodeRune_wide_def EncodeRune_def by (rule refl)

definition encode_all :: "rune list \<Rightarrow> string" where
  "encode_all rs = concat (map EncodeRune rs)"

subsection \<open>Facts\<close>

lemma byte_char_of [simp]: "n < 256 \<Longrightarrow> byte (char_of n) = n"
  by (simp add: byte_def)

lemma byte_less [simp]: "byte c < 256"
  by (simp add: byte_def)

lemma encode_all_simps [simp]:
  "encode_all [] = []" "encode_all (r # rs) = EncodeRune r @ encode_all rs"
  by (simp_all add: encode_all_def)

lemma DecodeRune_size: "s \<noteq> [] \<Longrightarrow> 1 \<le> snd (DecodeRune s) \<and> snd (DecodeRune s) \<le> length s"
  by (cases s) (auto simp: Let_def split: list.splits)

lemma DecodeRune_ascii: "byte c < 0x80 \<Longrightarrow> DecodeRune (c # cs) = (byte c, 1)"
  by simp

lemma payload:
  "x < 64 \<Longrightarrow> (128 + x) mod 64 = x" "x < 32 \<Longrightarrow> (192 + x) mod 32 = x"
  "x < 16 \<Longrightarrow> (224 + x) mod 16 = x" "x < 8 \<Longrightarrow> (240 + x) mod 8 = x" for x :: nat
  using mod_mult_self3 [of 2 64 x] mod_mult_self3 [of 6 32 x] mod_mult_self3 [of 14 16 x] mod_mult_self3 [of 30 8 x]
  by simp_all

lemma decode2:
  assumes "2 \<le> a" "a < 32" "b < 64"
  shows "DecodeRune (char_of (192 + a) # char_of (128 + b) # rest) = (a * 64 + b, 2)"
  using assms by (simp add: second_ok_def cont_def payload Let_def)

lemma decode3:
  assumes "a < 16" "a = 0 \<longrightarrow> 32 \<le> b" "a = 13 \<longrightarrow> b \<le> 31" "b < 64" "c < 64"
  shows "DecodeRune (char_of (224 + a) # char_of (128 + b) # char_of (128 + c) # rest) =
    ((a * 64 + b) * 64 + c, 3)"
  using assms by (simp add: second_ok_def cont_def payload Let_def)

lemma decode4:
  assumes "a < 5" "a = 0 \<longrightarrow> 16 \<le> b" "a = 4 \<longrightarrow> b \<le> 15" "b < 64" "c < 64" "d < 64"
  shows "DecodeRune (char_of (240 + a) # char_of (128 + b) # char_of (128 + c) # char_of (128 + d) # rest) =
    (((a * 64 + b) * 64 + c) * 64 + d, 4)"
  using assms by (simp add: second_ok_def cont_def payload Let_def)

lemma DecodeRune_EncodeRune:
  assumes "valid_rune r"
  shows "DecodeRune (EncodeRune r @ rest) = (r, length (EncodeRune r))"
proof -
  define a b c where "a = r div 64 div 64" and "b = r div 64 mod 64" and "c = r mod 64"
  have r: "r = (a * 64 + b) * 64 + c" and b: "b < 64" and c: "c < 64"
    unfolding a_def b_def c_def by (simp_all add: mult.commute)
  define a1 a2 where "a1 = a div 64" and "a2 = a mod 64"
  have a: "a = a1 * 64 + a2" and a2: "a2 < 64"
    unfolding a1_def a2_def by (simp_all add: mult.commute)
  have r': "r = a * 4096 + b * 64 + c" and r'': "r = a1 * 262144 + a2 * 4096 + b * 64 + c"
    using r a by simp_all
  consider "r < 0x80" | "0x80 \<le> r" "r < 0x800" | "0x800 \<le> r" "r < 0x10000" | "0x10000 \<le> r" "r \<le> 0x10FFFF"
    using assms by (fastforce simp: valid_rune_def)
  then show ?thesis
  proof cases
    case 1
    with assms show ?thesis by (simp add: EncodeRune_def)
  next
    case 2
    then have "a < 1" using r' b c by linarith
    then have "a = 0" by simp
    with 2 r' c have "2 \<le> b" "b < 32" by linarith+
    with \<open>a = 0\<close> r' b c have "r div 64 = b" "r mod 64 = c" "r = b * 64 + c" by simp_all
    with 2 assms have "EncodeRune r = [char_of (192 + b), char_of (128 + c)]"
      by (simp add: EncodeRune_def)
    with decode2 [OF \<open>2 \<le> b\<close> \<open>b < 32\<close> c, of rest] \<open>r = b * 64 + c\<close> show ?thesis by simp
  next
    case 3
    from 3 assms have "EncodeRune r = [char_of (224 + a), char_of (128 + b), char_of (128 + c)]"
      by (simp add: EncodeRune_def a_def b_def c_def)
    moreover have "a < 16" "a = 0 \<longrightarrow> 32 \<le> b" using 3 r' b c by linarith+
    moreover have "a = 13 \<longrightarrow> b \<le> 31" using assms 3 r' b c unfolding valid_rune_def by linarith
    ultimately show ?thesis using decode3 [of a b c rest] b c r by simp
  next
    case 4
    from 4 assms have "EncodeRune r = [char_of (240 + a1), char_of (128 + a2), char_of (128 + b), char_of (128 + c)]"
      by (simp add: EncodeRune_def a1_def a2_def a_def b_def c_def)
    moreover have "a1 < 5" "a1 = 0 \<longrightarrow> 16 \<le> a2" "a1 = 4 \<longrightarrow> a2 \<le> 15" using 4 r'' b c a2 by linarith+
    ultimately show ?thesis using decode4 [of a1 a2 b c rest] a2 b c r a by simp
  qed
qed

lemma EncodeRune_nonempty [simp]: "EncodeRune r \<noteq> []"
  by (simp add: EncodeRune_def Let_def)

lemma EncodeRune_ascii: "r < 0x80 \<Longrightarrow> EncodeRune r = [char_of r]"
  by (simp add: EncodeRune_def valid_rune_def)

end
