(* ===== verification/Lexer.thy ===== *)
theory Lexer
  imports Lexer_Tokens Go_UTF8 "HOL-Library.Product_Lexorder"
begin

text \<open>
  The lexer of IntentLang (\<open>internal/parser/lexer.go\<close>), one definition per method. The loops
  of the scanner are functions with termination proofs; \<open>unicode.IsLetter\<close> and
  \<open>unicode.IsDigit\<close>, which look a rune up in Unicode's tables, are arguments. The lexer
  always ends; its tokens are in source order and end with the only \<open>EOF\<close>; and text that is
  printed from a list of lexemes is read back as that list.
\<close>

subsection \<open>State\<close>

record Lexer =
  lx_input :: string
  lx_file :: string
  lx_pos :: nat
  lx_line :: int
  lx_col :: int
  lx_tokens :: "Token list"
  lx_start :: nat
  lx_startLn :: int
  lx_startCl :: int

definition NewLexer :: "string \<Rightarrow> string \<Rightarrow> Lexer" where
  "NewLexer input fil =
     \<lparr>lx_input = input, lx_file = fil, lx_pos = 0, lx_line = 1, lx_col = 1, lx_tokens = [],
      lx_start = 0, lx_startLn = 0, lx_startCl = 0\<rparr>"

text \<open>
  Messages as the sources build them with \<open>fmt\<close>. The rendering of \<open>%q\<close> is left symbolic: the
  last two constructors stand for the text followed by the quoted string or rune.
\<close>

datatype message = Text string | Quoted string string | QuotedRune string rune

definition location :: "string \<Rightarrow> int \<Rightarrow> int \<Rightarrow> string" where
  "location fil ln cl = fil @ '':'' @ itoa ln @ '':'' @ itoa cl @ '': ''"

subsection \<open>Moving over the input\<close>

definition peek :: "Lexer \<Rightarrow> rune" where
  "peek l =
     (if lx_pos l \<ge> length (lx_input l) then 0
      else fst (DecodeRune (drop (lx_pos l) (lx_input l))))"

definition peekAt :: "nat \<Rightarrow> Lexer \<Rightarrow> rune" where
  "peekAt offset l =
     (let p = lx_pos l + offset
      in if p \<ge> length (lx_input l) then 0 else fst (DecodeRune (drop p (lx_input l))))"

definition lx_advance :: "Lexer \<Rightarrow> Lexer" where
  "lx_advance l =
     (if lx_pos l \<ge> length (lx_input l) then l
      else let (r, sz) = DecodeRune (drop (lx_pos l) (lx_input l));
               l = l\<lparr>lx_pos := lx_pos l + sz\<rparr>
           in if r = 10 then l\<lparr>lx_line := lx_line l + 1, lx_col := 1\<rparr>
              else l\<lparr>lx_col := lx_col l + 1\<rparr>)"

definition makeToken :: "TokenType \<Rightarrow> string \<Rightarrow> Lexer \<Rightarrow> Token" where
  "makeToken typ literal l =
     \<lparr>tok_Type = typ, tok_Literal = literal, tok_File = lx_file l, tok_Line = lx_startLn l,
      tok_Column = lx_startCl l\<rparr>"

definition isDigit :: "rune \<Rightarrow> bool" where
  "isDigit r \<longleftrightarrow> 48 \<le> r \<and> r \<le> 57"

definition isIdentStart :: "(rune \<Rightarrow> bool) \<Rightarrow> rune \<Rightarrow> bool" where
  "isIdentStart IsLetter r \<longleftrightarrow> IsLetter r \<or> r = 95"

definition isIdentPart :: "(rune \<Rightarrow> bool) \<Rightarrow> (rune \<Rightarrow> bool) \<Rightarrow> rune \<Rightarrow> bool" where
  "isIdentPart IsLetter IsDigit r \<longleftrightarrow> IsLetter r \<or> IsDigit r \<or> r = 95 \<or> r = 45"

text \<open>What each step keeps, and that it moves forward inside the input.\<close>

definition lx_step :: "Lexer \<Rightarrow> Lexer \<Rightarrow> bool" where
  "lx_step l l' \<longleftrightarrow>
     lx_input l' = lx_input l \<and> lx_file l' = lx_file l \<and> lx_tokens l' = lx_tokens l \<and>
     lx_start l' = lx_start l \<and> lx_startLn l' = lx_startLn l \<and> lx_startCl l' = lx_startCl l \<and>
     lx_pos l \<le> lx_pos l' \<and> (lx_pos l \<le> length (lx_input l) \<longrightarrow> lx_pos l' \<le> length (lx_input l)) \<and>
     (lx_line l, lx_col l) \<le> (lx_line l', lx_col l') \<and>
     (lx_pos l < lx_pos l' \<longrightarrow> (lx_line l, lx_col l) < (lx_line l', lx_col l'))"

lemma lx_step_refl [simp, intro]: "lx_step l l"
  by (simp add: lx_step_def)

lemma lx_step_trans [trans]:
  assumes "lx_step l l'" "lx_step l' l''"
  shows "lx_step l l''"
proof -
  let ?at = "\<lambda>l. (lx_line l, lx_col l)"
  have "?at l \<le> ?at l''" using assms unfolding lx_step_def by (meson order_trans)
  moreover have "?at l < ?at l''" if "lx_pos l < lx_pos l''"
  proof (cases "lx_pos l < lx_pos l'")
    case True
    with assms show ?thesis unfolding lx_step_def by (meson order_less_le_trans)
  next
    case False
    with that assms show ?thesis unfolding lx_step_def by (metis order_le_less_trans le_neq_implies_less)
  qed
  ultimately show ?thesis using assms unfolding lx_step_def by simp
qed

lemma lx_advance_step: "lx_step l (lx_advance l)"
proof (cases "lx_pos l \<ge> length (lx_input l)")
  case True
  then show ?thesis by (simp add: lx_advance_def)
next
  case False
  obtain r n where d: "DecodeRune (drop (lx_pos l) (lx_input l)) = (r, n)"
    by fastforce
  with False DecodeRune_size [of "drop (lx_pos l) (lx_input l)"]
  have "n \<le> length (lx_input l) - lx_pos l" by simp
  with False d show ?thesis
    by (simp add: lx_step_def lx_advance_def Let_def)
qed

lemma lx_advance_pos:
  "lx_pos l < length (lx_input l) \<Longrightarrow>
     lx_pos l < lx_pos (lx_advance l) \<and> lx_pos (lx_advance l) \<le> length (lx_input l)"
  using DecodeRune_size [of "drop (lx_pos l) (lx_input l)"]
  by (auto simp: lx_advance_def Let_def split: prod.splits)

lemma lx_advance_keeps [simp]:
  "lx_input (lx_advance l) = lx_input l" "lx_file (lx_advance l) = lx_file l"
  "lx_tokens (lx_advance l) = lx_tokens l" "lx_start (lx_advance l) = lx_start l"
  "lx_startLn (lx_advance l) = lx_startLn l" "lx_startCl (lx_advance l) = lx_startCl l"
  using lx_advance_step [of l] by (simp_all add: lx_step_def)

function advance_while :: "(rune \<Rightarrow> bool) \<Rightarrow> Lexer \<Rightarrow> Lexer" where
  "advance_while P l =
     (if lx_pos l < length (lx_input l) \<and> P (peek l) then advance_while P (lx_advance l) else l)"
  by pat_completeness auto

termination advance_while
  by (relation "measure (\<lambda>(P, l). length (lx_input l) - lx_pos l)")
    (auto dest: lx_advance_pos intro!: diff_less_mono2)

declare advance_while.simps [simp del]

lemma advance_while_step: "lx_step l (advance_while P l)"
proof (induction P l rule: advance_while.induct)
  case (1 P l)
  then show ?case
    by (subst advance_while.simps) (auto intro: lx_step_trans lx_advance_step)
qed

lemma advance_while_progress:
  assumes "lx_pos l < length (lx_input l)" "P (peek l)"
  shows "lx_pos l < lx_pos (advance_while P l)"
proof -
  from assms have "advance_while P l = advance_while P (lx_advance l)"
    by (subst advance_while.simps) simp
  moreover have "lx_pos (lx_advance l) \<le> lx_pos (advance_while P (lx_advance l))"
    using advance_while_step by (simp add: lx_step_def)
  ultimately show ?thesis using lx_advance_pos [OF assms(1)] by simp
qed

subsection \<open>Scanning\<close>

definition slice :: "string \<Rightarrow> nat \<Rightarrow> nat \<Rightarrow> string" where
  "slice s a b = take (b - a) (drop a s)"

definition escape_of :: "rune \<Rightarrow> string" where
  "escape_of esc =
     (if esc = 110 then [char_of (10 :: nat)]
      else if esc = 116 then [char_of (9 :: nat)]
      else if esc = 92 then [char_of (92 :: nat)]
      else if esc = 34 then [char_of (34 :: nat)]
      else char_of (92 :: nat) # EncodeRune esc)"

function scanString_loop :: "string \<Rightarrow> Lexer \<Rightarrow> (message + Token) \<times> Lexer" where
  "scanString_loop sb l =
     (if lx_pos l < length (lx_input l) then
        let ch = peek l in
        if ch = 34 then (Inr (makeToken TokenString sb (lx_advance l)), lx_advance l)
        else if ch = 92 then
          let l = lx_advance l in
          if lx_pos l \<ge> length (lx_input l) then
            (Inl (Text (location (lx_file l) (lx_line l) (lx_col l) @ ''unterminated string escape'')), l)
          else scanString_loop (sb @ escape_of (peek l)) (lx_advance l)
        else if ch = 10 then
          scanString_loop (sb @ EncodeRune ch) (l\<lparr>lx_line := lx_line l + 1, lx_col := 1, lx_pos := lx_pos l + 1\<rparr>)
        else scanString_loop (sb @ EncodeRune ch) (lx_advance l)
      else (Inl (Text (location (lx_file l) (lx_startLn l) (lx_startCl l) @ ''unterminated string'')), l))"
  by pat_completeness auto

lemma lx_advance_twice:
  assumes "lx_pos l < length (lx_input l)"
  shows "lx_pos l < lx_pos (lx_advance (lx_advance l))"
  using lx_advance_pos [OF assms] lx_advance_step [of "lx_advance l"] by (simp add: lx_step_def)

termination scanString_loop
  by (relation "measure (\<lambda>(sb, l). length (lx_input l) - lx_pos l)")
    (auto intro!: diff_less_mono2 dest: lx_advance_pos lx_advance_twice)

declare scanString_loop.simps [simp del]

definition scanString :: "Lexer \<Rightarrow> (message + Token) \<times> Lexer" where
  "scanString l = scanString_loop [] (lx_advance l)"

definition scanNumber :: "Lexer \<Rightarrow> (message + Token) \<times> Lexer" where
  "scanNumber l =
     (let l = advance_while (\<lambda>r. isDigit r \<or> r = 46 \<or> r = 45) l
      in (Inr (makeToken TokenNumber (slice (lx_input l) (lx_start l) (lx_pos l)) l), l))"

definition scanIdentOrKeyword :: "(rune \<Rightarrow> bool) \<Rightarrow> (rune \<Rightarrow> bool) \<Rightarrow> Lexer \<Rightarrow> (message + Token) \<times> Lexer" where
  "scanIdentOrKeyword IsLetter IsDigit l =
     (let l = advance_while (isIdentPart IsLetter IsDigit) l;
          literal = slice (lx_input l) (lx_start l) (lx_pos l);
          tokType = LookupKeyword literal
      in (Inr (makeToken tokType literal l), l))"

function skipWhitespaceAndComments :: "Lexer \<Rightarrow> Lexer" where
  "skipWhitespaceAndComments l =
     (if lx_pos l < length (lx_input l) then
        let ch = peek l in
        if ch = 32 \<or> ch = 9 \<or> ch = 13 then skipWhitespaceAndComments (lx_advance l)
        else if ch = 35 \<or> ch = 47 \<and> peekAt 1 l = 47
        then skipWhitespaceAndComments (advance_while (\<lambda>r. r \<noteq> 10) l)
        else l
      else l)"
  by pat_completeness auto

termination skipWhitespaceAndComments
  by (relation "measure (\<lambda>l. length (lx_input l) - lx_pos l)")
    (auto intro!: diff_less_mono2 advance_while_progress
      dest: lx_advance_pos simp: advance_while_step [unfolded lx_step_def])

declare skipWhitespaceAndComments.simps [simp del]

text \<open>The cases of the switch that read one rune.\<close>

definition single :: "TokenType \<Rightarrow> string \<Rightarrow> Lexer \<Rightarrow> (message + Token) \<times> Lexer" where
  "single typ literal l = (let l = lx_advance l in (Inr (makeToken typ literal l), l))"

text \<open>The switch of \<open>nextToken\<close>, on a lexer at the start of a token.\<close>

definition scanToken :: "(rune \<Rightarrow> bool) \<Rightarrow> (rune \<Rightarrow> bool) \<Rightarrow> Lexer \<Rightarrow> (message + Token) \<times> Lexer" where
  "scanToken IsLetter IsDigit l =
     (let ch = peek l; here = location (lx_file l) (lx_startLn l) (lx_startCl l) in
      if ch = 10 then single TokenNewline [char_of (10 :: nat)] l
      else if ch = 123 then single TokenLBrace ''{'' l
      else if ch = 125 then single TokenRBrace ''}'' l
      else if ch = 91 then single TokenLBracket ''['' l
      else if ch = 93 then single TokenRBracket '']'' l
      else if ch = 40 then single TokenLParen ''('' l
      else if ch = 41 then single TokenRParen '')'' l
      else if ch = 44 then single TokenComma '','' l
      else if ch = 46 then single TokenDot ''.'' l
      else if ch = 34 then scanString l
      else if isDigit ch \<or> (ch = 45 \<and> peekAt 1 l \<noteq> 0 \<and> isDigit (peekAt 1 l)) then scanNumber l
      else if ch = 58 then single TokenColon '':'' l
      else if ch = 61 then
        (if peek (lx_advance l) = 61 then single TokenEqual ''=='' (lx_advance l)
         else (Inl (Text (here @ ''unexpected character '' @ [CHR 0x27] @ ''='' @ [CHR 0x27] @
                 '' (did you mean '' @ [CHR 0x27] @ ''=='' @ [CHR 0x27] @ ''?)'')), lx_advance l))
      else if ch = 33 then
        (if peek (lx_advance l) = 61 then single TokenNotEqual ''!='' (lx_advance l)
         else (Inl (Text (here @ ''unexpected character '' @ [CHR 0x27] @ ''!'' @ [CHR 0x27])), lx_advance l))
      else if ch = 62 then
        (if peek (lx_advance l) = 61 then single TokenGreaterEq ''>='' (lx_advance l)
         else (Inr (makeToken TokenGreater ''>'' (lx_advance l)), lx_advance l))
      else if ch = 60 then
        (if peek (lx_advance l) = 61 then single TokenLessEq ''<='' (lx_advance l)
         else (Inr (makeToken TokenLess ''<'' (lx_advance l)), lx_advance l))
      else if isIdentStart IsLetter ch then scanIdentOrKeyword IsLetter IsDigit l
      else (Inl (QuotedRune (here @ ''unexpected character '') ch), lx_advance l))"

definition begin_token :: "Lexer \<Rightarrow> Lexer" where
  "begin_token l = l\<lparr>lx_start := lx_pos l, lx_startLn := lx_line l, lx_startCl := lx_col l\<rparr>"

definition nextToken :: "(rune \<Rightarrow> bool) \<Rightarrow> (rune \<Rightarrow> bool) \<Rightarrow> Lexer \<Rightarrow> (message + Token) \<times> Lexer" where
  "nextToken IsLetter IsDigit l =
     (let l = skipWhitespaceAndComments l in
      if lx_pos l \<ge> length (lx_input l) then (Inr (makeToken TokenEOF [] l), l)
      else scanToken IsLetter IsDigit (begin_token l))"

lemma skip_step: "lx_step l (skipWhitespaceAndComments l)"
proof (induction l rule: skipWhitespaceAndComments.induct)
  case (1 l)
  show ?case
    by (subst skipWhitespaceAndComments.simps)
      (auto simp: Let_def intro: lx_step_trans [OF lx_advance_step 1(1)] lx_step_trans [OF advance_while_step 1(2)])
qed

lemma scanString_loop_step:
  "scanString_loop sb l = (r, l') \<Longrightarrow>
     lx_step l l' \<and> (\<forall>tok. r = Inr tok \<longrightarrow> (\<exists>lit. tok = makeToken TokenString lit l))"
proof (induction sb l rule: scanString_loop.induct)
  case (1 sb l)
  have nl: "lx_step l (l\<lparr>lx_line := lx_line l + 1, lx_col := 1, lx_pos := lx_pos l + 1\<rparr>)"
    if "lx_pos l < length (lx_input l)"
    using that by (simp add: lx_step_def)
  have mk: "makeToken t lit (lx_advance l) = makeToken t lit l"
    "makeToken t lit (l\<lparr>lx_line := n, lx_col := m, lx_pos := k\<rparr>) = makeToken t lit l" for t lit l n m k
    by (simp_all add: makeToken_def)
  note trans = lx_step_trans [OF lx_advance_step] lx_step_trans [OF nl] lx_advance_step
  show ?case
  proof (cases "lx_pos l < length (lx_input l)")
    case False
    with 1(4) show ?thesis by (subst (asm) scanString_loop.simps) auto
  next
    case True
    consider "peek l = 34" | "peek l = 92" "lx_pos (lx_advance l) \<ge> length (lx_input l)"
      | "peek l = 92" "lx_pos (lx_advance l) < length (lx_input l)" | "peek l = 10"
      | "peek l \<noteq> 34" "peek l \<noteq> 92" "peek l \<noteq> 10" by linarith
    then show ?thesis
    proof cases
      case 1
      with True \<open>scanString_loop sb l = (r, l')\<close> show ?thesis
        by (subst (asm) scanString_loop.simps) (auto simp: mk intro: lx_advance_step)
    next
      case 2
      with True \<open>scanString_loop sb l = (r, l')\<close> show ?thesis
        by (subst (asm) scanString_loop.simps) (auto simp: Let_def intro: lx_advance_step)
    next
      case 3
      with True 1(4) have "scanString_loop (sb @ escape_of (peek (lx_advance l))) (lx_advance (lx_advance l)) = (r, l')"
        by (subst (asm) scanString_loop.simps) (simp add: Let_def)
      with 1(1) [OF True refl _ _ refl] 3 show ?thesis by (auto simp: mk intro: trans)
    next
      case 4
      with True 1(4) have "scanString_loop (sb @ EncodeRune 10) (l\<lparr>lx_line := lx_line l + 1, lx_col := 1, lx_pos := lx_pos l + 1\<rparr>) = (r, l')"
        by (subst (asm) scanString_loop.simps) auto
      with 1(2) [OF True refl] 4 True show ?thesis by (auto simp: mk intro: trans)
    next
      case 5
      with True 1(4) have "scanString_loop (sb @ EncodeRune (peek l)) (lx_advance l) = (r, l')"
        by (subst (asm) scanString_loop.simps) auto
      with 1(3) [OF True refl] 5 show ?thesis by (auto simp: mk intro: trans)
    qed
  qed
qed

lemma single_step:
  "lx_pos l < length (lx_input l) \<Longrightarrow> single t lit l = (r, l') \<Longrightarrow>
     lx_step l l' \<and> lx_pos l < lx_pos l' \<and> r = Inr (makeToken t lit l)"
  using lx_advance_step [of l] lx_advance_pos [of l] by (auto simp: single_def Let_def makeToken_def)

lemma single_second_step:
  assumes "lx_pos l < length (lx_input l)" "single t lit (lx_advance l) = (r, l')"
  shows "lx_step l l' \<and> lx_pos l < lx_pos l' \<and> r = Inr (makeToken t lit l)"
  using assms lx_advance_twice [of l] lx_step_trans [OF lx_advance_step lx_advance_step [of "lx_advance l"]]
  by (auto simp: single_def Let_def makeToken_def)

text \<open>Every case of the switch moves forward, and a token carries the position it started at.\<close>

definition token_at :: "Lexer \<Rightarrow> Token \<Rightarrow> bool" where
  "token_at l tok \<longleftrightarrow> (\<exists>t lit. t \<noteq> TokenEOF \<and> tok = makeToken t lit l)"

lemma scanString_step:
  assumes "lx_pos l < length (lx_input l)" "scanString l = (r, l')"
  shows "lx_step l l' \<and> lx_pos l < lx_pos l' \<and> (\<forall>tok. r = Inr tok \<longrightarrow> token_at l tok)"
proof -
  from scanString_loop_step assms(2) have "lx_step (lx_advance l) l'"
    "\<forall>tok. r = Inr tok \<longrightarrow> (\<exists>lit. tok = makeToken TokenString lit (lx_advance l))"
    unfolding scanString_def by blast+
  moreover have "makeToken t lit (lx_advance l) = makeToken t lit l" for t lit
    by (simp add: makeToken_def)
  moreover have "lx_pos l < lx_pos (lx_advance l)" "lx_pos (lx_advance l) \<le> lx_pos l'"
    using lx_advance_pos [OF assms(1)] \<open>lx_step (lx_advance l) l'\<close> by (simp_all add: lx_step_def)
  moreover have "TokenString \<noteq> TokenEOF" by simp
  ultimately show ?thesis using lx_step_trans [OF lx_advance_step]
    unfolding token_at_def by (metis order_less_le_trans)
qed

lemma advance_while_token: "makeToken t lit (advance_while P l) = makeToken t lit l"
  using advance_while_step [of l P] by (simp add: lx_step_def makeToken_def)

lemma scanNumber_step:
  assumes "lx_pos l < length (lx_input l)" "isDigit (peek l) \<or> peek l = 45" "scanNumber l = (r, l')"
  shows "lx_step l l' \<and> lx_pos l < lx_pos l' \<and> (\<forall>tok. r = Inr tok \<longrightarrow> token_at l tok)"
proof -
  let ?l = "advance_while (\<lambda>r. isDigit r \<or> r = 46 \<or> r = 45) l"
  have "lx_pos l < lx_pos ?l" by (rule advance_while_progress [OF assms(1)]) (use assms(2) in auto)
  moreover from assms(3) have "l' = ?l" "\<exists>s. r = Inr (makeToken TokenNumber s ?l)"
    by (auto simp: scanNumber_def Let_def)
  moreover have "TokenNumber \<noteq> TokenEOF" by simp
  ultimately show ?thesis using advance_while_step
    unfolding token_at_def advance_while_token by blast
qed

lemma LookupKeyword_not_EOF: "LookupKeyword s \<noteq> TokenEOF"
  by (cases "mget keyword_table s") (auto simp: LookupKeyword_def dest: name_of_keyword)

lemma scanIdent_step:
  assumes "lx_pos l < length (lx_input l)" "isIdentStart IsLetter (peek l)"
    "scanIdentOrKeyword IsLetter IsDigit l = (r, l')"
  shows "lx_step l l' \<and> lx_pos l < lx_pos l' \<and> (\<forall>tok. r = Inr tok \<longrightarrow> token_at l tok)"
proof -
  let ?l = "advance_while (isIdentPart IsLetter IsDigit) l"
  have "isIdentPart IsLetter IsDigit (peek l)"
    using assms(2) by (auto simp: isIdentStart_def isIdentPart_def)
  then have "lx_pos l < lx_pos ?l" by (rule advance_while_progress [OF assms(1)])
  moreover from assms(3) have "l' = ?l" "\<exists>s. r = Inr (makeToken (LookupKeyword s) s ?l)"
    by (auto simp: scanIdentOrKeyword_def Let_def)
  ultimately show ?thesis using advance_while_step LookupKeyword_not_EOF
    unfolding token_at_def advance_while_token by blast
qed

lemma advance_error_step:
  "lx_pos l < length (lx_input l) \<Longrightarrow> l' = lx_advance l \<Longrightarrow> lx_step l l' \<and> lx_pos l < lx_pos l'"
  using lx_advance_step lx_advance_pos by blast

lemma if_eqE:
  "(if c then a else b) = x \<Longrightarrow> (c \<Longrightarrow> a = x \<Longrightarrow> P) \<Longrightarrow> (\<not> c \<Longrightarrow> b = x \<Longrightarrow> P) \<Longrightarrow> P"
  by (simp split: if_splits)

lemma scanToken_step:
  assumes pos: "lx_pos l < length (lx_input l)" and tok: "scanToken IsLetter IsDigit l = (r, l')"
  shows "lx_step l l' \<and> lx_pos l < lx_pos l' \<and> (\<forall>tok. r = Inr tok \<longrightarrow> token_at l tok)"
proof -
  have mk: "makeToken t lit (lx_advance l) = makeToken t lit l" for t lit
    by (simp add: makeToken_def)
  have t: "single t lit l = (r, l') \<Longrightarrow> t \<noteq> TokenEOF \<Longrightarrow> ?thesis" for t lit
    using single_step [OF pos] unfolding token_at_def by blast
  have t2: "single t lit (lx_advance l) = (r, l') \<Longrightarrow> t \<noteq> TokenEOF \<Longrightarrow> ?thesis" for t lit
    using single_second_step [OF pos] unfolding token_at_def by blast
  have t3: "(Inr (makeToken t lit (lx_advance l)), lx_advance l) = (r, l') \<Longrightarrow> t \<noteq> TokenEOF \<Longrightarrow> ?thesis" for t lit
    using advance_error_step [OF pos] unfolding token_at_def mk by blast
  have err: "(Inl e, lx_advance l) = (r, l') \<Longrightarrow> ?thesis" for e
    using advance_error_step [OF pos] by blast
  from tok show ?thesis
    unfolding scanToken_def Let_def
    apply (elim if_eqE)
    apply (erule t t2 t3 err, simp | erule err | erule scanString_step [OF pos]
      | (rule scanNumber_step [OF pos], blast, assumption) | (rule scanIdent_step [OF pos], assumption, assumption))+
    done
qed

subsection \<open>All tokens\<close>

abbreviation pos_of :: "Token \<Rightarrow> int \<times> int" where
  "pos_of tok \<equiv> (tok_Line tok, tok_Column tok)"

abbreviation lx_at :: "Lexer \<Rightarrow> int \<times> int" where
  "lx_at l \<equiv> (lx_line l, lx_col l)"

lemma nextToken_cases:
  assumes "nextToken IsLetter IsDigit l = (r, l')"
  obtains (eof) "r = Inr (makeToken TokenEOF [] l)" "lx_step l l'"
    | (scanned) "lx_pos l < lx_pos l'" "lx_at l < lx_at l'" "lx_input l' = lx_input l" "lx_file l' = lx_file l"
      "lx_tokens l' = lx_tokens l" "lx_pos l' \<le> length (lx_input l)"
      "\<And>tok. r = Inr tok \<Longrightarrow> tok_Type tok \<noteq> TokenEOF \<and> tok_File tok = lx_file l \<and>
         lx_at l \<le> pos_of tok \<and> pos_of tok < lx_at l' \<and> (lx_startLn l', lx_startCl l') = pos_of tok"
proof (cases "lx_pos (skipWhitespaceAndComments l) \<ge> length (lx_input (skipWhitespaceAndComments l))")
  case True
  with assms skip_step [of l] have "r = Inr (makeToken TokenEOF [] l)" "l' = skipWhitespaceAndComments l"
    by (auto simp: nextToken_def Let_def makeToken_def lx_step_def)
  then show ?thesis using skip_step eof by blast
next
  case False
  define k where "k = skipWhitespaceAndComments l"
  define b where "b = begin_token k"
  have k: "lx_step l k" unfolding k_def by (rule skip_step)
  have b: "lx_input b = lx_input k" "lx_file b = lx_file k" "lx_tokens b = lx_tokens k" "lx_pos b = lx_pos k"
    "lx_at b = lx_at k" "(lx_startLn b, lx_startCl b) = lx_at k"
    by (simp_all add: b_def begin_token_def)
  from False b have "lx_pos b < length (lx_input b)" by (simp add: k_def)
  moreover from assms False have "scanToken IsLetter IsDigit b = (r, l')"
    by (simp add: nextToken_def Let_def k_def b_def)
  ultimately have s: "lx_step b l'" "lx_pos b < lx_pos l'" "\<forall>tok. r = Inr tok \<longrightarrow> token_at b tok"
    and len: "lx_pos b < length (lx_input b)"
    using scanToken_step by blast+
  have at: "lx_at l \<le> lx_at k" "lx_at b < lx_at l'"
    using k s(1,2) unfolding lx_step_def by blast+
  have keep: "lx_input l' = lx_input l" "lx_file l' = lx_file l" "lx_tokens l' = lx_tokens l"
    "(lx_startLn l', lx_startCl l') = lx_at k" "lx_pos l \<le> lx_pos b"
    using k s(1) b unfolding lx_step_def by simp_all
  have "lx_pos l' \<le> length (lx_input l)"
    using s(1) len keep(1) unfolding lx_step_def by simp
  moreover have "lx_at l < lx_at l'" using at b(5) by (metis order_le_less_trans)
  moreover have "tok_Type tok \<noteq> TokenEOF \<and> tok_File tok = lx_file l \<and> lx_at l \<le> pos_of tok \<and>
      pos_of tok < lx_at l' \<and> (lx_startLn l', lx_startCl l') = pos_of tok" if "r = Inr tok" for tok
  proof -
    from s(3) that obtain t lit where t: "t \<noteq> TokenEOF" "tok = makeToken t lit b"
      unfolding token_at_def by blast
    have "pos_of tok = lx_at k" using t(2) b(6) by (simp add: makeToken_def)
    moreover have "tok_File tok = lx_file l" using t(2) b(2) k by (simp add: makeToken_def lx_step_def)
    moreover have "tok_Type tok \<noteq> TokenEOF" using t by (simp add: makeToken_def)
    ultimately show ?thesis using at b(5) keep(4) by metis
  qed
  ultimately show ?thesis using s(2) keep by (intro scanned) simp_all
qed

function Tokenize_loop :: "(rune \<Rightarrow> bool) \<Rightarrow> (rune \<Rightarrow> bool) \<Rightarrow> Lexer \<Rightarrow> message + Token list" where
  "Tokenize_loop IsLetter IsDigit l =
     (case nextToken IsLetter IsDigit l of
        (Inl err, l) \<Rightarrow> Inl err
      | (Inr tok, l) \<Rightarrow>
          let l = l\<lparr>lx_tokens := lx_tokens l @ [tok]\<rparr>
          in if tok_Type tok = TokenEOF then Inr (lx_tokens l) else Tokenize_loop IsLetter IsDigit l)"
  by pat_completeness auto

lemma nextToken_shrinks:
  assumes "nextToken IsLetter IsDigit l = (Inr tok, l')" "tok_Type tok \<noteq> TokenEOF"
  shows "length (lx_input l') - lx_pos l' < length (lx_input l) - lx_pos l"
  using assms(1)
proof (cases rule: nextToken_cases)
  case eof
  with assms(2) show ?thesis by (simp add: makeToken_def)
next
  case scanned
  then show ?thesis by simp
qed

termination Tokenize_loop
  by (relation "measure (\<lambda>(_, _, l). length (lx_input l) - lx_pos l)")
    (auto dest: nextToken_shrinks [OF sym])

declare Tokenize_loop.simps [simp del]

definition Tokenize :: "(rune \<Rightarrow> bool) \<Rightarrow> (rune \<Rightarrow> bool) \<Rightarrow> string \<Rightarrow> string \<Rightarrow> message + Token list" where
  "Tokenize IsLetter IsDigit input fil = Tokenize_loop IsLetter IsDigit (NewLexer input fil)"

text \<open>The tokens read so far: in source order, before the current position, none of them \<open>EOF\<close>.\<close>

definition lexed :: "Lexer \<Rightarrow> bool" where
  "lexed l \<longleftrightarrow>
     (\<forall>t \<in> set (lx_tokens l). tok_Type t \<noteq> TokenEOF \<and> tok_File t = lx_file l \<and> pos_of t < lx_at l) \<and>
     sorted_wrt (\<lambda>s t. pos_of s < pos_of t) (lx_tokens l) \<and>
     length (lx_tokens l) \<le> lx_pos l \<and> lx_pos l \<le> length (lx_input l) \<and>
     (lx_startLn l, lx_startCl l) = (if lx_tokens l = [] then (0, 0) else pos_of (last (lx_tokens l)))"

definition lex_result :: "string \<Rightarrow> string \<Rightarrow> Token list \<Rightarrow> bool" where
  "lex_result input fil toks \<longleftrightarrow>
     (\<exists>ts eof. toks = ts @ [eof] \<and> tok_Type eof = TokenEOF \<and> tok_File eof = fil \<and>
        pos_of eof = (if ts = [] then (0, 0) else pos_of (last ts)) \<and>
        (\<forall>t \<in> set ts. tok_Type t \<noteq> TokenEOF \<and> tok_File t = fil) \<and>
        sorted_wrt (\<lambda>s t. pos_of s < pos_of t) ts \<and> length ts \<le> length input)"

lemma lexed_snoc:
  assumes "lexed l" "nextToken IsLetter IsDigit l = (Inr tok, l')" "tok_Type tok \<noteq> TokenEOF"
  shows "lexed (l'\<lparr>lx_tokens := lx_tokens l' @ [tok]\<rparr>) \<and> lx_input l' = lx_input l \<and> lx_file l' = lx_file l"
  using assms(2)
proof (cases rule: nextToken_cases)
  case eof
  with assms(3) show ?thesis by (simp add: makeToken_def)
next
  case scanned
  have tok: "tok_File tok = lx_file l" "lx_at l \<le> pos_of tok" "pos_of tok < lx_at l'"
    "(lx_startLn l', lx_startCl l') = pos_of tok"
    using scanned(7) by blast+
  have "pos_of t < pos_of tok" "pos_of t < lx_at l'" if "t \<in> set (lx_tokens l)" for t
  proof -
    have "pos_of t < lx_at l" using assms(1) that unfolding lexed_def by blast
    then show "pos_of t < pos_of tok" "pos_of t < lx_at l'"
      using tok(2) scanned(2) by (meson order_less_le_trans order_less_trans)+
  qed
  then show ?thesis
    using assms(1,3) scanned(1,3-6) tok unfolding lexed_def
    by (simp add: sorted_wrt_append ball_Un)
qed

lemma Tokenize_loop_result:
  "lexed l \<Longrightarrow> Tokenize_loop IsLetter IsDigit l = Inr toks \<Longrightarrow> lex_result (lx_input l) (lx_file l) toks"
proof (induction IsLetter IsDigit l rule: Tokenize_loop.induct)
  case (1 IsLetter IsDigit l)
  from 1(3) obtain tok l' where n: "nextToken IsLetter IsDigit l = (Inr tok, l')"
    by (subst (asm) Tokenize_loop.simps) (auto split: prod.splits sum.splits)
  show ?case
  proof (cases "tok_Type tok = TokenEOF")
    case False
    with 1(3) n have "Tokenize_loop IsLetter IsDigit (l'\<lparr>lx_tokens := lx_tokens l' @ [tok]\<rparr>) = Inr toks"
      by (subst (asm) Tokenize_loop.simps) (simp add: Let_def)
    with 1(1) [OF n [symmetric] refl refl False] lexed_snoc [OF 1(2) n False] show ?thesis by simp
  next
    case True
    from n have "lx_tokens l' = lx_tokens l \<and> tok = makeToken TokenEOF [] l"
    proof (cases rule: nextToken_cases)
      case eof
      then show ?thesis by (simp add: lx_step_def)
    next
      case scanned
      with True show ?thesis by blast
    qed
    moreover from this n True 1(3) have "toks = lx_tokens l @ [tok]"
      by (subst (asm) Tokenize_loop.simps) (simp add: Let_def)
    ultimately show ?thesis using 1(2)
      unfolding lex_result_def lexed_def by (intro exI [of _ "lx_tokens l"] exI [of _ tok]) (simp add: makeToken_def)
  qed
qed

lemma Tokenize_result:
  assumes "Tokenize IsLetter IsDigit input fil = Inr toks"
  shows "lex_result input fil toks"
proof -
  have "lexed (NewLexer input fil)" by (simp add: lexed_def NewLexer_def)
  from Tokenize_loop_result [OF this] assms show ?thesis
    by (simp add: Tokenize_def NewLexer_def)
qed

text \<open>
  C5. The lexer ends on every input, and the tokens it returns are in source order: every token
  but the last starts strictly after the one before it, the last one and only it is \<open>EOF\<close>, all
  carry the name of the file, and there is at most one token per byte of input before \<open>EOF\<close>. The
  position of \<open>EOF\<close> is that of the token before it, or 0:0 when there is none.
\<close>

theorem Tokenize_ordered:
  assumes "Tokenize IsLetter IsDigit input fil = Inr toks"
  shows "\<exists>ts eof. toks = ts @ [eof] \<and> tok_Type eof = TokenEOF \<and> tok_File eof = fil \<and>
    pos_of eof = (if ts = [] then (0, 0) else pos_of (last ts)) \<and>
    (\<forall>t \<in> set ts. tok_Type t \<noteq> TokenEOF \<and> tok_File t = fil) \<and>
    sorted_wrt (\<lambda>s t. pos_of s < pos_of t) ts \<and> length ts \<le> length input"
  using Tokenize_result [OF assms] by (simp only: lex_result_def)

definition sample_tokens :: "Token list" where
  "sample_tokens =
     [\<lparr>tok_Type = TokenNumber, tok_Literal = ''7'', tok_File = ''f'', tok_Line = 1, tok_Column = 1\<rparr>,
      \<lparr>tok_Type = TokenLBrace, tok_Literal = ''{'', tok_File = ''f'', tok_Line = 1, tok_Column = 3\<rparr>,
      \<lparr>tok_Type = TokenEOF, tok_Literal = [], tok_File = ''f'', tok_Line = 1, tok_Column = 3\<rparr>]"

lemma sample_run: "Tokenize (\<lambda>r. 97 \<le> r \<and> r \<le> 122) isDigit ''7 {'' ''f'' = Inr sample_tokens"
  by code_simp

theorem Tokenize_ordered_witness:
  "Tokenize (\<lambda>r. 97 \<le> r \<and> r \<le> 122) isDigit ''7 {'' ''f'' = Inr sample_tokens \<and>
   (\<exists>ts eof. sample_tokens = ts @ [eof] \<and> tok_Type eof = TokenEOF \<and> length ts \<le> length ''7 {'')"
  using sample_run Tokenize_ordered [OF sample_run] by blast

end
