(* ===== verification/Lexer_Roundtrip.thy ===== *)
theory Lexer_Roundtrip
  imports Lexer
begin

text \<open>
  Text printed from a list of lexemes, separated by spaces, is read back by the lexer of
  \<open>internal/parser/lexer.go\<close> as the tokens of these lexemes; in particular a quoted string
  with its escapes is read as the string.
\<close>

subsection \<open>Lexemes\<close>

datatype lexeme = Punct TokenType | Word "rune list" | Number string | Str "rune list"

definition quote_rune :: "rune \<Rightarrow> string" where
  "quote_rune r =
     (if r = 10 then [char_of (92 :: nat), char_of (110 :: nat)]
      else if r = 9 then [char_of (92 :: nat), char_of (116 :: nat)]
      else if r = 92 then [char_of (92 :: nat), char_of (92 :: nat)]
      else if r = 34 then [char_of (92 :: nat), char_of (34 :: nat)]
      else EncodeRune r)"

definition quote :: "rune list \<Rightarrow> string" where
  "quote rs = concat (map quote_rune rs)"

fun lexeme_text :: "lexeme \<Rightarrow> string" where
  "lexeme_text (Punct t) = TokenType_String t"
| "lexeme_text (Word rs) = encode_all rs"
| "lexeme_text (Number s) = s"
| "lexeme_text (Str rs) = char_of (34 :: nat) # quote rs @ [char_of (34 :: nat)]"

fun lexeme_token :: "lexeme \<Rightarrow> TokenType \<times> string" where
  "lexeme_token (Punct t) = (t, TokenType_String t)"
| "lexeme_token (Word rs) = (LookupKeyword (encode_all rs), encode_all rs)"
| "lexeme_token (Number s) = (TokenNumber, s)"
| "lexeme_token (Str rs) = (TokenString, encode_all rs)"

text \<open>
  What the lexer relies on of the Unicode tables: on the ASCII range the letters are a to z and
  A to Z, and the digits 0 to 9.
\<close>

definition ascii_tables :: "(rune \<Rightarrow> bool) \<Rightarrow> (rune \<Rightarrow> bool) \<Rightarrow> bool" where
  "ascii_tables IsLetter IsDigit \<longleftrightarrow>
     (\<forall>r < 128. IsLetter r = (65 \<le> r \<and> r \<le> 90 \<or> 97 \<le> r \<and> r \<le> 122) \<and> IsDigit r = isDigit r)"

abbreviation number_byte :: "char \<Rightarrow> bool" where
  "number_byte c \<equiv> isDigit (byte c) \<or> byte c = 46 \<or> byte c = 45"

fun lexeme_ok :: "(rune \<Rightarrow> bool) \<Rightarrow> (rune \<Rightarrow> bool) \<Rightarrow> lexeme \<Rightarrow> bool" where
  "lexeme_ok IsLetter IsDigit (Punct t) \<longleftrightarrow>
     t \<in> set [TokenLBrace, TokenRBrace, TokenLBracket, TokenRBracket, TokenLParen, TokenRParen, TokenComma,
       TokenDot, TokenColon, TokenEqual, TokenNotEqual, TokenGreater, TokenGreaterEq, TokenLess, TokenLessEq]"
| "lexeme_ok IsLetter IsDigit (Word rs) \<longleftrightarrow>
     rs \<noteq> [] \<and> isIdentStart IsLetter (hd rs) \<and> list_all valid_rune rs \<and> list_all (isIdentPart IsLetter IsDigit) rs"
| "lexeme_ok IsLetter IsDigit (Number s) \<longleftrightarrow>
     list_all number_byte s \<and>
     (case s of [] \<Rightarrow> False | c # cs \<Rightarrow> isDigit (byte c) \<or> byte c = 45 \<and> cs \<noteq> [] \<and> isDigit (byte (hd cs)))"
| "lexeme_ok IsLetter IsDigit (Str rs) \<longleftrightarrow> list_all valid_rune rs"

subsection \<open>Reading runes\<close>

definition rest_of :: "Lexer \<Rightarrow> string" where
  "rest_of l = drop (lx_pos l) (lx_input l)"

lemma at_rune:
  assumes "rest_of l = EncodeRune r @ rest" "valid_rune r"
  shows "lx_pos l < length (lx_input l)" "peek l = r" "rest_of (lx_advance l) = rest"
    "lx_pos (lx_advance l) = lx_pos l + length (EncodeRune r)"
proof -
  have "rest_of l \<noteq> []" using assms(1) by simp
  then show len: "lx_pos l < length (lx_input l)" by (simp add: rest_of_def)
  have d: "DecodeRune (rest_of l) = (r, length (EncodeRune r))"
    using DecodeRune_EncodeRune [OF assms(2)] assms(1) by simp
  with len show "peek l = r" by (simp add: peek_def rest_of_def)
  from d len show p: "lx_pos (lx_advance l) = lx_pos l + length (EncodeRune r)"
    by (simp add: lx_advance_def Let_def rest_of_def)
  have "rest_of (lx_advance l) = drop (length (EncodeRune r)) (rest_of l)"
    using p by (simp add: rest_of_def add.commute)
  then show "rest_of (lx_advance l) = rest" using assms(1) by simp
qed

lemma at_byte:
  assumes "rest_of l = c # rest" "byte c < 128"
  shows "lx_pos l < length (lx_input l)" "peek l = byte c" "rest_of (lx_advance l) = rest"
    "lx_pos (lx_advance l) = lx_pos l + 1"
proof -
  have e: "EncodeRune (byte c) = [c]" using assms(2) by (simp add: EncodeRune_ascii byte_def)
  moreover have "valid_rune (byte c)" using assms(2) by (simp add: valid_rune_def)
  ultimately show "lx_pos l < length (lx_input l)" "peek l = byte c" "rest_of (lx_advance l) = rest"
    "lx_pos (lx_advance l) = lx_pos l + 1"
    using at_rune [of l "byte c" rest] assms(1) by simp_all
qed

lemma advance_while_run:
  assumes "rest_of l = encode_all rs @ rest" "list_all valid_rune rs" "list_all P rs"
    "rest \<noteq> [] \<Longrightarrow> \<not> P (fst (DecodeRune rest))"
  shows "rest_of (advance_while P l) = rest \<and> lx_pos (advance_while P l) = lx_pos l + length (encode_all rs)"
  using assms
proof (induction rs arbitrary: l)
  case Nil
  then have "advance_while P l = l"
    by (subst advance_while.simps) (auto simp: peek_def rest_of_def)
  with Nil show ?case by simp
next
  case (Cons r rs)
  have r: "rest_of l = EncodeRune r @ (encode_all rs @ rest)" "valid_rune r" "P r"
    using Cons.prems by simp_all
  note at = at_rune [OF r(1,2)]
  have "advance_while P l = advance_while P (lx_advance l)"
    using at(1,2) r(3) by (subst advance_while.simps) simp
  moreover have "rest_of (advance_while P (lx_advance l)) = rest \<and>
      lx_pos (advance_while P (lx_advance l)) = lx_pos (lx_advance l) + length (encode_all rs)"
    by (rule Cons.IH) (use at(3) Cons.prems in simp_all)
  ultimately show ?case using at(4) by simp
qed

lemma advance_while_bytes:
  assumes "rest_of l = s @ rest" "list_all (\<lambda>c. byte c < 128 \<and> P (byte c)) s"
    "rest \<noteq> [] \<Longrightarrow> \<not> P (fst (DecodeRune rest))"
  shows "rest_of (advance_while P l) = rest \<and> lx_pos (advance_while P l) = lx_pos l + length s"
proof -
  have "encode_all (map byte s) = s" "list_all valid_rune (map byte s)" "list_all P (map byte s)"
    using assms(2) by (induction s) (auto simp: EncodeRune_ascii byte_def valid_rune_def)
  with advance_while_run [of l "map byte s" rest P] assms(1,3) show ?thesis by metis
qed

lemma skip_stop:
  assumes "rest_of l = [] \<or> peek l \<notin> {32, 9, 13, 35, 47}"
  shows "skipWhitespaceAndComments l = l"
  using assms by (subst skipWhitespaceAndComments.simps) (auto simp: Let_def rest_of_def)

lemma skip_space:
  assumes "rest_of l = CHR '' '' # rest" "rest = [] \<or> fst (DecodeRune rest) \<notin> {32, 9, 13, 35, 47}"
  shows "skipWhitespaceAndComments l = lx_advance l \<and> rest_of (lx_advance l) = rest"
proof -
  have "byte (CHR '' '') = 32" by (simp add: byte_def)
  then have at: "lx_pos l < length (lx_input l)" "peek l = 32" "rest_of (lx_advance l) = rest"
    using at_byte [OF assms(1)] by simp_all
  then have "skipWhitespaceAndComments l = skipWhitespaceAndComments (lx_advance l)"
    by (subst skipWhitespaceAndComments.simps) (simp add: Let_def)
  moreover have "skipWhitespaceAndComments (lx_advance l) = lx_advance l"
    using assms(2) at(3) by (intro skip_stop) (auto simp: peek_def rest_of_def)
  ultimately show ?thesis using at(3) by simp
qed

subsection \<open>Reading one lexeme\<close>

text \<open>What reading a lexeme yields: its token, and a lexer right behind it.\<close>

definition reads :: "Lexer \<Rightarrow> TokenType \<times> string \<Rightarrow> string \<Rightarrow> (message + Token) \<times> Lexer \<Rightarrow> bool" where
  "reads l tk rest r \<longleftrightarrow>
     (\<exists>tok l'. r = (Inr tok, l') \<and> (tok_Type tok, tok_Literal tok) = tk \<and> rest_of l' = rest \<and>
        lx_input l' = lx_input l \<and> lx_tokens l' = lx_tokens l)"

lemma advance_while_keeps: "lx_input (advance_while P l) = lx_input l \<and> lx_tokens (advance_while P l) = lx_tokens l
    \<and> lx_start (advance_while P l) = lx_start l"
  using advance_while_step [of l P] by (simp add: lx_step_def)

lemma slice_run:
  assumes "rest_of l = s @ rest" "lx_start l = lx_pos l"
  shows "slice (lx_input l) (lx_start l) (lx_pos l + length s) = s"
  using assms by (simp add: slice_def rest_of_def)

lemma reads_number:
  assumes "rest_of l = s @ CHR '' '' # rest" "lx_start l = lx_pos l" "list_all number_byte s"
  shows "reads l (TokenNumber, s) (CHR '' '' # rest) (scanNumber l)"
proof -
  let ?P = "\<lambda>r. isDigit r \<or> r = 46 \<or> r = 45"
  have sp: "DecodeRune (CHR '' '' # rest) = (32, 1)" by (simp add: byte_def)
  have "list_all (\<lambda>c. byte c < 128 \<and> ?P (byte c)) s"
    using assms(3) by (auto simp: list_all_iff isDigit_def)
  then have w: "rest_of (advance_while ?P l) = CHR '' '' # rest" "lx_pos (advance_while ?P l) = lx_pos l + length s"
    using advance_while_bytes [OF assms(1), of ?P] sp by (simp_all add: isDigit_def del: DecodeRune.simps)
  then have "slice (lx_input l) (lx_start l) (lx_pos (advance_while ?P l)) = s"
    using slice_run [OF assms(1,2)] by simp
  then show ?thesis
    using w(1) advance_while_keeps [of ?P l] by (simp add: reads_def scanNumber_def Let_def makeToken_def)
qed

lemma reads_word:
  assumes "rest_of l = encode_all rs @ CHR '' '' # rest" "lx_start l = lx_pos l"
    "list_all valid_rune rs" "list_all (isIdentPart IsLetter IsDigit) rs" "ascii_tables IsLetter IsDigit"
  shows "reads l (LookupKeyword (encode_all rs), encode_all rs) (CHR '' '' # rest)
    (scanIdentOrKeyword IsLetter IsDigit l)"
proof -
  let ?P = "isIdentPart IsLetter IsDigit"
  have sp: "DecodeRune (CHR '' '' # rest) = (32, 1)" by (simp add: byte_def)
  have "\<not> ?P 32" using assms(5) by (simp add: ascii_tables_def isIdentPart_def isDigit_def)
  then have w: "rest_of (advance_while ?P l) = CHR '' '' # rest"
      "lx_pos (advance_while ?P l) = lx_pos l + length (encode_all rs)"
    using advance_while_run [OF assms(1,3,4)] sp by (simp_all del: DecodeRune.simps)
  then have "slice (lx_input l) (lx_start l) (lx_pos (advance_while ?P l)) = encode_all rs"
    using slice_run [OF assms(1,2)] by simp
  then show ?thesis
    using w(1) advance_while_keeps [of ?P l]
    by (simp add: reads_def scanIdentOrKeyword_def Let_def makeToken_def)
qed

lemma scanString_escape:
  assumes "rest_of l = char_of (92 :: nat) # char_of e # rest" "e < 128"
  shows "scanString_loop sb l = scanString_loop (sb @ escape_of e) (lx_advance (lx_advance l))"
    and "rest_of (lx_advance (lx_advance l)) = rest"
proof -
  have at: "lx_pos l < length (lx_input l)" "peek l = 92" "rest_of (lx_advance l) = char_of e # rest"
    using at_byte [OF assms(1)] by simp_all
  have at': "lx_pos (lx_advance l) < length (lx_input (lx_advance l))" "peek (lx_advance l) = e"
      "rest_of (lx_advance (lx_advance l)) = rest"
    using at_byte [OF at(3)] assms(2) by simp_all
  show "rest_of (lx_advance (lx_advance l)) = rest" by (rule at'(3))
  show "scanString_loop sb l = scanString_loop (sb @ escape_of e) (lx_advance (lx_advance l))"
    using at at' by (subst scanString_loop.simps) (simp add: Let_def)
qed

lemma scanString_rune:
  assumes "rest_of l = EncodeRune r @ rest" "valid_rune r" "r \<noteq> 10" "r \<noteq> 92" "r \<noteq> 34"
  shows "scanString_loop sb l = scanString_loop (sb @ EncodeRune r) (lx_advance l)"
    and "rest_of (lx_advance l) = rest"
proof -
  note at = at_rune [OF assms(1,2)]
  show "rest_of (lx_advance l) = rest" by (rule at(3))
  show "scanString_loop sb l = scanString_loop (sb @ EncodeRune r) (lx_advance l)"
    using at assms(3-) by (subst scanString_loop.simps) (simp add: Let_def)
qed

lemma scanString_quote_rune:
  assumes "rest_of l = quote_rune r @ rest" "valid_rune r"
  shows "\<exists>l'. scanString_loop sb l = scanString_loop (sb @ EncodeRune r) l' \<and> rest_of l' = rest \<and>
    lx_input l' = lx_input l \<and> lx_tokens l' = lx_tokens l"
proof -
  consider (esc) e where "quote_rune r = [char_of (92 :: nat), char_of e]" "e < 128" "escape_of e = EncodeRune r"
    | (plain) "quote_rune r = EncodeRune r" "r \<noteq> 10" "r \<noteq> 92" "r \<noteq> 34"
  proof -
    have "quote_rune 10 = [char_of (92 :: nat), char_of (110 :: nat)]" "escape_of 110 = EncodeRune 10"
      "quote_rune 9 = [char_of (92 :: nat), char_of (116 :: nat)]" "escape_of 116 = EncodeRune 9"
      "quote_rune 92 = [char_of (92 :: nat), char_of (92 :: nat)]" "escape_of 92 = EncodeRune 92"
      "quote_rune 34 = [char_of (92 :: nat), char_of (34 :: nat)]" "escape_of 34 = EncodeRune 34"
      by (simp_all add: quote_rune_def escape_of_def EncodeRune_ascii)
    moreover have "r \<notin> {10, 9, 92, 34} \<Longrightarrow> quote_rune r = EncodeRune r" by (simp add: quote_rune_def)
    ultimately show thesis using that by (cases "r \<in> {10, 9, 92, 34}") (fastforce, simp)
  qed
  then show ?thesis
  proof cases
    case esc
    with assms(1) have "rest_of l = char_of (92 :: nat) # char_of e # rest" by simp
    from scanString_escape [OF this esc(2)] esc(3) show ?thesis
      by (intro exI [of _ "lx_advance (lx_advance l)"]) simp
  next
    case plain
    with assms(1) have "rest_of l = EncodeRune r @ rest" by simp
    from scanString_rune [OF this assms(2) plain(2-)] show ?thesis
      by (intro exI [of _ "lx_advance l"]) simp
  qed
qed

lemma scanString_quote:
  assumes "rest_of l = quote rs @ char_of (34 :: nat) # rest" "list_all valid_rune rs"
  shows "reads l (TokenString, sb @ encode_all rs) rest (scanString_loop sb l)"
  using assms
proof (induction rs arbitrary: sb l)
  case Nil
  then have "rest_of l = char_of (34 :: nat) # rest" by (simp add: quote_def)
  from at_byte [OF this] have at: "lx_pos l < length (lx_input l)" "peek l = 34" "rest_of (lx_advance l) = rest"
    by simp_all
  then show ?case
    by (subst scanString_loop.simps) (simp add: Let_def reads_def makeToken_def)
next
  case (Cons r rs)
  have "rest_of l = quote_rune r @ (quote rs @ char_of (34 :: nat) # rest)" "valid_rune r"
    using Cons.prems by (simp_all add: quote_def)
  then obtain l' where l': "scanString_loop sb l = scanString_loop (sb @ EncodeRune r) l'"
      "rest_of l' = quote rs @ char_of (34 :: nat) # rest" "lx_input l' = lx_input l" "lx_tokens l' = lx_tokens l"
    using scanString_quote_rune by blast
  have "reads l' (TokenString, (sb @ EncodeRune r) @ encode_all rs) rest (scanString_loop (sb @ EncodeRune r) l')"
    by (rule Cons.IH [OF l'(2)]) (use Cons.prems(2) in simp)
  then show ?case using l' by (simp add: reads_def)
qed

lemma reads_string:
  assumes "rest_of l = lexeme_text (Str rs) @ rest" "list_all valid_rune rs"
  shows "reads l (TokenString, encode_all rs) rest (scanString l)"
proof -
  have "rest_of l = char_of (34 :: nat) # (quote rs @ char_of (34 :: nat) # rest)" using assms(1) by simp
  from at_byte(3) [OF this] have "rest_of (lx_advance l) = quote rs @ char_of (34 :: nat) # rest" by simp
  from scanString_quote [OF this assms(2), of "[]"] show ?thesis
    by (simp add: scanString_def reads_def)
qed

lemma peek_hd: "rest_of l \<noteq> [] \<Longrightarrow> byte (hd (rest_of l)) < 128 \<Longrightarrow> peek l = byte (hd (rest_of l))"
  using at_byte(2) [of l "hd (rest_of l)" "tl (rest_of l)"] by simp

lemma rest_advance:
  "rest_of l \<noteq> [] \<Longrightarrow> byte (hd (rest_of l)) < 128 \<Longrightarrow> rest_of (lx_advance l) = tl (rest_of l)"
  using at_byte(3) [of l "hd (rest_of l)" "tl (rest_of l)"] by simp

lemma punct_text:
  "TokenType_String TokenLBrace = ''{''" "TokenType_String TokenRBrace = ''}''" "TokenType_String TokenLBracket = ''[''"
  "TokenType_String TokenRBracket = '']''" "TokenType_String TokenLParen = ''(''" "TokenType_String TokenRParen = '')''"
  "TokenType_String TokenComma = '',''" "TokenType_String TokenDot = ''.''" "TokenType_String TokenColon = '':''"
  "TokenType_String TokenEqual = ''==''" "TokenType_String TokenNotEqual = ''!=''" "TokenType_String TokenGreater = ''>''"
  "TokenType_String TokenGreaterEq = ''>=''" "TokenType_String TokenLess = ''<''" "TokenType_String TokenLessEq = ''<=''"
  by (simp_all add: TokenType_String_def tokenNames_def)

lemma scan_punct:
  assumes "lexeme_ok IsLetter IsDigit (Punct t)" "rest_of l = TokenType_String t @ CHR '' '' # rest"
  shows "reads l (t, TokenType_String t) (CHR '' '' # rest) (scanToken IsLetter IsDigit l)"
  using assms(2) assms(1) [unfolded lexeme_ok.simps list.set insert_iff empty_iff]
  by (elim disjE)
    (simp_all add: punct_text scanToken_def Let_def peek_hd rest_advance byte_def reads_def single_def
      makeToken_def isDigit_def)

lemma ident_start_ascii:
  assumes "isIdentStart IsLetter r" "ascii_tables IsLetter IsDigit"
  shows "r \<notin> {9, 10, 13, 32, 33, 34, 35, 40, 41, 44, 45, 46, 47, 58, 60, 61, 62, 91, 93, 123, 125} \<and> \<not> isDigit r"
proof (cases "r < 128")
  case True
  with assms have "65 \<le> r \<and> r \<le> 90 \<or> 97 \<le> r \<and> r \<le> 122 \<or> r = 95"
    by (auto simp: isIdentStart_def ascii_tables_def)
  then show ?thesis by (auto simp: isDigit_def)
qed (auto simp: isDigit_def)

lemma scan_word:
  assumes "isIdentStart IsLetter (peek l)" "ascii_tables IsLetter IsDigit"
  shows "scanToken IsLetter IsDigit l = scanIdentOrKeyword IsLetter IsDigit l"
  using ident_start_ascii [OF assms] assms(1) by (simp add: scanToken_def Let_def)

lemma scan_number:
  assumes "isDigit (peek l) \<or> peek l = 45 \<and> isDigit (peekAt 1 l)"
  shows "scanToken IsLetter IsDigit l = scanNumber l"
proof -
  have "peek l \<notin> {10, 123, 125, 91, 93, 40, 41, 44, 46, 34}" "isDigit (peekAt 1 l) \<Longrightarrow> peekAt 1 l \<noteq> 0"
    using assms by (auto simp: isDigit_def)
  with assms show ?thesis by (auto simp: scanToken_def Let_def)
qed

lemma scan_string: "peek l = 34 \<Longrightarrow> scanToken IsLetter IsDigit l = scanString l"
  by (simp add: scanToken_def)

lemma scan_lexeme:
  assumes ok: "lexeme_ok IsLetter IsDigit x" and tab: "ascii_tables IsLetter IsDigit"
    and at: "rest_of l = lexeme_text x @ CHR '' '' # rest" "lx_start l = lx_pos l"
  shows "reads l (lexeme_token x) (CHR '' '' # rest) (scanToken IsLetter IsDigit l)"
proof (cases x)
  case (Punct t)
  with ok at(1) scan_punct show ?thesis by simp
next
  case (Word rs)
  then obtain r rs' where rs: "rs = r # rs'" "valid_rune r" "isIdentStart IsLetter r" "list_all valid_rune rs"
      "list_all (isIdentPart IsLetter IsDigit) rs"
    using ok by (cases rs) auto
  have "rest_of l = EncodeRune r @ (encode_all rs' @ CHR '' '' # rest)" using at(1) Word rs(1) by simp
  from at_rune(2) [OF this rs(2)] rs(3) have "scanToken IsLetter IsDigit l = scanIdentOrKeyword IsLetter IsDigit l"
    using scan_word [OF _ tab] by simp
  moreover have "rest_of l = encode_all rs @ CHR '' '' # rest" using at(1) Word by simp
  ultimately show ?thesis using reads_word [OF _ at(2) rs(4,5) tab] Word by simp
next
  case (Number s)
  then obtain c cs where s: "s = c # cs" "list_all number_byte s"
      "isDigit (byte c) \<or> byte c = 45 \<and> cs \<noteq> [] \<and> isDigit (byte (hd cs))"
    using ok by (cases s) auto
  have r: "rest_of l = c # (cs @ CHR '' '' # rest)" using at(1) Number s(1) by simp
  have c: "byte c < 128" using s(3) by (auto simp: isDigit_def)
  note p = at_byte [OF r c]
  have "isDigit (peekAt 1 l)" if "cs \<noteq> []" "isDigit (byte (hd cs))"
  proof -
    have d: "drop (lx_pos l + 1) (lx_input l) = hd cs # (tl cs @ CHR '' '' # rest)"
      using r that(1) p(3,4) by (simp add: rest_of_def)
    then have "lx_pos l + 1 < length (lx_input l)" by (metis drop_all leI list.distinct(1))
    moreover have "byte (hd cs) < 128" using that(2) by (simp add: isDigit_def)
    ultimately show ?thesis using d that(2) by (simp add: peekAt_def)
  qed
  then have "scanToken IsLetter IsDigit l = scanNumber l"
    using s(3) p(2) by (intro scan_number) auto
  moreover have "rest_of l = s @ CHR '' '' # rest" using at(1) Number by simp
  ultimately show ?thesis using reads_number [OF _ at(2) s(2)] Number by simp
next
  case (Str rs)
  have "rest_of l = char_of (34 :: nat) # (quote rs @ char_of (34 :: nat) # CHR '' '' # rest)"
    using at(1) Str by simp
  from at_byte(2) [OF this] have "peek l = 34" by simp
  then show ?thesis
    using reads_string [of l rs "CHR '' '' # rest"] at(1) ok Str by (simp add: scan_string)
qed

text \<open>The first rune of a lexeme is no white space and does not begin a comment.\<close>

lemma lexeme_starts:
  assumes "lexeme_ok IsLetter IsDigit x" "ascii_tables IsLetter IsDigit"
  shows "lexeme_text x \<noteq> [] \<and> fst (DecodeRune (lexeme_text x @ rest)) \<notin> {32, 9, 13, 35, 47}"
proof (cases x)
  case (Punct t)
  with assms(1) [unfolded lexeme_ok.simps] show ?thesis
    by (auto simp: punct_text byte_def)
next
  case (Word rs)
  with assms(1) obtain r rs' where rs: "rs = r # rs'" "valid_rune r" "isIdentStart IsLetter r"
    by (cases rs) auto
  then show ?thesis
    using Word DecodeRune_EncodeRune [OF rs(2), of "encode_all rs' @ rest"] ident_start_ascii [OF rs(3) assms(2)]
    by simp
next
  case (Number s)
  with assms(1) show ?thesis by (cases s) (auto simp: isDigit_def)
next
  case (Str rs)
  then show ?thesis by simp
qed

definition print_lexemes :: "lexeme list \<Rightarrow> string" where
  "print_lexemes xs = concat (map (\<lambda>x. lexeme_text x @ '' '') xs)"

definition tokens_of :: "Token list \<Rightarrow> (TokenType \<times> string) list" where
  "tokens_of toks = map (\<lambda>t. (tok_Type t, tok_Literal t)) toks"

text \<open>The text that is left: what is printed, behind the space of the lexeme before it, if any.\<close>

lemma skip_to:
  assumes "rest_of l = pre @ rest" "pre = [] \<or> pre = '' ''"
    "rest = [] \<or> fst (DecodeRune rest) \<notin> {32, 9, 13, 35, 47}"
  shows "rest_of (skipWhitespaceAndComments l) = rest"
  using assms(2)
proof
  assume "pre = []"
  with assms(1,3) have "skipWhitespaceAndComments l = l"
    by (intro skip_stop) (auto simp: peek_def rest_of_def)
  then show ?thesis using assms(1) \<open>pre = []\<close> by simp
next
  assume "pre = '' ''"
  with assms(1) have "rest_of l = CHR '' '' # rest" by simp
  from skip_space [OF this assms(3)] show ?thesis by simp
qed

lemma print_starts:
  assumes "list_all (lexeme_ok IsLetter IsDigit) xs" "ascii_tables IsLetter IsDigit"
  shows "print_lexemes xs = [] \<or> fst (DecodeRune (print_lexemes xs)) \<notin> {32, 9, 13, 35, 47}"
proof (cases xs)
  case (Cons x xs')
  have "print_lexemes xs = lexeme_text x @ (CHR '' '' # print_lexemes xs')"
    using Cons by (simp add: print_lexemes_def)
  with lexeme_starts [of IsLetter IsDigit x] assms Cons show ?thesis by (metis list.pred_inject(2))
qed (simp add: print_lexemes_def)

lemma nextToken_reads:
  assumes "rest_of l = pre @ print_lexemes (x # xs)" "pre = [] \<or> pre = '' ''"
    "list_all (lexeme_ok IsLetter IsDigit) (x # xs)" and tab: "ascii_tables IsLetter IsDigit"
  shows "reads l (lexeme_token x) ('' '' @ print_lexemes xs) (nextToken IsLetter IsDigit l)"
proof -
  define k where "k = begin_token (skipWhitespaceAndComments l)"
  have "rest_of (skipWhitespaceAndComments l) = print_lexemes (x # xs)"
    by (rule skip_to [OF assms(1,2) print_starts [OF assms(3) tab]])
  then have k: "rest_of k = lexeme_text x @ CHR '' '' # print_lexemes xs" "lx_start k = lx_pos k"
    by (simp_all add: k_def begin_token_def rest_of_def print_lexemes_def)
  have "rest_of k \<noteq> []" using k(1) by simp
  then have "nextToken IsLetter IsDigit l = scanToken IsLetter IsDigit k"
    by (simp add: nextToken_def Let_def k_def begin_token_def rest_of_def)
  moreover have "reads k (lexeme_token x) (CHR '' '' # print_lexemes xs) (scanToken IsLetter IsDigit k)"
    by (rule scan_lexeme [OF _ tab k]) (use assms(3) in simp)
  moreover have "lx_input k = lx_input l" "lx_tokens k = lx_tokens l"
    using skip_step [of l] by (simp_all add: k_def begin_token_def lx_step_def)
  ultimately show ?thesis by (simp add: reads_def)
qed

lemma lexeme_not_EOF:
  assumes "lexeme_ok IsLetter IsDigit x"
  shows "fst (lexeme_token x) \<noteq> TokenEOF"
  using assms LookupKeyword_not_EOF by (cases x) (auto simp del: lexeme_ok.simps(2-4))

lemma Tokenize_loop_print:
  assumes "rest_of l = pre @ print_lexemes xs" "pre = [] \<or> pre = '' ''"
    "list_all (lexeme_ok IsLetter IsDigit) xs" "ascii_tables IsLetter IsDigit"
  shows "\<exists>toks. Tokenize_loop IsLetter IsDigit l = Inr toks \<and>
    tokens_of toks = tokens_of (lx_tokens l) @ map lexeme_token xs @ [(TokenEOF, [])]"
  using assms(1-3)
proof (induction xs arbitrary: l pre)
  case Nil
  then have "rest_of (skipWhitespaceAndComments l) = []"
    using skip_to [of l pre "[]"] by (simp add: print_lexemes_def)
  then have "nextToken IsLetter IsDigit l =
      (Inr (makeToken TokenEOF [] (skipWhitespaceAndComments l)), skipWhitespaceAndComments l)"
    by (simp add: nextToken_def Let_def rest_of_def)
  then show ?case using skip_step [of l]
    by (subst Tokenize_loop.simps) (simp add: Let_def makeToken_def lx_step_def tokens_of_def)
next
  case (Cons x xs)
  from nextToken_reads [OF Cons.prems(1,2,3) assms(4)] obtain tok l' where
    n: "nextToken IsLetter IsDigit l = (Inr tok, l')" "(tok_Type tok, tok_Literal tok) = lexeme_token x"
       "rest_of l' = '' '' @ print_lexemes xs" "lx_tokens l' = lx_tokens l"
    unfolding reads_def by blast
  define k where "k = l'\<lparr>lx_tokens := lx_tokens l' @ [tok]\<rparr>"
  have "tok_Type tok \<noteq> TokenEOF"
    using lexeme_not_EOF [of IsLetter IsDigit x] Cons.prems(3) n(2) by (metis fst_conv list.pred_inject(2))
  with n(1) have "Tokenize_loop IsLetter IsDigit l = Tokenize_loop IsLetter IsDigit k"
    by (subst Tokenize_loop.simps) (simp add: Let_def k_def)
  moreover have "rest_of k = '' '' @ print_lexemes xs" using n(3) by (simp add: k_def rest_of_def)
  ultimately show ?case
    using Cons.IH [of k "'' ''"] Cons.prems(3) n(2,4) by (auto simp: k_def tokens_of_def)
qed

text \<open>
  C6. Printing and lexing are inverse: the text of a list of lexemes, with a space behind each,
  is tokenized as exactly these lexemes followed by \<open>EOF\<close>, without an error. A word is read as
  the keyword it spells or as an identifier, and a string literal, whatever runes it holds, as
  the string its escapes stand for. The Unicode tables enter by their ASCII part only.
\<close>

theorem Tokenize_print:
  assumes "ascii_tables IsLetter IsDigit" "list_all (lexeme_ok IsLetter IsDigit) xs"
  shows "\<exists>toks. Tokenize IsLetter IsDigit (print_lexemes xs) fil = Inr toks \<and>
    tokens_of toks = map lexeme_token xs @ [(TokenEOF, [])]"
  using Tokenize_loop_print [of "NewLexer (print_lexemes xs) fil" "[]" xs IsLetter IsDigit] assms
  by (simp add: Tokenize_def NewLexer_def rest_of_def tokens_of_def)

definition sample_letter :: "rune \<Rightarrow> bool" where
  "sample_letter r \<longleftrightarrow> 65 \<le> r \<and> r \<le> 90 \<or> 97 \<le> r \<and> r \<le> 122"

definition sample_lexemes :: "lexeme list" where
  "sample_lexemes = [Word [97, 103, 101, 110, 116], Str [120, 10, 34], Punct TokenLBrace, Number ''42'', Punct TokenRBrace]"

lemma sample_tables: "ascii_tables sample_letter isDigit"
  by (simp add: ascii_tables_def sample_letter_def)

theorem Tokenize_print_witness:
  "list_all (lexeme_ok sample_letter isDigit) sample_lexemes \<and>
   (\<exists>toks. Tokenize sample_letter isDigit (print_lexemes sample_lexemes) ''a.ias'' = Inr toks \<and>
     tokens_of toks = map lexeme_token sample_lexemes @ [(TokenEOF, [])])"
proof
  show ok: "list_all (lexeme_ok sample_letter isDigit) sample_lexemes"
    by (simp add: sample_lexemes_def sample_letter_def isIdentStart_def isIdentPart_def isDigit_def
      valid_rune_def byte_def)
  show "\<exists>toks. Tokenize sample_letter isDigit (print_lexemes sample_lexemes) ''a.ias'' = Inr toks \<and>
     tokens_of toks = map lexeme_token sample_lexemes @ [(TokenEOF, [])]"
    by (rule Tokenize_print [OF sample_tables ok])
qed

end
