(* ===== verification/Go_Float.thy ===== *)
theory Go_Float
  imports Go_Strings Complex_Main
begin

text \<open>
  Decimal floating point literals as \<open>strconv.ParseFloat(s, 64)\<close> reads them: the value is the
  float64 nearest to the decimal, ties to even, and a value beyond the largest finite float64 is
  an error. A float64 is represented by its rational value. Only the decimal form without an
  exponent is modelled; the lexer puts nothing else into a number token.
\<close>

type_synonym float64 = rat

fun log2_nat :: "nat \<Rightarrow> nat" where
  "log2_nat n = (if n < 2 then 0 else Suc (log2_nat (n div 2)))"

declare log2_nat.simps [simp del]

definition pow2 :: "int \<Rightarrow> rat" where
  "pow2 e = (if 0 \<le> e then 2 ^ nat e else 1 / 2 ^ nat (- e))"

text \<open>The exponent of the last of the 53 bits of a positive value, not below that of subnormals.\<close>

definition last_bit :: "rat \<Rightarrow> int" where
  "last_bit x =
     (let (n, d) = quotient_of x;
          e = int (log2_nat (nat n)) - int (log2_nat (nat d));
          e = (if x < pow2 e then e - 1 else e)
      in max (-1074) (e - 52))"

definition round_half_even :: "rat \<Rightarrow> int" where
  "round_half_even x =
     (let f = \<lfloor>x\<rfloor>; r = x - of_int f
      in if r < 1 / 2 then f else if 1 / 2 < r then f + 1 else if even f then f else f + 1)"

definition round_float64 :: "rat \<Rightarrow> float64" where
  "round_float64 x =
     (if x = 0 then 0
      else let u = pow2 (last_bit \<bar>x\<bar>) in sgn x * of_int (round_half_even (\<bar>x\<bar> / u)) * u)"

definition max_float64 :: float64 where
  "max_float64 = (2 ^ 53 - 1) * 2 ^ 971"

definition ParseFloat :: "string \<Rightarrow> float64 option" where
  "ParseFloat s =
     (let neg = HasPrefix s ''-'';
          ds = (if HasPrefix s ''-'' \<or> HasPrefix s ''+'' then tl s else s);
          (ip, rest) = cut_at (CHR ''.'') ds;
          fp = (case rest of None \<Rightarrow> [] | Some r \<Rightarrow> r)
      in if ip @ fp = [] \<or> \<not> list_all is_digit (ip @ fp) then None
         else let v = round_float64 (of_nat (digits_value 0 (ip @ fp)) / 10 ^ length fp)
              in if max_float64 < v then None else Some (if neg then - v else v))"

end
