(* ===== verification/AST.thy ===== *)
theory AST
  imports Go_Strings Go_Float
begin

text \<open>
  The syntax tree of \<open>internal/ast/ast.go\<close>: a record per struct, with the fields in the order
  of the source, and a datatype per interface. A pointer is an option, a slice a list; a map
  that may be nil is an option of a map. A name that another component also uses for a type
  carries the prefix \<open>ast_\<close>, the package name of the source.
\<close>

record Pos =
  pos_File :: string
  pos_Line :: int
  pos_Column :: int

record ast_Import =
  aim_Path :: string
  aim_Version :: string
  aim_SHA :: string
  aim_Alias :: string
  aim_StartPos :: Pos
  aim_EndPos :: Pos

record PluginRef =
  plr_Name :: string
  plr_Version :: string
  plr_HooksOrder :: "string list"
  plr_StartPos :: Pos
  plr_EndPos :: Pos

record ast_Package =
  apk_Name :: string
  apk_Version :: string
  apk_LangVersion :: string
  apk_Description :: string
  apk_Imports :: "ast_Import list"
  apk_Plugins :: "PluginRef list"
  apk_StartPos :: Pos
  apk_EndPos :: Pos

record Ref =
  ref_Kind :: string
  ref_Name :: string
  ref_Package :: string
  ref_StartPos :: Pos
  ref_EndPos :: Pos

record MemoryConfig =
  mem_Strategy :: string
  mem_MaxMessages :: int
  mem_StartPos :: Pos
  mem_EndPos :: Pos

record Delegate =
  del_AgentRef :: string
  del_Condition :: string
  del_StartPos :: Pos
  del_EndPos :: Pos

record ConfigParam =
  cp_Name :: string
  cp_Type :: string
  cp_Description :: string
  cp_Required :: bool
  cp_Secret :: bool
  cp_Default :: string
  cp_HasDefault :: bool
  cp_StartPos :: Pos
  cp_EndPos :: Pos

record ValidationRule =
  vr_Name :: string
  vr_Severity :: string
  vr_MaxRetries :: int
  vr_Message :: string
  vr_Expression :: string
  vr_StartPos :: Pos
  vr_EndPos :: Pos

record EvalCase =
  ec_Name :: string
  ec_Input :: string
  ec_Expected :: string
  ec_Scoring :: string
  ec_Threshold :: float64
  ec_Tags :: "string list"
  ec_StartPos :: Pos
  ec_EndPos :: Pos

text \<open>The statements of an \<open>on input\<close> block, which nest.\<close>

datatype OnInputStmt =
    UseSkillStmt (use_SkillName: string) (use_Params: "(string, string) gomap option") (use_StartPos: Pos) (use_EndPos: Pos)
  | DelegateToStmt (dlt_AgentName: string) (dlt_StartPos: Pos) (dlt_EndPos: Pos)
  | RespondStmt (rsp_Expression: string) (rsp_StartPos: Pos) (rsp_EndPos: Pos)
  | IfBlock (if_Condition: string) (if_Body: "OnInputStmt list") (if_ElseIfs: "ElseIfClause list")
      (if_ElseBody: "OnInputStmt list") (if_StartPos: Pos) (if_EndPos: Pos)
  | ForEachBlock (for_Variable: string) (for_Collection: string) (for_Body: "OnInputStmt list")
      (for_StartPos: Pos) (for_EndPos: Pos)
and ElseIfClause =
    ElseIfClause (elif_Condition: string) (elif_Body: "OnInputStmt list") (elif_StartPos: Pos) (elif_EndPos: Pos)

record OnInputBlock =
  oib_Statements :: "OnInputStmt list"
  oib_StartPos :: Pos
  oib_EndPos :: Pos

record Agent =
  ag_Name :: string
  ag_Prompt :: "Ref option"
  ag_Skills :: "Ref list"
  ag_Model :: string
  ag_Parameters :: "(string, string) gomap"
  ag_Client :: "Ref option"
  ag_Metadata :: "(string, string) gomap"
  ag_Strategy :: string
  ag_MaxTurns :: int
  ag_Timeout :: string
  ag_TokenBudget :: int
  ag_Temperature :: float64
  ag_HasTemp :: bool
  ag_Stream :: "bool option"
  ag_OnError :: string
  ag_MaxRetries :: int
  ag_Fallback :: string
  ag_MemoryCfg :: "MemoryConfig option"
  ag_Delegates :: "Delegate list"
  ag_Models :: "string list"
  ag_BudgetDaily :: float64
  ag_BudgetMonthly :: float64
  ag_GuardrailRefs :: "string list"
  ag_ConfigParams :: "ConfigParam list"
  ag_ValidationRules :: "ValidationRule list"
  ag_EvalCases :: "EvalCase list"
  ag_OnInput :: "OnInputBlock option"
  ag_StartPos :: Pos
  ag_EndPos :: Pos

record Variable =
  var_Name :: string
  var_Type :: string
  var_Default :: string
  var_Required :: bool
  var_StartPos :: Pos
  var_EndPos :: Pos

record Prompt =
  pr_Name :: string
  pr_Content :: string
  pr_Variables :: "Variable list"
  pr_Version :: string
  pr_Metadata :: "(string, string) gomap"
  pr_StartPos :: Pos
  pr_EndPos :: Pos

record Field =
  fld_Name :: string
  fld_Type :: string
  fld_Required :: bool
  fld_StartPos :: Pos
  fld_EndPos :: Pos

record Execution =
  exe_Type :: string
  exe_Value :: string
  exe_Args :: "string list"
  exe_StartPos :: Pos
  exe_EndPos :: Pos

record ToolConfig =
  tc_Type :: string
  tc_ServerTool :: string
  tc_Method :: string
  tc_URL :: string
  tc_Headers :: "(string, string) gomap option"
  tc_BodyTemplate :: string
  tc_Binary :: string
  tc_Args :: "string list"
  tc_Timeout :: string
  tc_Env :: "(string, string) gomap option"
  tc_Secrets :: "(string, string) gomap option"
  tc_Language :: string
  tc_Code :: string
  tc_MemoryLimit :: string
  tc_StartPos :: Pos
  tc_EndPos :: Pos

record Skill =
  sk_Name :: string
  sk_Description :: string
  sk_Input :: "Field list"
  sk_Output :: "Field list"
  sk_Execution :: "Execution option"
  sk_ToolConfig :: "ToolConfig option"
  sk_Metadata :: "(string, string) gomap"
  sk_StartPos :: Pos
  sk_EndPos :: Pos

record MCPServer =
  srv_Name :: string
  srv_Transport :: string
  srv_Command :: string
  srv_Args :: "string list"
  srv_URL :: string
  srv_Auth :: "Ref option"
  srv_Skills :: "Ref list"
  srv_Env :: "(string, string) gomap"
  srv_Metadata :: "(string, string) gomap"
  srv_StartPos :: Pos
  srv_EndPos :: Pos

record MCPClient =
  cli_Name :: string
  cli_Servers :: "Ref list"
  cli_Metadata :: "(string, string) gomap"
  cli_StartPos :: Pos
  cli_EndPos :: Pos

record Override =
  ovr_Resource :: string
  ovr_Attribute :: string
  ovr_Value :: string
  ovr_StartPos :: Pos
  ovr_EndPos :: Pos

record Environment =
  env_Name :: string
  env_Overrides :: "Override list"
  env_StartPos :: Pos
  env_EndPos :: Pos

record Secret =
  sec_Name :: string
  sec_Source :: string
  sec_Key :: string
  sec_StartPos :: Pos
  sec_EndPos :: Pos

record ast_Rule =
  rul_Action :: string
  rul_Resource :: string
  rul_Subject :: string
  rul_StartPos :: Pos
  rul_EndPos :: Pos

record ast_Policy =
  apl_Name :: string
  apl_Rules :: "ast_Rule list"
  apl_StartPos :: Pos
  apl_EndPos :: Pos

record ast_Binding =
  abd_Name :: string
  abd_Adapter :: string
  abd_Default :: bool
  abd_Config :: "(string, string) gomap"
  abd_StartPos :: Pos
  abd_EndPos :: Pos

record Plugin =
  plg_Name :: string
  plg_Version :: string
  plg_StartPos :: Pos
  plg_EndPos :: Pos

record ResourceLimits =
  rl_CPU :: string
  rl_Memory :: string
  rl_StartPos :: Pos
  rl_EndPos :: Pos

record HealthConfig =
  hc_Path :: string
  hc_Interval :: string
  hc_Timeout :: string
  hc_StartPos :: Pos
  hc_EndPos :: Pos

record AutoscaleConfig =
  ac_MinReplicas :: int
  ac_MaxReplicas :: int
  ac_Metric :: string
  ac_Target :: int
  ac_StartPos :: Pos
  ac_EndPos :: Pos

record ast_DeployTarget =
  adt_Name :: string
  adt_Target :: string
  adt_Default :: bool
  adt_Port :: int
  adt_Namespace :: string
  adt_Replicas :: int
  adt_Image :: string
  adt_Resources :: "ResourceLimits option"
  adt_Health :: "HealthConfig option"
  adt_Autoscale :: "AutoscaleConfig option"
  adt_Env :: "(string, string) gomap"
  adt_Secrets :: "(string, string) gomap"
  adt_StartPos :: Pos
  adt_EndPos :: Pos

record User =
  usr_Name :: string
  usr_KeyRef :: string
  usr_Agents :: "string list"
  usr_Role :: string
  usr_StartPos :: Pos
  usr_EndPos :: Pos

record Guardrail =
  gr_Name :: string
  gr_Mode :: string
  gr_Keywords :: "string list"
  gr_Patterns :: "string list"
  gr_FallbackMsg :: string
  gr_StartPos :: Pos
  gr_EndPos :: Pos

record ast_StateConfig =
  ast_Name :: string
  ast_Type :: string
  ast_Properties :: "(string, string) gomap"
  ast_StartPos :: Pos
  ast_EndPos :: Pos

record TypeField =
  tf_Name :: string
  tf_Type :: string
  tf_Required :: bool
  tf_Default :: string
  tf_StartPos :: Pos
  tf_EndPos :: Pos

record TypeDef =
  td_Name :: string
  td_Fields :: "TypeField list"
  td_EnumVals :: "string list"
  td_ListOf :: string
  td_StartPos :: Pos
  td_EndPos :: Pos

record PipelineStep =
  pst_Name :: string
  pst_Agent :: string
  pst_Input :: string
  pst_Output :: string
  pst_DependsOn :: "string list"
  pst_Parallel :: bool
  pst_When :: string
  pst_StartPos :: Pos
  pst_EndPos :: Pos

record Pipeline =
  pl_Name :: string
  pl_Steps :: "PipelineStep list"
  pl_StartPos :: Pos
  pl_EndPos :: Pos

datatype Statement =
    StmtPackage ast_Package
  | StmtImport ast_Import
  | StmtPluginRef PluginRef
  | StmtAgent Agent
  | StmtPrompt Prompt
  | StmtSkill Skill
  | StmtMCPServer MCPServer
  | StmtMCPClient MCPClient
  | StmtEnvironment Environment
  | StmtSecret Secret
  | StmtPolicy ast_Policy
  | StmtBinding ast_Binding
  | StmtPlugin Plugin
  | StmtDeployTarget ast_DeployTarget
  | StmtUser User
  | StmtGuardrail Guardrail
  | StmtStateConfig ast_StateConfig
  | StmtTypeDef TypeDef
  | StmtPipeline Pipeline

record File =
  file_Path :: string
  file_Package :: "ast_Package option"
  file_Statements :: "Statement list"
  file_StartPos :: Pos
  file_EndPos :: Pos

text \<open>
  A fresh node: the composite literal of the source, with a start position, an empty map for a
  map the parser allocates, and the zero value of every other field.
\<close>

definition zero_Pos :: Pos where
  "zero_Pos = \<lparr>pos_File = [], pos_Line = 0, pos_Column = 0\<rparr>"

definition new_ast_Package :: "Pos \<Rightarrow> ast_Package" where
  "new_ast_Package startPos =
     \<lparr>apk_Name = [], apk_Version = [], apk_LangVersion = [], apk_Description = [],
      apk_Imports = [], apk_Plugins = [], apk_StartPos = startPos, apk_EndPos = zero_Pos\<rparr>"

definition new_ast_Import :: "Pos \<Rightarrow> ast_Import" where
  "new_ast_Import startPos =
     \<lparr>aim_Path = [], aim_Version = [], aim_SHA = [], aim_Alias = [], aim_StartPos = startPos,
      aim_EndPos = zero_Pos\<rparr>"

definition new_Agent :: "Pos \<Rightarrow> Agent" where
  "new_Agent startPos =
     \<lparr>ag_Name = [], ag_Prompt = None, ag_Skills = [], ag_Model = [], ag_Parameters = [],
      ag_Client = None, ag_Metadata = [], ag_Strategy = [], ag_MaxTurns = 0, ag_Timeout = [],
      ag_TokenBudget = 0, ag_Temperature = 0, ag_HasTemp = False, ag_Stream = None, ag_OnError = [],
      ag_MaxRetries = 0, ag_Fallback = [], ag_MemoryCfg = None, ag_Delegates = [], ag_Models = [],
      ag_BudgetDaily = 0, ag_BudgetMonthly = 0, ag_GuardrailRefs = [], ag_ConfigParams = [],
      ag_ValidationRules = [], ag_EvalCases = [], ag_OnInput = None, ag_StartPos = startPos,
      ag_EndPos = zero_Pos\<rparr>"

definition new_Prompt :: "Pos \<Rightarrow> Prompt" where
  "new_Prompt startPos =
     \<lparr>pr_Name = [], pr_Content = [], pr_Variables = [], pr_Version = [], pr_Metadata = [],
      pr_StartPos = startPos, pr_EndPos = zero_Pos\<rparr>"

definition new_Variable :: "Pos \<Rightarrow> Variable" where
  "new_Variable startPos =
     \<lparr>var_Name = [], var_Type = [], var_Default = [], var_Required = False,
      var_StartPos = startPos, var_EndPos = zero_Pos\<rparr>"

definition new_Skill :: "Pos \<Rightarrow> Skill" where
  "new_Skill startPos =
     \<lparr>sk_Name = [], sk_Description = [], sk_Input = [], sk_Output = [], sk_Execution = None,
      sk_ToolConfig = None, sk_Metadata = [], sk_StartPos = startPos, sk_EndPos = zero_Pos\<rparr>"

definition new_Field :: "Pos \<Rightarrow> Field" where
  "new_Field startPos =
     \<lparr>fld_Name = [], fld_Type = [], fld_Required = False, fld_StartPos = startPos,
      fld_EndPos = zero_Pos\<rparr>"

definition new_Execution :: "Pos \<Rightarrow> Execution" where
  "new_Execution startPos =
     \<lparr>exe_Type = [], exe_Value = [], exe_Args = [], exe_StartPos = startPos,
      exe_EndPos = zero_Pos\<rparr>"

definition new_MCPServer :: "Pos \<Rightarrow> MCPServer" where
  "new_MCPServer startPos =
     \<lparr>srv_Name = [], srv_Transport = [], srv_Command = [], srv_Args = [], srv_URL = [],
      srv_Auth = None, srv_Skills = [], srv_Env = [], srv_Metadata = [], srv_StartPos = startPos,
      srv_EndPos = zero_Pos\<rparr>"

definition new_MCPClient :: "Pos \<Rightarrow> MCPClient" where
  "new_MCPClient startPos =
     \<lparr>cli_Name = [], cli_Servers = [], cli_Metadata = [], cli_StartPos = startPos,
      cli_EndPos = zero_Pos\<rparr>"

definition new_Environment :: "Pos \<Rightarrow> Environment" where
  "new_Environment startPos =
     \<lparr>env_Name = [], env_Overrides = [], env_StartPos = startPos, env_EndPos = zero_Pos\<rparr>"

definition new_Override :: "Pos \<Rightarrow> Override" where
  "new_Override startPos =
     \<lparr>ovr_Resource = [], ovr_Attribute = [], ovr_Value = [], ovr_StartPos = startPos,
      ovr_EndPos = zero_Pos\<rparr>"

definition new_Secret :: "Pos \<Rightarrow> Secret" where
  "new_Secret startPos =
     \<lparr>sec_Name = [], sec_Source = [], sec_Key = [], sec_StartPos = startPos,
      sec_EndPos = zero_Pos\<rparr>"

definition new_ast_Policy :: "Pos \<Rightarrow> ast_Policy" where
  "new_ast_Policy startPos =
     \<lparr>apl_Name = [], apl_Rules = [], apl_StartPos = startPos, apl_EndPos = zero_Pos\<rparr>"

definition new_ast_Rule :: "Pos \<Rightarrow> ast_Rule" where
  "new_ast_Rule startPos =
     \<lparr>rul_Action = [], rul_Resource = [], rul_Subject = [], rul_StartPos = startPos,
      rul_EndPos = zero_Pos\<rparr>"

definition new_ast_Binding :: "Pos \<Rightarrow> ast_Binding" where
  "new_ast_Binding startPos =
     \<lparr>abd_Name = [], abd_Adapter = [], abd_Default = False, abd_Config = [],
      abd_StartPos = startPos, abd_EndPos = zero_Pos\<rparr>"

definition new_Plugin :: "Pos \<Rightarrow> Plugin" where
  "new_Plugin startPos =
     \<lparr>plg_Name = [], plg_Version = [], plg_StartPos = startPos, plg_EndPos = zero_Pos\<rparr>"

definition new_Ref :: "Pos \<Rightarrow> Ref" where
  "new_Ref startPos =
     \<lparr>ref_Kind = [], ref_Name = [], ref_Package = [], ref_StartPos = startPos,
      ref_EndPos = zero_Pos\<rparr>"

definition new_ToolConfig :: "Pos \<Rightarrow> ToolConfig" where
  "new_ToolConfig startPos =
     \<lparr>tc_Type = [], tc_ServerTool = [], tc_Method = [], tc_URL = [], tc_Headers = None,
      tc_BodyTemplate = [], tc_Binary = [], tc_Args = [], tc_Timeout = [], tc_Env = None,
      tc_Secrets = None, tc_Language = [], tc_Code = [], tc_MemoryLimit = [], tc_StartPos = startPos,
      tc_EndPos = zero_Pos\<rparr>"

definition new_ast_DeployTarget :: "Pos \<Rightarrow> ast_DeployTarget" where
  "new_ast_DeployTarget startPos =
     \<lparr>adt_Name = [], adt_Target = [], adt_Default = False, adt_Port = 0, adt_Namespace = [],
      adt_Replicas = 0, adt_Image = [], adt_Resources = None, adt_Health = None, adt_Autoscale = None,
      adt_Env = [], adt_Secrets = [], adt_StartPos = startPos, adt_EndPos = zero_Pos\<rparr>"

definition new_MemoryConfig :: "Pos \<Rightarrow> MemoryConfig" where
  "new_MemoryConfig startPos =
     \<lparr>mem_Strategy = [], mem_MaxMessages = 0, mem_StartPos = startPos,
      mem_EndPos = zero_Pos\<rparr>"

definition new_HealthConfig :: "Pos \<Rightarrow> HealthConfig" where
  "new_HealthConfig startPos =
     \<lparr>hc_Path = [], hc_Interval = [], hc_Timeout = [], hc_StartPos = startPos,
      hc_EndPos = zero_Pos\<rparr>"

definition new_AutoscaleConfig :: "Pos \<Rightarrow> AutoscaleConfig" where
  "new_AutoscaleConfig startPos =
     \<lparr>ac_MinReplicas = 0, ac_MaxReplicas = 0, ac_Metric = [], ac_Target = 0,
      ac_StartPos = startPos, ac_EndPos = zero_Pos\<rparr>"

definition new_ResourceLimits :: "Pos \<Rightarrow> ResourceLimits" where
  "new_ResourceLimits startPos =
     \<lparr>rl_CPU = [], rl_Memory = [], rl_StartPos = startPos, rl_EndPos = zero_Pos\<rparr>"

definition new_User :: "Pos \<Rightarrow> User" where
  "new_User startPos =
     \<lparr>usr_Name = [], usr_KeyRef = [], usr_Agents = [], usr_Role = [], usr_StartPos = startPos,
      usr_EndPos = zero_Pos\<rparr>"

definition new_Guardrail :: "Pos \<Rightarrow> Guardrail" where
  "new_Guardrail startPos =
     \<lparr>gr_Name = [], gr_Mode = [], gr_Keywords = [], gr_Patterns = [], gr_FallbackMsg = [],
      gr_StartPos = startPos, gr_EndPos = zero_Pos\<rparr>"

definition new_ast_StateConfig :: "Pos \<Rightarrow> ast_StateConfig" where
  "new_ast_StateConfig startPos =
     \<lparr>ast_Name = [], ast_Type = [], ast_Properties = [], ast_StartPos = startPos,
      ast_EndPos = zero_Pos\<rparr>"

definition new_Delegate :: "Pos \<Rightarrow> Delegate" where
  "new_Delegate startPos =
     \<lparr>del_AgentRef = [], del_Condition = [], del_StartPos = startPos,
      del_EndPos = zero_Pos\<rparr>"

definition new_TypeDef :: "Pos \<Rightarrow> TypeDef" where
  "new_TypeDef startPos =
     \<lparr>td_Name = [], td_Fields = [], td_EnumVals = [], td_ListOf = [], td_StartPos = startPos,
      td_EndPos = zero_Pos\<rparr>"

definition new_TypeField :: "Pos \<Rightarrow> TypeField" where
  "new_TypeField startPos =
     \<lparr>tf_Name = [], tf_Type = [], tf_Required = False, tf_Default = [], tf_StartPos = startPos,
      tf_EndPos = zero_Pos\<rparr>"

definition new_Pipeline :: "Pos \<Rightarrow> Pipeline" where
  "new_Pipeline startPos =
     \<lparr>pl_Name = [], pl_Steps = [], pl_StartPos = startPos, pl_EndPos = zero_Pos\<rparr>"

definition new_PipelineStep :: "Pos \<Rightarrow> PipelineStep" where
  "new_PipelineStep startPos =
     \<lparr>pst_Name = [], pst_Agent = [], pst_Input = [], pst_Output = [], pst_DependsOn = [],
      pst_Parallel = False, pst_When = [], pst_StartPos = startPos, pst_EndPos = zero_Pos\<rparr>"

definition new_ConfigParam :: "Pos \<Rightarrow> ConfigParam" where
  "new_ConfigParam startPos =
     \<lparr>cp_Name = [], cp_Type = [], cp_Description = [], cp_Required = False, cp_Secret = False,
      cp_Default = [], cp_HasDefault = False, cp_StartPos = startPos, cp_EndPos = zero_Pos\<rparr>"

definition new_ValidationRule :: "Pos \<Rightarrow> ValidationRule" where
  "new_ValidationRule startPos =
     \<lparr>vr_Name = [], vr_Severity = [], vr_MaxRetries = 0, vr_Message = [], vr_Expression = [],
      vr_StartPos = startPos, vr_EndPos = zero_Pos\<rparr>"

definition new_EvalCase :: "Pos \<Rightarrow> EvalCase" where
  "new_EvalCase startPos =
     \<lparr>ec_Name = [], ec_Input = [], ec_Expected = [], ec_Scoring = [], ec_Threshold = 0,
      ec_Tags = [], ec_StartPos = startPos, ec_EndPos = zero_Pos\<rparr>"

definition new_OnInputBlock :: "Pos \<Rightarrow> OnInputBlock" where
  "new_OnInputBlock startPos =
     \<lparr>oib_Statements = [], oib_StartPos = startPos, oib_EndPos = zero_Pos\<rparr>"

end
