(* ===== verification/Parser_Base.thy ===== *)
theory Parser_Base
  imports Lexer AST
begin

text \<open>
  The state of the parser (\<open>internal/parser/parser.go\<close>), its token navigation and its loops.
  A loop of the source is \<open>ploop\<close>, a \<open>partial_function\<close> whose value is \<open>None\<close> when it does
  not end; the rules at the end of this theory show of a parsing function that it returns, that
  it only moves forward over the tokens, and that the errors it adds are in source order.
\<close>

subsection \<open>State\<close>

record ParseError =
  err_File :: string
  err_Line :: int
  err_Column :: int
  err_Message :: message
  err_Hint :: string

record Parser =
  par_tokens :: "Token list"
  par_pos :: nat
  par_file :: string
  par_errors :: "ParseError list"
  par_names :: "(string, (string, bool) gomap) gomap"

subsection \<open>Token navigation\<close>

text \<open>The token at an index: past the end it is an \<open>EOF\<close> without a position.\<close>

definition token_number :: "nat \<Rightarrow> Parser \<Rightarrow> Token" where
  "token_number i p =
     (if i \<ge> length (par_tokens p)
      then \<lparr>tok_Type = TokenEOF, tok_Literal = [], tok_File = par_file p, tok_Line = 0, tok_Column = 0\<rparr>
      else par_tokens p ! i)"

definition current :: "Parser \<Rightarrow> Token" where
  "current p = token_number (par_pos p) p"

abbreviation currentType :: "Parser \<Rightarrow> string" where
  "currentType p \<equiv> TokenType_String (tok_Type (current p))"

abbreviation literal :: "Parser \<Rightarrow> string" where
  "literal p \<equiv> tok_Literal (current p)"

definition check :: "TokenType \<Rightarrow> Parser \<Rightarrow> bool" where
  "check t p \<longleftrightarrow> tok_Type (current p) = t"

text \<open>The token \<open>advance\<close> returns is the current one; only the move is modelled here.\<close>

definition advance :: "Parser \<Rightarrow> Parser" where
  "advance p = (if par_pos p < length (par_tokens p) then p\<lparr>par_pos := par_pos p + 1\<rparr> else p)"

definition isAtEnd :: "Parser \<Rightarrow> bool" where
  "isAtEnd p \<longleftrightarrow> tok_Type (current p) = TokenEOF"

definition currentPos :: "Parser \<Rightarrow> Pos" where
  "currentPos p =
     (let tok = current p
      in \<lparr>pos_File = tok_File tok, pos_Line = tok_Line tok, pos_Column = tok_Column tok\<rparr>)"

definition addError :: "message \<Rightarrow> string \<Rightarrow> Parser \<Rightarrow> Parser" where
  "addError msg hint p =
     (let tok = current p
      in p\<lparr>par_errors := par_errors p @
            [\<lparr>err_File = tok_File tok, err_Line = tok_Line tok, err_Column = tok_Column tok,
              err_Message = msg, err_Hint = hint\<rparr>]\<rparr>)"

definition expect :: "TokenType \<Rightarrow> Parser \<Rightarrow> Parser" where
  "expect t p =
     advance (if check t p then p
              else addError (Text (''expected '' @ TokenType_String t @ '', got '' @ currentType p)) [] p)"

lemma not_at_end: "\<not> isAtEnd p \<Longrightarrow> par_pos p < length (par_tokens p)"
  by (rule ccontr) (simp add: isAtEnd_def current_def token_number_def)

function skipNewlines :: "Parser \<Rightarrow> Parser" where
  "skipNewlines p = (if check TokenNewline p then skipNewlines (advance p) else p)"
  by pat_completeness auto

lemma newline_not_end: "check TokenNewline p \<Longrightarrow> par_pos p < length (par_tokens p)"
  by (rule not_at_end) (simp add: check_def isAtEnd_def)

termination skipNewlines
  by (relation "measure (\<lambda>p. length (par_tokens p) - par_pos p)")
    (auto simp: advance_def dest: newline_not_end)

declare skipNewlines.simps [simp del]

definition expectToken :: "TokenType \<Rightarrow> Parser \<Rightarrow> Parser" where
  "expectToken t p =
     (let p = skipNewlines p in
      if \<not> check t p then addError (Text (''expected '' @ TokenType_String t @ '', got '' @ currentType p)) [] p
      else advance p)"

definition expectString :: "string \<Rightarrow> Parser \<Rightarrow> string \<times> Parser" where
  "expectString ctx p =
     (if check TokenString p then (literal p, advance p)
      else let p = addError (Text (''expected string for '' @ ctx @ '', got '' @ currentType p)) [] p
           in if \<not> isAtEnd p then (literal p, advance p) else ([], p))"

definition expectStringOrIdent :: "string \<Rightarrow> Parser \<Rightarrow> string \<times> Parser" where
  "expectStringOrIdent ctx p =
     (if check TokenString p \<or> check TokenIdent p then (literal p, advance p)
      else if tok_Type (current p) \<ge> TokenPackage then (literal p, advance p)
      else let p = addError (Text (''expected string or identifier for '' @ ctx @ '', got '' @ currentType p)) [] p
           in if \<not> isAtEnd p then (literal p, advance p) else ([], p))"

text \<open>\<open>strconv.Atoi\<close> with its error: \<open>None\<close> for a literal that is no 64-bit decimal integer.\<close>

definition Atoi_checked :: "string \<Rightarrow> int option" where
  "Atoi_checked s =
     (let neg = HasPrefix s ''-'';
          ds = (if HasPrefix s ''-'' \<or> HasPrefix s ''+'' then tl s else s);
          n = (if neg then - int (digits_value 0 ds) else int (digits_value 0 ds))
      in if ds = [] \<or> \<not> list_all is_digit ds \<or> n < min_int \<or> max_int < n then None else Some n)"

definition skip_unexpected :: "string \<Rightarrow> string \<Rightarrow> Parser \<Rightarrow> Parser" where
  "skip_unexpected what ctx p =
     (let p = addError (Text (''expected '' @ what @ '' for '' @ ctx @ '', got '' @ currentType p)) [] p
      in if \<not> isAtEnd p then advance p else p)"

definition expectInt :: "string \<Rightarrow> Parser \<Rightarrow> int \<times> Parser" where
  "expectInt ctx p =
     (if check TokenNumber p then
        let lit = literal p; p = advance p
        in case Atoi_checked lit of
             None \<Rightarrow> (0, addError (Quoted (''invalid integer for '' @ ctx @ '': '') lit) [] p)
           | Some n \<Rightarrow> (n, p)
      else (0, skip_unexpected ''number'' ctx p))"

definition expectFloat :: "string \<Rightarrow> Parser \<Rightarrow> float64 \<times> Parser" where
  "expectFloat ctx p =
     (if check TokenNumber p then
        let lit = literal p; p = advance p
        in case ParseFloat lit of
             None \<Rightarrow> (0, addError (Quoted (''invalid float for '' @ ctx @ '': '') lit) [] p)
           | Some f \<Rightarrow> (f, p)
      else (0, skip_unexpected ''number'' ctx p))"

definition expectBool :: "string \<Rightarrow> Parser \<Rightarrow> bool \<times> Parser" where
  "expectBool ctx p =
     (if check TokenTrue p then (True, advance p)
      else if check TokenFalse p then (False, advance p)
      else (False, skip_unexpected ''true/false'' ctx p))"

definition names_of :: "string \<Rightarrow> Parser \<Rightarrow> (string, bool) gomap" where
  "names_of kind p = mget0 [] (par_names p) kind"

definition registerName :: "string \<Rightarrow> string \<Rightarrow> Pos \<Rightarrow> Parser \<Rightarrow> Parser" where
  "registerName kind name pos p =
     (let p = (if mget (par_names p) kind = None then p\<lparr>par_names := mput kind [] (par_names p)\<rparr> else p);
          p = (if mget0 False (names_of kind p) name
               then addError (Quoted (''duplicate '' @ kind @ '' name '') name)
                      ''each resource must have a unique name within its kind'' p
               else p)
      in p\<lparr>par_names := mput kind (mput name True (names_of kind p)) (par_names p)\<rparr>)"

subsection \<open>Loops\<close>

text \<open>\<open>for cond { body }\<close>, where the flag the body returns is \<open>False\<close> for a \<open>break\<close>.\<close>

partial_function (option) ploop ::
  "(Parser \<Rightarrow> bool) \<Rightarrow> ('a \<Rightarrow> Parser \<Rightarrow> (('a \<times> bool) \<times> Parser) option) \<Rightarrow> 'a \<Rightarrow> Parser \<Rightarrow> ('a \<times> Parser) option"
where
  "ploop cond body a p =
     (if cond p then
        do {
          ((a, go), p) \<leftarrow> body a p;
          if go then ploop cond body a p else Some (a, p)
        }
      else Some (a, p))"

declare ploop.simps [code]

text \<open>
  The loop most blocks have: up to the closing brace or the end of the file, skip newlines, leave
  at the brace, run the switch, skip newlines.
\<close>

definition blockLoop :: "('a \<Rightarrow> Parser \<Rightarrow> ('a \<times> Parser) option) \<Rightarrow> 'a \<Rightarrow> Parser \<Rightarrow> ('a \<times> Parser) option" where
  "blockLoop switch =
     ploop (\<lambda>p. \<not> check TokenRBrace p \<and> \<not> isAtEnd p)
       (\<lambda>a p.
          let p = skipNewlines p in
          if check TokenRBrace p then Some ((a, False), p)
          else do {
            (a, p) \<leftarrow> switch a p;
            Some ((a, True), skipNewlines p)
          })"

text \<open>A block: the opening brace, the loop, the closing brace.\<close>

definition parseBlock :: "('a \<Rightarrow> Parser \<Rightarrow> ('a \<times> Parser) option) \<Rightarrow> 'a \<Rightarrow> Parser \<Rightarrow> ('a \<times> Parser) option" where
  "parseBlock switch a p =
     do {
       let p = expectToken TokenLBrace p;
       let p = skipNewlines p;
       (a, p) \<leftarrow> blockLoop switch a p;
       Some (a, expectToken TokenRBrace p)
     }"

text \<open>A word in single quotes, as the messages have it, and the default case of most switches.\<close>

definition tick :: "string \<Rightarrow> string" where
  "tick s = [CHR 0x27] @ s @ [CHR 0x27]"

definition unexpected :: "string \<Rightarrow> string \<Rightarrow> Parser \<Rightarrow> Parser" where
  "unexpected suffix hint p =
     advance (addError (Text (''unexpected token '' @ currentType p @ suffix)) hint p)"

subsection \<open>Moving forward\<close>

text \<open>
  Errors \<open>es\<close> reported between two positions: each carries the position of a token, and the
  tokens are in source order.
\<close>

definition located :: "Parser \<Rightarrow> ParseError list \<Rightarrow> nat \<Rightarrow> nat \<Rightarrow> bool" where
  "located p es lo hi \<longleftrightarrow>
     (\<exists>ks. sorted ks \<and> set ks \<subseteq> {lo..hi} \<and>
        map (\<lambda>e. (err_File e, err_Line e, err_Column e)) es =
        map (\<lambda>k. (tok_File (token_number k p), tok_Line (token_number k p), tok_Column (token_number k p))) ks)"

definition fwd :: "Parser \<Rightarrow> Parser \<Rightarrow> bool" where
  "fwd p p' \<longleftrightarrow>
     par_tokens p' = par_tokens p \<and> par_file p' = par_file p \<and> par_names p' = par_names p \<and>
     par_pos p \<le> par_pos p' \<and> par_pos p' \<le> max (par_pos p) (length (par_tokens p)) \<and>
     (\<exists>es. par_errors p' = par_errors p @ es \<and> located p es (par_pos p) (par_pos p'))"

lemma located_Nil [simp]: "located p [] lo hi"
  by (simp add: located_def)

lemma located_append:
  assumes "located p es lo mid" "located p es' mid hi" "lo \<le> mid" "mid \<le> hi"
  shows "located p (es @ es') lo hi"
proof -
  from assms obtain ks js where kj: "sorted ks" "set ks \<subseteq> {lo..mid}" "sorted js" "set js \<subseteq> {mid..hi}"
    and eq: "map (\<lambda>e. (err_File e, err_Line e, err_Column e)) (es @ es') =
      map (\<lambda>k. (tok_File (token_number k p), tok_Line (token_number k p), tok_Column (token_number k p))) (ks @ js)"
    unfolding located_def by force
  have "sorted (ks @ js)" using kj by (fastforce simp: sorted_append)
  moreover have "set (ks @ js) \<subseteq> {lo..hi}" using kj assms(3,4) by fastforce
  ultimately show ?thesis unfolding located_def using eq by blast
qed

lemma token_number_cong:
  "par_tokens p = par_tokens q \<Longrightarrow> par_file p = par_file q \<Longrightarrow> token_number k p = token_number k q"
  unfolding token_number_def by presburger

lemma located_cong:
  "par_tokens p = par_tokens q \<Longrightarrow> par_file p = par_file q \<Longrightarrow> located p = located q"
  unfolding located_def by (simp add: token_number_cong [of p q] cong: map_cong)

lemma fwd_refl [simp]: "fwd p p"
  by (auto simp: fwd_def)

lemma fwd_trans [trans]:
  assumes "fwd p q" "fwd q r"
  shows "fwd p r"
proof -
  from assms obtain es es' where es: "par_errors q = par_errors p @ es" "located p es (par_pos p) (par_pos q)"
    "par_errors r = par_errors q @ es'" "located q es' (par_pos q) (par_pos r)"
    unfolding fwd_def by blast
  moreover have "located q = located p" using assms(1) by (intro located_cong) (simp_all add: fwd_def)
  ultimately have "located p (es @ es') (par_pos p) (par_pos r)"
    using assms by (intro located_append [of _ _ _ "par_pos q"]) (simp_all add: fwd_def)
  with assms es(1,3) show ?thesis unfolding fwd_def by (auto simp: max_def split: if_splits)
qed

lemma fwd_advance: "fwd q (advance q)"
  by (auto simp: fwd_def advance_def)

lemma fwd_addError: "fwd q (addError m h q)"
proof -
  have "located q [\<lparr>err_File = tok_File (current q), err_Line = tok_Line (current q),
      err_Column = tok_Column (current q), err_Message = m, err_Hint = h\<rparr>] (par_pos q) (par_pos q)"
    unfolding located_def by (intro exI [of _ "[par_pos q]"]) (simp add: current_def)
  then show ?thesis by (simp add: fwd_def addError_def Let_def)
qed

lemma fwd_skipNewlines: "fwd q (skipNewlines q)"
proof (induction q rule: skipNewlines.induct)
  case (1 q)
  show ?case
    by (subst skipNewlines.simps) (auto intro: 1 fwd_trans [OF fwd_advance])
qed

lemma fwd_advance_addError: "fwd q (advance (addError m h q))"
  by (rule fwd_trans [OF fwd_addError fwd_advance])

text \<open>
  \<open>q\<close> is reached from \<open>p\<close> and stands at token \<open>n\<close> or behind it. A loop ends because its body
  goes past the token it starts at.
\<close>

definition adv :: "Parser \<Rightarrow> nat \<Rightarrow> Parser \<Rightarrow> bool" where
  "adv p n q \<longleftrightarrow> fwd p q \<and> n \<le> par_pos q"

definition past :: "Parser \<Rightarrow> nat" where
  "past q = (if isAtEnd q then par_pos q else Suc (par_pos q))"

lemma adv_fwd: "adv p n q \<Longrightarrow> fwd q r \<Longrightarrow> adv p n r"
  unfolding adv_def by (meson fwd_def fwd_trans order_trans)

lemma adv_start: "adv p 0 p"
  by (simp add: adv_def)

lemma adv_past: "\<not> isAtEnd q \<Longrightarrow> adv q (past q) r \<Longrightarrow> par_pos q < par_pos r"
  by (simp add: adv_def past_def)

lemma adv_chain: "adv p n q \<Longrightarrow> adv q m r \<Longrightarrow> adv p n r"
  by (rule adv_fwd, assumption) (simp add: adv_def)

lemma past_advance:
  assumes "fwd q r" "par_pos r = par_pos q"
  shows "adv q (past q) (advance r)"
proof -
  have "isAtEnd q \<or> par_pos r < length (par_tokens r)"
    using assms not_at_end [of q] unfolding fwd_def by (metis nat_less_le)
  then have "past q \<le> par_pos (advance r)"
    using assms(2) by (auto simp: past_def advance_def)
  with fwd_trans [OF assms(1) fwd_advance] show ?thesis by (simp add: adv_def)
qed

lemma isAtEnd_addError [simp]: "isAtEnd (addError m h q) = isAtEnd q"
  by (simp add: isAtEnd_def current_def addError_def Let_def token_number_def)

lemma par_pos_addError [simp]: "par_pos (addError m h q) = par_pos q"
  by (simp add: addError_def Let_def)

lemma past_end: "fwd q r \<Longrightarrow> isAtEnd q \<Longrightarrow> adv q (past q) r"
  by (simp add: adv_def past_def fwd_def)

lemma fwd_expectToken: "fwd q (expectToken t q)"
  by (auto simp: expectToken_def Let_def intro: fwd_trans [OF fwd_skipNewlines] fwd_addError fwd_advance)

lemma past_advance_addError: "adv q (past q) (advance (addError m h q))"
  by (intro past_advance fwd_addError) simp

lemmas past_moves = past_advance [OF fwd_refl refl] past_advance_addError past_end [OF fwd_addError]

lemma past_expect: "adv q (past q) (expect t q)"
  by (auto simp: expect_def intro: past_moves)

lemma past_expectString: "adv q (past q) (snd (expectString c q))"
  by (auto simp: expectString_def Let_def intro: past_moves)

lemma past_expectStringOrIdent: "adv q (past q) (snd (expectStringOrIdent c q))"
  by (auto simp: expectStringOrIdent_def Let_def intro: past_moves)

lemma past_skip_unexpected: "adv q (past q) (skip_unexpected w c q)"
  by (auto simp: skip_unexpected_def Let_def intro: past_moves)

lemma past_expectInt: "adv q (past q) (snd (expectInt c q))"
  by (auto simp: expectInt_def Let_def split: option.splits
    intro: past_moves past_skip_unexpected adv_fwd [OF _ fwd_addError])

lemma past_expectFloat: "adv q (past q) (snd (expectFloat c q))"
  by (auto simp: expectFloat_def Let_def split: option.splits
    intro: past_moves past_skip_unexpected adv_fwd [OF _ fwd_addError])

lemma past_expectBool: "adv q (past q) (snd (expectBool c q))"
  by (auto simp: expectBool_def intro: past_moves past_skip_unexpected)

lemma past_unexpected: "adv q (past q) (unexpected s h q)"
  by (simp add: unexpected_def past_moves)

lemma past_fwd: "adv q (past q) r \<Longrightarrow> adv p n q \<Longrightarrow> adv p n r"
  by (rule adv_chain)

text \<open>Moves of the parser as rules: those that pass the token they start at, and all of them.\<close>

lemmas past_rules = past_moves(1,2) past_expect past_expectString past_expectStringOrIdent
  past_expectInt past_expectFloat past_expectBool past_unexpected

lemmas adv_rules = past_rules [THEN past_fwd] adv_fwd [OF _ fwd_addError] adv_fwd [OF _ fwd_skipNewlines]
  adv_fwd [OF _ fwd_expectToken]

lemma adv_if: "adv p n a \<Longrightarrow> adv p n b \<Longrightarrow> adv p n (if c then a else b)"
  by simp

lemma adv_if_snd: "adv p n (snd a) \<Longrightarrow> adv p n (snd b) \<Longrightarrow> adv p n (snd (if c then a else b))"
  by simp

lemma adv_pair: "adv p n q \<Longrightarrow> adv p n (snd (a, q))"
  by simp

subsection \<open>Parsing functions that return\<close>

text \<open>
  \<open>r\<close> is a result, not \<open>None\<close>, reached from \<open>p\<close> at token \<open>n\<close> or behind it, whose value
  satisfies \<open>I\<close>. The rules follow the syntax of the parsing functions.
\<close>

definition runs :: "Parser \<Rightarrow> nat \<Rightarrow> ('a \<Rightarrow> bool) \<Rightarrow> ('a \<times> Parser) option \<Rightarrow> bool" where
  "runs p n I r \<longleftrightarrow> (\<exists>a q. r = Some (a, q) \<and> adv p n q \<and> I a)"

abbreviation returns :: "Parser \<Rightarrow> nat \<Rightarrow> ('a \<times> Parser) option \<Rightarrow> bool" where
  "returns p n r \<equiv> runs p n (\<lambda>_. True) r"

lemma runs_Some: "adv p n q \<Longrightarrow> I a \<Longrightarrow> runs p n I (Some (a, q))"
  by (simp add: runs_def)

lemma runs_pair: "adv p n (snd x) \<Longrightarrow> I (fst x) \<Longrightarrow> runs p n I (Some x)"
  by (cases x) (simp add: runs_def)

lemma runs_bind:
  assumes "runs p n J m" "\<And>a q. adv p n q \<Longrightarrow> J a \<Longrightarrow> runs p n I (f a q)"
  shows "runs p n I (m \<bind> case_prod f)"
  using assms unfolding runs_def by fastforce

lemma runs_if: "(c \<Longrightarrow> runs p n I a) \<Longrightarrow> (\<not> c \<Longrightarrow> runs p n I b) \<Longrightarrow> runs p n I (if c then a else b)"
  by simp

lemma runs_let_parser: "adv p n q \<Longrightarrow> (\<And>q. adv p n q \<Longrightarrow> runs p n I (f q)) \<Longrightarrow> runs p n I (Let q f)"
  for q :: Parser
  by (simp add: Let_def)

lemma runs_let_pair:
  "adv p n (snd x) \<Longrightarrow> (\<And>a q. adv p n q \<Longrightarrow> runs p n I (f a q)) \<Longrightarrow> runs p n I (Let x (case_prod f))"
  by (cases x) (simp add: Let_def)

lemma runs_let_value: "(\<And>v. runs p n I (f v)) \<Longrightarrow> runs p n I (Let v f)"
  by (simp add: Let_def)

lemma runs_past: "runs q (past q) I r \<Longrightarrow> adv p n q \<Longrightarrow> runs p n I r"
  unfolding runs_def using adv_chain by blast

lemma runs_weaken: "runs p n I r \<Longrightarrow> (\<And>a. I a \<Longrightarrow> J a) \<Longrightarrow> runs p n J r"
  unfolding runs_def by blast

text \<open>The body of a loop: it either leaves the loop or goes past the token it started at.\<close>

definition steps :: "Parser \<Rightarrow> ('a \<Rightarrow> bool) \<Rightarrow> (('a \<times> bool) \<times> Parser) option \<Rightarrow> bool" where
  "steps q I r \<longleftrightarrow>
     (\<exists>a go q'. r = Some ((a, go), q') \<and> fwd q q' \<and> (go \<longrightarrow> past q \<le> par_pos q') \<and> I a)"

lemma steps_break: "adv q 0 q' \<Longrightarrow> I a \<Longrightarrow> steps q I (Some ((a, False), q'))"
  unfolding steps_def adv_def by blast

lemma steps_go: "runs q (past q) (\<lambda>(a, _). I a) r \<Longrightarrow> steps q I r"
  unfolding steps_def runs_def adv_def by blast

lemma steps_if: "(c \<Longrightarrow> steps q I a) \<Longrightarrow> (\<not> c \<Longrightarrow> steps q I b) \<Longrightarrow> steps q I (if c then a else b)"
  by simp

lemma steps_case: "(\<And>x y. a = (x, y) \<Longrightarrow> steps q I (f x y r)) \<Longrightarrow> steps q I (case_prod f a r)"
  by (cases a) simp

lemma ploop_runs:
  assumes body: "\<And>a q. adv p n q \<Longrightarrow> I a \<Longrightarrow> cond q \<Longrightarrow> steps q I (body a q)"
    and cond: "\<And>q. cond q \<Longrightarrow> \<not> isAtEnd q"
  shows "adv p n q \<Longrightarrow> I a \<Longrightarrow> runs p n I (ploop cond body a q)"
proof (induction "length (par_tokens q) - par_pos q" arbitrary: a q rule: less_induct)
  case less
  show ?case
  proof (cases "cond q")
    case False
    then show ?thesis using less.prems by (subst ploop.simps) (simp add: runs_Some)
  next
    case True
    from body [OF less.prems True] obtain a' go q' where
      s: "body a q = Some ((a', go), q')" "fwd q q'" "go \<longrightarrow> past q \<le> par_pos q'" "I a'"
      unfolding steps_def by blast
    have q': "adv p n q'" by (rule adv_fwd [OF less.prems(1) s(2)])
    show ?thesis
    proof (cases go)
      case False
      with s(1,4) q' True show ?thesis by (subst ploop.simps) (simp add: runs_Some)
    next
      case go: True
      have "\<not> isAtEnd q" by (rule cond [OF True])
      then have "par_pos q < par_pos q'" "par_pos q < length (par_tokens q)"
        using s(3) go by (simp_all add: past_def not_at_end)
      moreover have "par_tokens q' = par_tokens q" using s(2) by (simp add: fwd_def)
      ultimately have "runs p n I (ploop cond body a' q')"
        by (intro less.hyps q' s(4)) simp
      with s(1) True go show ?thesis by (subst ploop.simps) simp
    qed
  qed
qed

lemma skipNewlines_past: "check TokenNewline q \<Longrightarrow> adv q (past q) (skipNewlines q)"
  by (subst skipNewlines.simps) (simp add: adv_fwd [OF past_moves(1) fwd_skipNewlines])

lemma skipNewlines_stop: "\<not> check TokenNewline q \<Longrightarrow> skipNewlines q = q"
  by (subst skipNewlines.simps) simp

lemma skip_then:
  assumes "\<And>q. adv p n q \<Longrightarrow> runs q (past q) I (f q)" "adv p n q"
  shows "runs q (past q) I (f (skipNewlines q))"
proof (cases "check TokenNewline q")
  case True
  have "adv p n (skipNewlines q)" by (rule adv_fwd [OF assms(2) fwd_skipNewlines])
  then show ?thesis by (rule runs_past [OF assms(1) skipNewlines_past [OF True]])
next
  case False
  then show ?thesis using assms by (simp add: skipNewlines_stop)
qed

lemma blockLoop_runs:
  assumes sw: "\<And>a q. adv p n q \<Longrightarrow> I a \<Longrightarrow> runs q (past q) I (switch a q)"
    and "adv p n q" "I a"
  shows "runs p n I (blockLoop switch a q)"
  unfolding blockLoop_def
proof (rule ploop_runs [where I = I, OF _ _ assms(2,3)])
  fix a q
  assume q: "adv p n q" and I: "I a"
  show "steps q I (let p = skipNewlines q in if check TokenRBrace p then Some ((a, False), p)
      else switch a p \<bind> (\<lambda>(a, p). Some ((a, True), skipNewlines p)))"
    unfolding Let_def
    by (intro steps_if steps_break steps_go adv_fwd [OF adv_start fwd_skipNewlines] I
          runs_bind [OF skip_then [where f = "switch a", OF sw q]] runs_Some adv_rules) (simp_all add: I)
qed simp

lemma parseBlock_runs:
  assumes "\<And>a q. adv p n q \<Longrightarrow> I a \<Longrightarrow> runs q (past q) I (switch a q)" "adv p n q" "I a"
  shows "runs p n I (parseBlock switch a q)"
  unfolding parseBlock_def
  by (intro runs_let_parser runs_bind [OF blockLoop_runs [OF assms(1)]] runs_Some adv_rules assms)

subsection \<open>Declarations\<close>

text \<open>
  A statement that declares a resource: at some point behind token \<open>n\<close> it registers the name
  of the resource it returns, and it registers nothing else.
\<close>

definition declares :: "Parser \<Rightarrow> nat \<Rightarrow> string \<Rightarrow> ('a \<Rightarrow> string) \<Rightarrow> ('a \<times> Parser) option \<Rightarrow> bool" where
  "declares p n kind nm r \<longleftrightarrow>
     (\<exists>a q pos q'. r = Some (a, q') \<and> adv p n q \<and> fwd (registerName kind (nm a) pos q) q')"

lemma declares_register:
  assumes "adv p n q"
    "runs (registerName kind s pos q) 0 (\<lambda>a. nm a = s) (f (registerName kind s pos q))"
  shows "declares p n kind nm (Let (registerName kind s pos q) f)"
  using assms unfolding declares_def runs_def adv_def Let_def by blast

lemma declares_let_parser:
  "adv p n q \<Longrightarrow> (\<And>q. adv p n q \<Longrightarrow> declares p n kind nm (f q)) \<Longrightarrow> declares p n kind nm (Let q f)"
  for q :: Parser
  by (simp add: Let_def)

lemma declares_let_pair:
  "adv p n (snd x) \<Longrightarrow> (\<And>a q. adv p n q \<Longrightarrow> declares p n kind nm (f a q)) \<Longrightarrow>
     declares p n kind nm (Let x (case_prod f))"
  by (cases x) (simp add: Let_def)

lemma declares_let_value: "(\<And>v. declares p n kind nm (f v)) \<Longrightarrow> declares p n kind nm (Let v f)"
  by (simp add: Let_def)

end
