(* ===== verification/Parser_Blocks.thy ===== *)
theory Parser_Blocks
  imports Parser_Base
begin

text \<open>
  The parsing functions for the blocks inside the statements of \<open>internal/parser/parser.go\<close>:
  lists, metadata, fields, tool, memory, deployment and pipeline blocks, and the blocks of
  IntentLang 3.0. Where a block has a switch, the switch is a definition of its own, with the
  node under construction as an argument. Every function returns and moves past the token it
  starts at.
\<close>

subsection \<open>Lists, metadata and fields\<close>

definition parseStringList :: "Parser \<Rightarrow> (string list \<times> Parser) option" where
  "parseStringList p =
     (if check TokenLBracket p then
        do {
          (items, p) \<leftarrow> ploop (\<lambda>p. \<not> check TokenRBracket p \<and> \<not> isAtEnd p)
            (\<lambda>items p.
               if check TokenComma p then Some ((items, True), advance p)
               else let (item, p) = expectString ''list item'' p in Some ((items @ [item], True), p))
            [] (advance p);
          Some (items, expectToken TokenRBracket p)
        }
      else let (item, p) = expectString ''argument'' p in Some ([item], p))"

definition metadataEntry :: "(string, string) gomap \<Rightarrow> Parser \<Rightarrow> ((string, string) gomap \<times> Parser) option" where
  "metadataEntry m p =
     (let key = literal p;
          p = advance p;
          (val, p) = expectStringOrIdent ''metadata value'' p
      in Some (mput key val m, p))"

definition parseMetadataBlock :: "(string, string) gomap \<Rightarrow> Parser \<Rightarrow> ((string, string) gomap \<times> Parser) option" where
  "parseMetadataBlock m p =
     (if \<not> check TokenLBrace p then Some (m, p) else parseBlock metadataEntry m p)"

definition optional :: "TokenType \<Rightarrow> Parser \<Rightarrow> bool \<times> Parser" where
  "optional t p = (if check t p then (True, advance p) else (False, p))"

definition fieldEntry :: "Field list \<Rightarrow> Parser \<Rightarrow> (Field list \<times> Parser) option" where
  "fieldEntry fs p =
     (let field = new_Field (currentPos p);
          name = literal p;
          p = advance p;
          typ = literal p;
          p = advance p;
          (req, p) = optional TokenRequired p
      in Some (fs @ [field\<lparr>fld_Name := name, fld_Type := typ, fld_Required := req,
                 fld_EndPos := currentPos p\<rparr>], p))"

definition parseFieldBlock :: "Parser \<Rightarrow> (Field list \<times> Parser) option" where
  "parseFieldBlock p = parseBlock fieldEntry [] p"

definition parseExecution :: "Parser \<Rightarrow> (Execution \<times> Parser) option" where
  "parseExecution p =
     (let exec = new_Execution (currentPos p);
          typ = literal p;
          p = advance p;
          (val, p) = expectString ''execution value'' p
      in Some (exec\<lparr>exe_Type := typ, exe_Value := val, exe_EndPos := currentPos p\<rparr>, p))"

subsection \<open>Tool blocks\<close>

text \<open>A map field of the node, allocated by \<open>make\<close> and then filled.\<close>

definition freshMap :: "Parser \<Rightarrow> ((string, string) gomap option \<times> Parser) option" where
  "freshMap p = do { (m, p) \<leftarrow> parseMetadataBlock [] p; Some (Some m, p) }"

definition toolHTTPSwitch :: "ToolConfig \<Rightarrow> Parser \<Rightarrow> (ToolConfig \<times> Parser) option" where
  "toolHTTPSwitch tc p =
     (if check TokenMethod p then
        let (s, p) = expectString ''http method'' (advance p) in Some (tc\<lparr>tc_Method := s\<rparr>, p)
      else if check TokenURL p then
        let (s, p) = expectString ''http url'' (advance p) in Some (tc\<lparr>tc_URL := s\<rparr>, p)
      else if check TokenHeaders p then
        do { (m, p) \<leftarrow> freshMap (advance p); Some (tc\<lparr>tc_Headers := m\<rparr>, p) }
      else if check TokenBodyTemplate p then
        let (s, p) = expectString ''body template'' (advance p) in Some (tc\<lparr>tc_BodyTemplate := s\<rparr>, p)
      else if check TokenTimeout p then
        let (s, p) = expectString ''timeout'' (advance p) in Some (tc\<lparr>tc_Timeout := s\<rparr>, p)
      else Some (tc, unexpected '' in tool http block'' [] p))"

definition toolCommandSwitch :: "ToolConfig \<Rightarrow> Parser \<Rightarrow> (ToolConfig \<times> Parser) option" where
  "toolCommandSwitch tc p =
     (if check TokenBinary p then
        let (s, p) = expectString ''binary path'' (advance p) in Some (tc\<lparr>tc_Binary := s\<rparr>, p)
      else if check TokenArgs p then
        do { (xs, p) \<leftarrow> parseStringList (advance p); Some (tc\<lparr>tc_Args := xs\<rparr>, p) }
      else if check TokenTimeout p then
        let (s, p) = expectString ''timeout'' (advance p) in Some (tc\<lparr>tc_Timeout := s\<rparr>, p)
      else if check TokenEnv p then
        do { (m, p) \<leftarrow> freshMap (advance p); Some (tc\<lparr>tc_Env := m\<rparr>, p) }
      else if check TokenSecrets p then
        do { (m, p) \<leftarrow> freshMap (advance p); Some (tc\<lparr>tc_Secrets := m\<rparr>, p) }
      else Some (tc, unexpected '' in tool command block'' [] p))"

definition toolInlineSwitch :: "ToolConfig \<Rightarrow> Parser \<Rightarrow> (ToolConfig \<times> Parser) option" where
  "toolInlineSwitch tc p =
     (if check TokenLanguage p then
        let (s, p) = expectString ''language'' (advance p) in Some (tc\<lparr>tc_Language := s\<rparr>, p)
      else if check TokenCode p then
        let (s, p) = expectString ''code'' (advance p) in Some (tc\<lparr>tc_Code := s\<rparr>, p)
      else if check TokenTimeout p then
        let (s, p) = expectString ''timeout'' (advance p) in Some (tc\<lparr>tc_Timeout := s\<rparr>, p)
      else if check TokenMemory p then
        let (s, p) = expectString ''memory limit'' (advance p) in Some (tc\<lparr>tc_MemoryLimit := s\<rparr>, p)
      else Some (tc, unexpected '' in tool inline block'' [] p))"

definition parseToolConfig :: "Parser \<Rightarrow> (ToolConfig \<times> Parser) option" where
  "parseToolConfig p =
     do {
       let tc = new_ToolConfig (currentPos p);
       (tc, p) \<leftarrow>
         (if check TokenMCP p then
            let (s, p) = expectString ''mcp server/tool reference'' (advance p)
            in Some (tc\<lparr>tc_Type := ''mcp'', tc_ServerTool := s\<rparr>, p)
          else if check TokenHTTP p then parseBlock toolHTTPSwitch (tc\<lparr>tc_Type := ''http''\<rparr>) (advance p)
          else if check TokenCommand p then parseBlock toolCommandSwitch (tc\<lparr>tc_Type := ''command''\<rparr>) (advance p)
          else if check TokenInline p then parseBlock toolInlineSwitch (tc\<lparr>tc_Type := ''inline''\<rparr>) (advance p)
          else Some (tc, advance (addError
            (Text (''expected tool type (mcp, http, command, inline), got '' @ currentType p)) [] p)));
       Some (tc\<lparr>tc_EndPos := currentPos p\<rparr>, p)
     }"

subsection \<open>Settings of agents and deployments\<close>

definition memorySwitch :: "MemoryConfig \<Rightarrow> Parser \<Rightarrow> (MemoryConfig \<times> Parser) option" where
  "memorySwitch mc p =
     (if check TokenStrategy p then
        let (s, p) = expectString ''memory strategy'' (advance p) in Some (mc\<lparr>mem_Strategy := s\<rparr>, p)
      else if check TokenIdent p \<and> literal p = ''max_messages'' then
        let (n, p) = expectInt ''max_messages'' (advance p) in Some (mc\<lparr>mem_MaxMessages := n\<rparr>, p)
      else Some (mc, unexpected '' in memory block'' [] p))"

definition parseMemoryConfig :: "Parser \<Rightarrow> (MemoryConfig \<times> Parser) option" where
  "parseMemoryConfig p =
     do {
       (mc, p) \<leftarrow> parseBlock memorySwitch (new_MemoryConfig (currentPos p)) p;
       Some (mc\<lparr>mem_EndPos := currentPos p\<rparr>, p)
     }"

definition resourcesSwitch :: "ResourceLimits \<Rightarrow> Parser \<Rightarrow> (ResourceLimits \<times> Parser) option" where
  "resourcesSwitch rl p =
     (if literal p = ''cpu'' then
        let (s, p) = expectString ''cpu'' (advance p) in Some (rl\<lparr>rl_CPU := s\<rparr>, p)
      else if check TokenMemory p then
        let (s, p) = expectString ''memory'' (advance p) in Some (rl\<lparr>rl_Memory := s\<rparr>, p)
      else Some (rl, unexpected '' in resources block'' [] p))"

definition parseResourceLimits :: "Parser \<Rightarrow> (ResourceLimits \<times> Parser) option" where
  "parseResourceLimits p =
     do {
       (rl, p) \<leftarrow> parseBlock resourcesSwitch (new_ResourceLimits (currentPos p)) p;
       Some (rl\<lparr>rl_EndPos := currentPos p\<rparr>, p)
     }"

definition healthSwitch :: "HealthConfig \<Rightarrow> Parser \<Rightarrow> (HealthConfig \<times> Parser) option" where
  "healthSwitch hc p =
     (if literal p = ''path'' then
        let (s, p) = expectString ''health path'' (advance p) in Some (hc\<lparr>hc_Path := s\<rparr>, p)
      else if literal p = ''interval'' then
        let (s, p) = expectString ''health interval'' (advance p) in Some (hc\<lparr>hc_Interval := s\<rparr>, p)
      else if check TokenTimeout p then
        let (s, p) = expectString ''health timeout'' (advance p) in Some (hc\<lparr>hc_Timeout := s\<rparr>, p)
      else Some (hc, unexpected '' in health block'' [] p))"

definition parseHealthConfig :: "Parser \<Rightarrow> (HealthConfig \<times> Parser) option" where
  "parseHealthConfig p =
     do {
       (hc, p) \<leftarrow> parseBlock healthSwitch (new_HealthConfig (currentPos p)) p;
       Some (hc\<lparr>hc_EndPos := currentPos p\<rparr>, p)
     }"

definition autoscaleSwitch :: "AutoscaleConfig \<Rightarrow> Parser \<Rightarrow> (AutoscaleConfig \<times> Parser) option" where
  "autoscaleSwitch ac p =
     (if literal p = ''min'' then
        let (n, p) = expectInt ''min replicas'' (advance p) in Some (ac\<lparr>ac_MinReplicas := n\<rparr>, p)
      else if literal p = ''max'' then
        let (n, p) = expectInt ''max replicas'' (advance p) in Some (ac\<lparr>ac_MaxReplicas := n\<rparr>, p)
      else if literal p = ''metric'' then
        let (s, p) = expectString ''autoscale metric'' (advance p) in Some (ac\<lparr>ac_Metric := s\<rparr>, p)
      else if check TokenTarget p then
        let (n, p) = expectInt ''autoscale target'' (advance p) in Some (ac\<lparr>ac_Target := n\<rparr>, p)
      else Some (ac, unexpected '' in autoscale block'' [] p))"

definition parseAutoscaleConfig :: "Parser \<Rightarrow> (AutoscaleConfig \<times> Parser) option" where
  "parseAutoscaleConfig p =
     do {
       (ac, p) \<leftarrow> parseBlock autoscaleSwitch (new_AutoscaleConfig (currentPos p)) p;
       Some (ac\<lparr>ac_EndPos := currentPos p\<rparr>, p)
     }"

definition parseDelegate :: "Parser \<Rightarrow> (Delegate \<times> Parser) option" where
  "parseDelegate p =
     (let del = new_Delegate (currentPos p);
          (_, p) = optional TokenTo p;
          (_, p) = optional TokenAgent p;
          (name, p) = expectString ''delegate agent name'' p;
          (cond, p) = (if check TokenWhen p then expectString ''delegate condition'' (advance p) else ([], p))
      in Some (del\<lparr>del_AgentRef := name, del_Condition := cond, del_EndPos := currentPos p\<rparr>, p))"

subsection \<open>Variables, type fields and pipeline steps\<close>

text \<open>The loop over \<open>required\<close> and \<open>default\<close> that variables and type fields share.\<close>

definition modifiers :: "bool \<times> string \<Rightarrow> Parser \<Rightarrow> ((bool \<times> string) \<times> Parser) option" where
  "modifiers =
     ploop (\<lambda>p. \<not> check TokenRBrace p \<and> \<not> isAtEnd p \<and> \<not> check TokenNewline p)
       (\<lambda>(req, dflt) p.
          if literal p = ''required'' then Some (((True, dflt), True), advance p)
          else if literal p = ''default'' \<or> check TokenDefault p then
            let (s, p) = expectString ''default value'' (advance p) in Some (((req, s), True), p)
          else Some (((req, dflt), False), p))"

definition variableEntry :: "Variable list \<Rightarrow> Parser \<Rightarrow> (Variable list \<times> Parser) option" where
  "variableEntry vars p =
     do {
       let v = new_Variable (currentPos p);
       let name = literal p;
       let p = advance p;
       let typ = literal p;
       let p = advance p;
       ((req, dflt), p) \<leftarrow> modifiers (False, []) p;
       Some (vars @ [v\<lparr>var_Name := name, var_Type := typ, var_Required := req, var_Default := dflt,
               var_EndPos := currentPos p\<rparr>], p)
     }"

definition parseVariablesBlock :: "Parser \<Rightarrow> (Variable list \<times> Parser) option" where
  "parseVariablesBlock p = parseBlock variableEntry [] p"

definition typeFieldEntry :: "TypeDef \<Rightarrow> Parser \<Rightarrow> (TypeDef \<times> Parser) option" where
  "typeFieldEntry td p =
     do {
       let field = new_TypeField (currentPos p);
       let name = literal p;
       let p = advance p;
       let typ = literal p;
       let p = advance p;
       ((req, dflt), p) \<leftarrow> modifiers (False, []) p;
       Some (td\<lparr>td_Fields := td_Fields td @ [field\<lparr>tf_Name := name, tf_Type := typ, tf_Required := req,
               tf_Default := dflt, tf_EndPos := currentPos p\<rparr>]\<rparr>, p)
     }"

definition stepSwitch :: "PipelineStep \<Rightarrow> Parser \<Rightarrow> (PipelineStep \<times> Parser) option" where
  "stepSwitch st p =
     (if check TokenAgent p then
        let (s, p) = expectString ''step agent'' (advance p) in Some (st\<lparr>pst_Agent := s\<rparr>, p)
      else if check TokenInput p then
        let (s, p) = expectString ''step input'' (advance p) in Some (st\<lparr>pst_Input := s\<rparr>, p)
      else if check TokenOutput p then
        let (s, p) = expectString ''step output'' (advance p) in Some (st\<lparr>pst_Output := s\<rparr>, p)
      else if check TokenDependsOn p then
        do { (xs, p) \<leftarrow> parseStringList (advance p); Some (st\<lparr>pst_DependsOn := xs\<rparr>, p) }
      else if check TokenParallel p then
        let (b, p) = expectBool ''parallel'' (advance p) in Some (st\<lparr>pst_Parallel := b\<rparr>, p)
      else if check TokenWhen p then
        let (s, p) = expectString ''step condition'' (advance p) in Some (st\<lparr>pst_When := s\<rparr>, p)
      else Some (st, unexpected '' in step block'' [] p))"

definition parsePipelineStep :: "Parser \<Rightarrow> (PipelineStep \<times> Parser) option" where
  "parsePipelineStep p =
     do {
       let st = new_PipelineStep (currentPos p);
       let (name, p) = expectString ''step name'' p;
       (st, p) \<leftarrow> parseBlock stepSwitch (st\<lparr>pst_Name := name\<rparr>) p;
       Some (st\<lparr>pst_EndPos := currentPos p\<rparr>, p)
     }"

subsection \<open>Expressions\<close>

definition isStopToken :: "TokenType list \<Rightarrow> Parser \<Rightarrow> bool" where
  "isStopToken stops p = list_ex (\<lambda>stop. check stop p) stops"

text \<open>What one token adds to the parts of an expression.\<close>

definition collect_part :: "Token \<Rightarrow> string list \<Rightarrow> string list" where
  "collect_part tok parts =
     (if tok_Type tok = TokenString then parts @ [[CHR 0x22] @ tok_Literal tok @ [CHR 0x22]]
      else if tok_Type tok = TokenDot then
        if parts \<noteq> [] then butlast parts @ [last parts @ ''.''] else parts
      else if parts \<noteq> [] \<and> HasSuffix (last parts) ''.'' then butlast parts @ [last parts @ tok_Literal tok]
      else parts @ [tok_Literal tok])"

definition collectExpressionUntil :: "TokenType list \<Rightarrow> Parser \<Rightarrow> (string \<times> Parser) option" where
  "collectExpressionUntil stops p =
     do {
       (parts, p) \<leftarrow> ploop (\<lambda>p. \<not> isAtEnd p \<and> \<not> isStopToken stops p)
         (\<lambda>parts p.
            if check TokenNewline p then Some ((parts, True), advance p)
            else Some ((collect_part (current p) parts, True), advance p))
         [] p;
       Some (TrimSpace (Join parts '' ''), p)
     }"

subsection \<open>Configuration, validation and evaluation\<close>

definition configDefault :: "Parser \<Rightarrow> string \<times> Parser" where
  "configDefault p =
     (if check TokenString p \<or> check TokenNumber p \<or> check TokenTrue p \<or> check TokenFalse p
      then (literal p, advance p)
      else expectStringOrIdent ''default value'' p)"

definition configModifiers :: "ConfigParam \<Rightarrow> Parser \<Rightarrow> (ConfigParam \<times> Parser) option" where
  "configModifiers =
     ploop (\<lambda>p. \<not> isAtEnd p \<and> \<not> check TokenNewline p \<and> \<not> check TokenRBrace p \<and> \<not> check TokenString p)
       (\<lambda>param p.
          if check TokenRequired p then Some ((param\<lparr>cp_Required := True\<rparr>, True), advance p)
          else if check TokenSecret p then Some ((param\<lparr>cp_Secret := True\<rparr>, True), advance p)
          else if check TokenDefault p then
            let (s, p) = configDefault (advance p)
            in Some ((param\<lparr>cp_HasDefault := True, cp_Default := s\<rparr>, True), p)
          else Some ((param, False), p))"

definition optionalString :: "Parser \<Rightarrow> string \<times> Parser" where
  "optionalString p = (if check TokenString p then (literal p, advance p) else ([], p))"

definition configEntry :: "ConfigParam list \<Rightarrow> Parser \<Rightarrow> (ConfigParam list \<times> Parser) option" where
  "configEntry params p =
     do {
       let param = new_ConfigParam (currentPos p);
       let (name, p) = expectStringOrIdent ''config param name'' p;
       let (typ, p) = expectStringOrIdent ''config param type'' p;
       (param, p) \<leftarrow> configModifiers (param\<lparr>cp_Name := name, cp_Type := typ\<rparr>) p;
       let p = skipNewlines p;
       let (descr, p) = optionalString p;
       Some (params @ [param\<lparr>cp_Description := descr, cp_EndPos := currentPos p\<rparr>], p)
     }"

definition parseConfigBlock :: "Parser \<Rightarrow> (ConfigParam list \<times> Parser) option" where
  "parseConfigBlock p = parseBlock configEntry [] p"

text \<open>
  The blocks whose default case is a \<open>continue\<close>, which skips the \<open>skipNewlines\<close> at the end of
  the body: the flag the body returns tells whether the end of the body is reached.
\<close>

definition continueBlock ::
  "('a \<Rightarrow> Parser \<Rightarrow> (('a \<times> bool) \<times> Parser) option) \<Rightarrow> 'a \<Rightarrow> Parser \<Rightarrow> ('a \<times> Parser) option"
where
  "continueBlock body a p =
     do {
       let p = expectToken TokenLBrace p;
       let p = skipNewlines p;
       (a, p) \<leftarrow> ploop (\<lambda>p. \<not> check TokenRBrace p \<and> \<not> isAtEnd p)
         (\<lambda>a p.
            let p = skipNewlines p in
            if check TokenRBrace p then Some ((a, False), p)
            else do {
              ((a, finished), p) \<leftarrow> body a p;
              Some ((a, True), if finished then skipNewlines p else p)
            })
         a p;
       Some (a, expectToken TokenRBrace p)
     }"

definition validateEntry ::
  "ValidationRule list \<Rightarrow> Parser \<Rightarrow> ((ValidationRule list \<times> bool) \<times> Parser) option"
where
  "validateEntry rules p =
     (if \<not> check TokenRule p
      then Some ((rules, False), unexpected '' in validate block'' (''expected '' @ tick ''rule'') p)
      else do {
        let p = advance p;
        let rul = new_ValidationRule (currentPos p);
        let (name, p) = expectStringOrIdent ''rule name'' p;
        let (sev, p) = expectStringOrIdent ''rule severity'' p;
        let (n, p) = (if check TokenMaxRetries p then expectInt ''max_retries'' (advance p) else (0, p));
        let p = skipNewlines p;
        let (msg, p) = optionalString p;
        let p = skipNewlines p;
        (expr, p) \<leftarrow> (if check TokenWhen p then collectExpressionUntil [TokenRule, TokenRBrace] (advance p)
                       else Some ([], p));
        Some ((rules @ [rul\<lparr>vr_Name := name, vr_Severity := sev, vr_MaxRetries := n, vr_Message := msg,
                 vr_Expression := expr, vr_EndPos := currentPos p\<rparr>], True), p)
      })"

definition parseValidateBlock :: "Parser \<Rightarrow> (ValidationRule list \<times> Parser) option" where
  "parseValidateBlock p = continueBlock validateEntry [] p"

definition evalCaseSwitch :: "EvalCase \<Rightarrow> Parser \<Rightarrow> (EvalCase \<times> Parser) option" where
  "evalCaseSwitch ec p =
     (if check TokenInput p then
        let (s, p) = expectString ''eval input'' (advance p) in Some (ec\<lparr>ec_Input := s\<rparr>, p)
      else if literal p = ''expect'' then
        let (s, p) = expectString ''expected output'' (advance p) in Some (ec\<lparr>ec_Expected := s\<rparr>, p)
      else if check TokenScoring p then
        let (s, p) = expectStringOrIdent ''scoring method'' (advance p);
            (thr, p) = (if check TokenThreshold p then expectFloat ''threshold'' (advance p)
                        else (ec_Threshold ec, p))
        in Some (ec\<lparr>ec_Scoring := s, ec_Threshold := thr\<rparr>, p)
      else if check TokenTags p then
        do { (xs, p) \<leftarrow> parseStringList (advance p); Some (ec\<lparr>ec_Tags := xs\<rparr>, p) }
      else Some (ec, unexpected '' in eval case''
        (''expected '' @ tick ''input'' @ '', '' @ tick ''expect'' @ '', '' @ tick ''scoring'' @ '', or '' @ tick ''tags'') p))"

definition evalCaseLoop :: "EvalCase \<Rightarrow> Parser \<Rightarrow> (EvalCase \<times> Parser) option" where
  "evalCaseLoop =
     ploop (\<lambda>p. \<not> check TokenCase p \<and> \<not> check TokenRBrace p \<and> \<not> isAtEnd p)
       (\<lambda>ec p.
          let p = skipNewlines p in
          if check TokenCase p \<or> check TokenRBrace p then Some ((ec, False), p)
          else do {
            (ec, p) \<leftarrow> evalCaseSwitch ec p;
            Some ((ec, True), skipNewlines p)
          })"

definition evalEntry :: "EvalCase list \<Rightarrow> Parser \<Rightarrow> ((EvalCase list \<times> bool) \<times> Parser) option" where
  "evalEntry cs p =
     (if \<not> check TokenCase p
      then Some ((cs, False), unexpected '' in eval block'' (''expected '' @ tick ''case'') p)
      else do {
        let p = advance p;
        let ec = (new_EvalCase (currentPos p))\<lparr>ec_Threshold := round_float64 (8 / 10)\<rparr>;
        let (name, p) = expectStringOrIdent ''eval case name'' p;
        let p = skipNewlines p;
        (ec, p) \<leftarrow> evalCaseLoop (ec\<lparr>ec_Name := name\<rparr>) p;
        Some ((cs @ [ec\<lparr>ec_EndPos := currentPos p\<rparr>], True), p)
      })"

definition parseEvalBlock :: "Parser \<Rightarrow> (EvalCase list \<times> Parser) option" where
  "parseEvalBlock p = continueBlock evalEntry [] p"

subsection \<open>Every block returns\<close>

lemma adv_optional: "adv p n q \<Longrightarrow> adv p n (snd (optional t q))"
  by (auto simp: optional_def intro: adv_rules)

lemma adv_optionalString: "adv p n q \<Longrightarrow> adv p n (snd (optionalString q))"
  by (auto simp: optionalString_def intro: adv_rules)

lemma adv_configDefault: "adv p n q \<Longrightarrow> adv p n (snd (configDefault q))"
  by (auto simp: configDefault_def intro: adv_rules)

text \<open>
  The rules that take a parsing function apart. \<open>parser_runs\<close> collects the facts that a
  parsing function returns from wherever it is called; the facts on switches also say that the
  token at the start is passed.
\<close>

named_theorems parser_runs

lemmas runs_bindT = runs_bind [where J = "\<lambda>_. True"]
lemmas run_rules = runs_if runs_let_pair runs_let_parser runs_let_value runs_bindT
lemmas move_rules = past_rules adv_rules adv_if adv_if_snd adv_pair adv_optional adv_optionalString adv_configDefault

lemma parseStringList_runs [parser_runs]: "adv p n q \<Longrightarrow> returns p n (parseStringList q)"
  unfolding parseStringList_def
  by (rule ploop_runs steps_go run_rules runs_Some move_rules | assumption | simp)+

lemma runs_case: "(\<And>x y. runs p n I (f x y r)) \<Longrightarrow> runs p n I (case_prod f a r)"
  by (cases a) simp

lemma metadataEntry_past: "returns q (past q) (metadataEntry m q)"
  unfolding metadataEntry_def by (rule run_rules runs_Some move_rules | simp)+

lemma parseMetadataBlock_runs [parser_runs]: "adv p n q \<Longrightarrow> returns p n (parseMetadataBlock m q)"
  unfolding parseMetadataBlock_def
  by (rule runs_if runs_Some parseBlock_runs metadataEntry_past | assumption | simp)+

lemma freshMap_runs [parser_runs]: "adv p n q \<Longrightarrow> returns p n (freshMap q)"
  unfolding freshMap_def by (rule run_rules runs_Some parser_runs | assumption | simp)+

lemma fieldEntry_past: "returns q (past q) (fieldEntry fs q)"
  unfolding fieldEntry_def by (rule run_rules runs_Some move_rules | assumption | simp)+

lemma parseFieldBlock_runs [parser_runs]: "adv p n q \<Longrightarrow> returns p n (parseFieldBlock q)"
  unfolding parseFieldBlock_def by (rule parseBlock_runs fieldEntry_past | assumption | simp)+

lemma parseExecution_runs [parser_runs]: "adv p n q \<Longrightarrow> returns p n (parseExecution q)"
  unfolding parseExecution_def by (rule run_rules runs_Some move_rules | assumption | simp)+

lemma toolHTTPSwitch_past: "returns q (past q) (toolHTTPSwitch tc q)"
  unfolding toolHTTPSwitch_def by (rule run_rules runs_Some parser_runs move_rules | assumption | simp)+

lemma toolCommandSwitch_past: "returns q (past q) (toolCommandSwitch tc q)"
  unfolding toolCommandSwitch_def by (rule run_rules runs_Some parser_runs move_rules | assumption | simp)+

lemma toolInlineSwitch_past: "returns q (past q) (toolInlineSwitch tc q)"
  unfolding toolInlineSwitch_def by (rule run_rules runs_Some parser_runs move_rules | assumption | simp)+

lemma memorySwitch_past: "returns q (past q) (memorySwitch mc q)"
  unfolding memorySwitch_def by (rule run_rules runs_Some parser_runs move_rules | assumption | simp)+

lemma resourcesSwitch_past: "returns q (past q) (resourcesSwitch rl q)"
  unfolding resourcesSwitch_def by (rule run_rules runs_Some parser_runs move_rules | assumption | simp)+

lemma healthSwitch_past: "returns q (past q) (healthSwitch hc q)"
  unfolding healthSwitch_def by (rule run_rules runs_Some parser_runs move_rules | assumption | simp)+

lemma autoscaleSwitch_past: "returns q (past q) (autoscaleSwitch ac q)"
  unfolding autoscaleSwitch_def by (rule run_rules runs_Some parser_runs move_rules | assumption | simp)+

lemma stepSwitch_past: "returns q (past q) (stepSwitch st q)"
  unfolding stepSwitch_def by (rule run_rules runs_Some parser_runs move_rules | assumption | simp)+

lemmas switch_past = toolHTTPSwitch_past toolCommandSwitch_past toolInlineSwitch_past memorySwitch_past
  resourcesSwitch_past healthSwitch_past autoscaleSwitch_past stepSwitch_past

lemma parseToolConfig_runs [parser_runs]: "adv p n q \<Longrightarrow> returns p n (parseToolConfig q)"
  unfolding parseToolConfig_def
  by (rule run_rules runs_Some parseBlock_runs switch_past move_rules | assumption | simp)+

lemma parseMemoryConfig_runs [parser_runs]: "adv p n q \<Longrightarrow> returns p n (parseMemoryConfig q)"
  unfolding parseMemoryConfig_def
  by (rule run_rules runs_Some parseBlock_runs switch_past move_rules | assumption | simp)+

lemma parseResourceLimits_runs [parser_runs]: "adv p n q \<Longrightarrow> returns p n (parseResourceLimits q)"
  unfolding parseResourceLimits_def
  by (rule run_rules runs_Some parseBlock_runs switch_past move_rules | assumption | simp)+

lemma parseHealthConfig_runs [parser_runs]: "adv p n q \<Longrightarrow> returns p n (parseHealthConfig q)"
  unfolding parseHealthConfig_def
  by (rule run_rules runs_Some parseBlock_runs switch_past move_rules | assumption | simp)+

lemma parseAutoscaleConfig_runs [parser_runs]: "adv p n q \<Longrightarrow> returns p n (parseAutoscaleConfig q)"
  unfolding parseAutoscaleConfig_def
  by (rule run_rules runs_Some parseBlock_runs switch_past move_rules | assumption | simp)+

lemma parsePipelineStep_runs [parser_runs]: "adv p n q \<Longrightarrow> returns p n (parsePipelineStep q)"
  unfolding parsePipelineStep_def
  by (rule run_rules runs_Some parseBlock_runs switch_past move_rules | assumption | simp)+

lemma parseDelegate_runs [parser_runs]: "adv p n q \<Longrightarrow> returns p n (parseDelegate q)"
  unfolding parseDelegate_def
  by (rule run_rules runs_Some parseBlock_runs switch_past move_rules | assumption | simp)+


lemma modifiers_runs [parser_runs]: "adv p n q \<Longrightarrow> returns p n (modifiers m q)"
  unfolding modifiers_def
  by (rule ploop_runs steps_case steps_if steps_break steps_go run_rules runs_Some move_rules adv_start | assumption | simp)+

lemma variableEntry_past: "returns q (past q) (variableEntry vars q)"
  unfolding variableEntry_def
  by (rule run_rules runs_Some parser_runs move_rules runs_case | assumption | simp)+

lemma typeFieldEntry_past: "td_Name a = s \<Longrightarrow> runs q (past q) (\<lambda>x. td_Name x = s) (typeFieldEntry a q)"
  unfolding typeFieldEntry_def
  by (rule run_rules runs_Some parser_runs move_rules runs_case | assumption | simp)+

lemma parseVariablesBlock_runs [parser_runs]: "adv p n q \<Longrightarrow> returns p n (parseVariablesBlock q)"
  unfolding parseVariablesBlock_def by (rule parseBlock_runs variableEntry_past | assumption | simp)+

lemma collectExpressionUntil_runs [parser_runs]: "adv p n q \<Longrightarrow> returns p n (collectExpressionUntil stops q)"
  unfolding collectExpressionUntil_def
  by (rule ploop_runs steps_go run_rules runs_Some move_rules | assumption | simp)+

lemma configModifiers_runs [parser_runs]: "adv p n q \<Longrightarrow> returns p n (configModifiers param q)"
  unfolding configModifiers_def
  by (rule ploop_runs steps_if steps_break steps_go run_rules runs_Some move_rules adv_start | assumption | simp)+

lemma configEntry_past: "returns q (past q) (configEntry params q)"
  unfolding configEntry_def
  by (rule run_rules runs_Some parser_runs move_rules | assumption | simp)+

lemma parseConfigBlock_runs [parser_runs]: "adv p n q \<Longrightarrow> returns p n (parseConfigBlock q)"
  unfolding parseConfigBlock_def by (rule parseBlock_runs configEntry_past | assumption | simp)+

lemma continueBlock_runs:
  assumes body: "\<And>a q. adv p n q \<Longrightarrow> I a \<Longrightarrow> runs q (past q) (\<lambda>(a, _). I a) (body a q)"
    and "adv p n q" "I a"
  shows "runs p n I (continueBlock body a q)"
proof -
  have "steps q I (let p = skipNewlines q in if check TokenRBrace p then Some ((a, False), p)
      else body a p \<bind> (\<lambda>((a, finished), p). Some ((a, True), if finished then skipNewlines p else p)))"
    if "adv p n q" "I a" for a q
    unfolding Let_def
    by (intro steps_if steps_break steps_go adv_fwd [OF adv_start fwd_skipNewlines] that
          runs_bind [OF skip_then [where f = "body a", OF body that(1)]])
      (auto intro: runs_Some move_rules simp: that)
  then show ?thesis
    unfolding continueBlock_def
    by (intro runs_let_parser runs_bind [OF ploop_runs [where I = I]] runs_Some move_rules assms) simp_all
qed

lemma validateEntry_past: "returns q (past q) (validateEntry rules q)"
  unfolding validateEntry_def
  by (rule run_rules runs_Some parser_runs move_rules | assumption | simp)+

lemma parseValidateBlock_runs [parser_runs]: "adv p n q \<Longrightarrow> returns p n (parseValidateBlock q)"
  unfolding parseValidateBlock_def
  by (rule continueBlock_runs) (simp_all add: validateEntry_past split_def)

lemma evalCaseSwitch_past: "returns q (past q) (evalCaseSwitch ec q)"
  unfolding evalCaseSwitch_def
  by (rule run_rules runs_Some parser_runs move_rules | assumption | simp)+

lemma evalCaseLoop_runs [parser_runs]: "adv p n q \<Longrightarrow> returns p n (evalCaseLoop ec q)"
  unfolding evalCaseLoop_def Let_def
  by (rule ploop_runs steps_if steps_break steps_go run_rules runs_Some
        skip_then [where f = "evalCaseSwitch _", OF evalCaseSwitch_past] move_rules adv_start | assumption | simp)+

lemma evalEntry_past: "returns q (past q) (evalEntry cs q)"
  unfolding evalEntry_def
  by (rule run_rules runs_Some parser_runs move_rules | assumption | simp)+

lemma parseEvalBlock_runs [parser_runs]: "adv p n q \<Longrightarrow> returns p n (parseEvalBlock q)"
  unfolding parseEvalBlock_def
  by (rule continueBlock_runs) (simp_all add: evalEntry_past split_def)

end
