(* ===== verification/Parser_OnInput.thy ===== *)
theory Parser_OnInput
  imports Parser_Blocks
begin

text \<open>
  The statements of an \<open>on input\<close> block (\<open>parseOnInputBlock\<close> to \<open>parseForEachBlock\<close> of
  \<open>internal/parser/parser.go\<close>), which nest. The recursion carries a bound on the nesting; the
  bound the parser is run with is always enough, and a larger one gives the same result.
\<close>

subsection \<open>Statements of an on input block\<close>

definition paramEntry :: "(string, string) gomap \<Rightarrow> Parser \<Rightarrow> ((string, string) gomap \<times> Parser) option" where
  "paramEntry params p =
     do {
       let (key, p) = expectStringOrIdent ''param key'' p;
       let p = expectToken TokenColon p;
       (val, p) \<leftarrow> collectExpressionUntil [TokenComma, TokenRBrace, TokenNewline] p;
       Some (mput key val params, if check TokenComma p then advance p else p)
     }"

definition parseUseSkillStmt :: "Parser \<Rightarrow> (OnInputStmt \<times> Parser) option" where
  "parseUseSkillStmt p =
     do {
       let startPos = currentPos p;
       let p = expect TokenUse p;
       let (_, p) = optional TokenSkill p;
       let (name, p) = expectStringOrIdent ''skill name'' p;
       (params, p) \<leftarrow>
         (if check TokenWith p then do { (m, p) \<leftarrow> parseBlock paramEntry [] (advance p); Some (Some m, p) }
          else Some (None, p));
       Some (UseSkillStmt name params startPos (currentPos p), p)
     }"

definition parseDelegateToStmt :: "Parser \<Rightarrow> (OnInputStmt \<times> Parser) option" where
  "parseDelegateToStmt p =
     (let startPos = currentPos p;
          p = expect TokenDelegate p;
          (_, p) = optional TokenTo p;
          (name, p) = expectStringOrIdent ''agent name'' p
      in Some (DelegateToStmt name startPos (currentPos p), p))"

definition parseRespondStmt :: "Parser \<Rightarrow> (OnInputStmt \<times> Parser) option" where
  "parseRespondStmt p =
     do {
       let startPos = currentPos p;
       let p = expect TokenRespond p;
       (expr, p) \<leftarrow> (if check TokenString p then Some (literal p, advance p)
                      else collectExpressionUntil [TokenNewline, TokenRBrace] p);
       Some (RespondStmt expr startPos (currentPos p), p)
     }"

text \<open>
  The statements of a nested block are parsed by the function itself; it is the argument
  \<open>stmts\<close> of the two parsers that call it.
\<close>

definition stmtBlock ::
  "(Parser \<Rightarrow> (OnInputStmt list \<times> Parser) option) \<Rightarrow> Parser \<Rightarrow> (OnInputStmt list \<times> Parser) option"
where
  "stmtBlock stmts p =
     do {
       let p = expectToken TokenLBrace p;
       let p = skipNewlines p;
       (body, p) \<leftarrow> stmts p;
       Some (body, expectToken TokenRBrace p)
     }"

definition elseBranch ::
  "(Parser \<Rightarrow> (OnInputStmt list \<times> Parser) option) \<Rightarrow> ElseIfClause list \<times> OnInputStmt list \<Rightarrow> Parser
    \<Rightarrow> (((ElseIfClause list \<times> OnInputStmt list) \<times> bool) \<times> Parser) option"
where
  "elseBranch stmts = (\<lambda>(elifs, els) p.
     let p = advance p in
     if check TokenIf p then
       do {
         let p = advance p;
         let startPos = currentPos p;
         (cond, p) \<leftarrow> collectExpressionUntil [TokenLBrace] p;
         (body, p) \<leftarrow> stmtBlock stmts p;
         Some (((elifs @ [ElseIfClause cond body startPos (currentPos p)], els), True), skipNewlines p)
       }
     else
       do {
         (body, p) \<leftarrow> stmtBlock stmts p;
         Some (((elifs, body), False), p)
       })"

definition parseIfBlock ::
  "(Parser \<Rightarrow> (OnInputStmt list \<times> Parser) option) \<Rightarrow> Parser \<Rightarrow> (OnInputStmt \<times> Parser) option"
where
  "parseIfBlock stmts p =
     do {
       let startPos = currentPos p;
       let p = expect TokenIf p;
       (cond, p) \<leftarrow> collectExpressionUntil [TokenLBrace] p;
       (body, p) \<leftarrow> stmtBlock stmts p;
       let p = skipNewlines p;
       ((elifs, els), p) \<leftarrow> ploop (check TokenElse) (elseBranch stmts) ([], []) p;
       Some (IfBlock cond body elifs els startPos (currentPos p), p)
     }"

definition parseForEachBlock ::
  "(Parser \<Rightarrow> (OnInputStmt list \<times> Parser) option) \<Rightarrow> Parser \<Rightarrow> (OnInputStmt \<times> Parser) option"
where
  "parseForEachBlock stmts p =
     do {
       let startPos = currentPos p;
       let p = expect TokenFor p;
       let (_, p) = optional TokenEach p;
       let (var, p) = expectStringOrIdent ''loop variable'' p;
       let p = (if check TokenIn p then advance p
                else addError (Text (''expected '' @ tick ''in'' @ '' in for each loop'')) [] p);
       (coll, p) \<leftarrow> collectExpressionUntil [TokenLBrace] p;
       (body, p) \<leftarrow> stmtBlock stmts p;
       Some (ForEachBlock var coll body startPos (currentPos p), p)
     }"

definition onInputSwitch ::
  "(Parser \<Rightarrow> (OnInputStmt list \<times> Parser) option) \<Rightarrow> OnInputStmt list \<Rightarrow> Parser \<Rightarrow> (OnInputStmt list \<times> Parser) option"
where
  "onInputSwitch stmts ss p =
     (if check TokenUse p then do { (s, p) \<leftarrow> parseUseSkillStmt p; Some (ss @ [s], p) }
      else if check TokenDelegate p then do { (s, p) \<leftarrow> parseDelegateToStmt p; Some (ss @ [s], p) }
      else if check TokenRespond p then do { (s, p) \<leftarrow> parseRespondStmt p; Some (ss @ [s], p) }
      else if check TokenIf p then do { (s, p) \<leftarrow> parseIfBlock stmts p; Some (ss @ [s], p) }
      else if check TokenFor p then do { (s, p) \<leftarrow> parseForEachBlock stmts p; Some (ss @ [s], p) }
      else Some (ss, unexpected '' in on input block''
        (''expected '' @ tick ''use'' @ '', '' @ tick ''delegate'' @ '', '' @ tick ''respond'' @ '', '' @
         tick ''if'' @ '', or '' @ tick ''for'') p))"

text \<open>
  The recursion, bounded by the number of nested blocks. Each level of nesting reads a token, so
  one more than the number of tokens is enough.
\<close>

primrec parseOnInputStatements :: "nat \<Rightarrow> Parser \<Rightarrow> (OnInputStmt list \<times> Parser) option" where
  "parseOnInputStatements 0 p = None"
| "parseOnInputStatements (Suc n) p = blockLoop (onInputSwitch (parseOnInputStatements n)) [] p"

definition parseOnInputBlock :: "Parser \<Rightarrow> (OnInputBlock \<times> Parser) option" where
  "parseOnInputBlock p =
     do {
       let block = new_OnInputBlock (currentPos p);
       let p = (if check TokenInput p then advance p
                else addError (Text (''expected '' @ tick ''input'' @ '' after '' @ tick ''on'')) [] p);
       let p = expectToken TokenLBrace p;
       let p = skipNewlines p;
       (ss, p) \<leftarrow> parseOnInputStatements (Suc (length (par_tokens p))) p;
       let p = expectToken TokenRBrace p;
       Some (block\<lparr>oib_Statements := ss, oib_EndPos := currentPos p\<rparr>, p)
     }"

subsection \<open>The nested blocks return\<close>

text \<open>The parser for nested statements returns wherever it is called behind the token at \<open>q\<close>.\<close>

definition nested :: "Parser \<Rightarrow> (Parser \<Rightarrow> (OnInputStmt list \<times> Parser) option) \<Rightarrow> bool" where
  "nested q stmts \<longleftrightarrow> (\<forall>r. adv q (past q) r \<longrightarrow> returns r 0 (stmts r))"

lemma nested_later: "nested q stmts \<Longrightarrow> adv q (past q) r \<Longrightarrow> nested r stmts"
  unfolding nested_def using adv_chain by blast

lemma nested_call: "nested q stmts \<Longrightarrow> adv q (past q) r \<Longrightarrow> returns q (past q) (stmts r)"
  unfolding nested_def runs_def using adv_chain by blast

lemma stmtBlock_runs: "nested q stmts \<Longrightarrow> adv q (past q) r \<Longrightarrow> returns q (past q) (stmtBlock stmts r)"
  unfolding stmtBlock_def
  by (rule run_rules runs_Some nested_call move_rules | assumption | simp)+

lemma elseBranch_past: "nested q stmts \<Longrightarrow> returns q (past q) (elseBranch stmts (elifs, els) q)"
  unfolding elseBranch_def prod.case
  by (rule run_rules runs_Some stmtBlock_runs parser_runs move_rules | assumption | simp)+

lemma elseBranches_run:
  assumes "nested q stmts" "adv q (past q) r"
  shows "returns q (past q) (ploop (check TokenElse) (elseBranch stmts) a r)"
proof (rule ploop_runs [OF _ _ assms(2)])
  fix a r
  assume "adv q (past q) r"
  with nested_later [OF assms(1)] show "steps r (\<lambda>_. True) (elseBranch stmts a r)"
    using elseBranch_past by (intro steps_go) (cases a, simp add: split_def)
qed (simp_all add: check_def isAtEnd_def)

lemma parseIfBlock_past: "nested q stmts \<Longrightarrow> returns q (past q) (parseIfBlock stmts q)"
  unfolding parseIfBlock_def
  by (rule run_rules runs_Some stmtBlock_runs elseBranches_run parser_runs move_rules runs_case | assumption | simp)+

lemma parseForEachBlock_past: "nested q stmts \<Longrightarrow> returns q (past q) (parseForEachBlock stmts q)"
  unfolding parseForEachBlock_def
  by (rule run_rules runs_Some stmtBlock_runs parser_runs move_rules | assumption | simp)+

lemma paramEntry_past: "returns q (past q) (paramEntry params q)"
  unfolding paramEntry_def
  by (rule run_rules runs_Some parser_runs move_rules | assumption | simp)+

lemma parseUseSkillStmt_past: "returns q (past q) (parseUseSkillStmt q)"
  unfolding parseUseSkillStmt_def
  by (rule run_rules runs_Some parseBlock_runs paramEntry_past parser_runs move_rules | assumption | simp)+

lemma parseDelegateToStmt_past: "returns q (past q) (parseDelegateToStmt q)"
  unfolding parseDelegateToStmt_def
  by (rule run_rules runs_Some parser_runs move_rules | assumption | simp)+

lemma parseRespondStmt_past: "returns q (past q) (parseRespondStmt q)"
  unfolding parseRespondStmt_def
  by (rule run_rules runs_Some parser_runs move_rules | assumption | simp)+

lemma onInputSwitch_past: "nested q stmts \<Longrightarrow> returns q (past q) (onInputSwitch stmts ss q)"
  unfolding onInputSwitch_def
  by (rule run_rules runs_Some parseUseSkillStmt_past parseDelegateToStmt_past parseRespondStmt_past
        parseIfBlock_past parseForEachBlock_past move_rules | assumption | simp)+

lemma onInputSwitch_end: "isAtEnd q \<Longrightarrow> returns q (past q) (onInputSwitch stmts ss q)"
  by (simp add: onInputSwitch_def check_def isAtEnd_def runs_Some past_unexpected)

lemma parseOnInputStatements_returns:
  "length (par_tokens q) - par_pos q < n \<Longrightarrow> returns q 0 (parseOnInputStatements n q)"
proof (induction n arbitrary: q)
  case (Suc n)
  have "returns r (past r) (onInputSwitch (parseOnInputStatements n) ss r)" if r: "adv q 0 r" for r ss
  proof (cases "isAtEnd r")
    case True
    then show ?thesis by (rule onInputSwitch_end)
  next
    case False
    have "nested r (parseOnInputStatements n)"
      unfolding nested_def
    proof (intro allI impI Suc.IH)
      fix s
      assume s: "adv r (past r) s"
      have "par_pos r < par_pos s" by (rule adv_past [OF False s])
      moreover have "par_pos r < length (par_tokens r)" by (rule not_at_end [OF False])
      moreover have "par_pos q \<le> par_pos r" "par_tokens r = par_tokens q" "par_tokens s = par_tokens r"
        using r s by (simp_all add: adv_def fwd_def)
      ultimately show "length (par_tokens s) - par_pos s < n" using Suc.prems by simp
    qed
    then show ?thesis by (rule onInputSwitch_past)
  qed
  then show ?case
    unfolding parseOnInputStatements.simps by (intro blockLoop_runs adv_start) simp_all
qed simp

lemma parseOnInputBlock_runs [parser_runs]: "adv p n q \<Longrightarrow> returns p n (parseOnInputBlock q)"
proof -
  have enough: "returns p n (parseOnInputStatements (Suc (length (par_tokens r))) r)" if "adv p n r" for r
    using parseOnInputStatements_returns [of r "Suc (length (par_tokens r))"] adv_chain [OF that]
    unfolding runs_def by fastforce
  show "adv p n q \<Longrightarrow> ?thesis"
    unfolding parseOnInputBlock_def
    by (rule run_rules runs_Some enough move_rules | assumption | simp)+
qed


subsection \<open>The bound on nesting does not matter\<close>

definition below :: "('a \<Rightarrow> 'b option) \<Rightarrow> ('a \<Rightarrow> 'b option) \<Rightarrow> bool" where
  "below f g \<longleftrightarrow> (\<forall>x y. f x = Some y \<longrightarrow> g x = Some y)"

lemma belowD: "below f g \<Longrightarrow> f x = Some y \<Longrightarrow> g x = Some y"
  by (simp add: below_def)

lemma bind_mono:
  "m \<bind> f = Some y \<Longrightarrow> (\<And>x. m = Some x \<Longrightarrow> m' = Some x) \<Longrightarrow> (\<And>x. f x = Some y \<Longrightarrow> g x = Some y) \<Longrightarrow>
     m' \<bind> g = Some y"
  by (auto simp: bind_eq_Some_conv)

lemma case_prod_mono:
  "case_prod f x = Some y \<Longrightarrow> (\<And>a b. f a b = Some y \<Longrightarrow> g a b = Some y) \<Longrightarrow> case_prod g x = Some y"
  by (cases x) simp

lemma let_mono: "Let v f = Some y \<Longrightarrow> (\<And>v. f v = Some y \<Longrightarrow> g v = Some y) \<Longrightarrow> Let v g = Some y"
  by (simp add: Let_def)

lemma if_mono:
  "(if c then a else b) = Some y \<Longrightarrow> (a = Some y \<Longrightarrow> a' = Some y) \<Longrightarrow> (b = Some y \<Longrightarrow> b' = Some y) \<Longrightarrow>
     (if c then a' else b') = Some y"
  by (simp split: if_splits)

lemma ploop_mono:
  assumes "\<And>a p y. body a p = Some y \<Longrightarrow> body' a p = Some y" and run: "ploop cond body a p = Some y"
  shows "ploop cond body' a p = Some y"
proof -
  let ?le = "\<lambda>b b'. \<forall>a p y. b a p = Some y \<longrightarrow> b' a p = Some y"
  have "?le body body' \<longrightarrow> ploop cond body' a p = Some y"
  proof (rule ploop.raw_induct [where P = "\<lambda>c b a p y. ?le b body' \<longrightarrow> ploop c body' a p = Some y", OF _ run])
    fix pl cond body a p y
    assume IH: "\<And>c b a p y. pl c b a p = Some y \<Longrightarrow> ?le b body' \<longrightarrow> ploop c body' a p = Some y"
      and eq: "(if cond p then body a p \<bind> (\<lambda>((a, go), p). if go then pl cond body a p else Some (a, p))
        else Some (a, p)) = Some y"
    show "?le body body' \<longrightarrow> ploop cond body' a p = Some y"
    proof
      assume le: "?le body body'"
      show "ploop cond body' a p = Some y"
      proof (cases "cond p")
        case False
        with eq show ?thesis by (subst ploop.simps) simp
      next
        case True
        with eq obtain a' go p' where b: "body a p = Some ((a', go), p')"
          "(if go then pl cond body a' p' else Some (a', p')) = Some y"
          by (auto simp: bind_eq_Some_conv)
        have "(if go then ploop cond body' a' p' else Some (a', p')) = Some y"
          using b(2) IH [of cond body a' p' y] le by (auto split: if_splits)
        with True b(1) le show ?thesis by (subst ploop.simps) (simp del: if_split)
      qed
    qed
  qed
  with assms(1) show ?thesis by blast
qed

lemma blockLoop_mono:
  assumes "\<And>a p y. sw a p = Some y \<Longrightarrow> sw' a p = Some y"
  shows "blockLoop sw a p = Some y \<Longrightarrow> blockLoop sw' a p = Some y"
  unfolding blockLoop_def
  by (erule ploop_mono [rotated]) (elim let_mono if_mono bind_mono; simp add: assms)

lemma stmtBlock_mono: "below s t \<Longrightarrow> stmtBlock s p = Some y \<Longrightarrow> stmtBlock t p = Some y"
  unfolding stmtBlock_def by (elim let_mono bind_mono; auto dest: belowD)

lemma elseBranch_mono: "below s t \<Longrightarrow> elseBranch s a p = Some y \<Longrightarrow> elseBranch t a p = Some y"
  unfolding elseBranch_def
  by (cases a) (auto simp: Let_def bind_eq_Some_conv dest: stmtBlock_mono split: if_splits)

lemma onInputSwitch_mono: "below s t \<Longrightarrow> onInputSwitch s ss p = Some y \<Longrightarrow> onInputSwitch t ss p = Some y"
proof -
  assume st: "below s t"
  have "parseIfBlock s p = Some z \<Longrightarrow> parseIfBlock t p = Some z"
    "parseForEachBlock s p = Some z \<Longrightarrow> parseForEachBlock t p = Some z" for p z
    unfolding parseIfBlock_def parseForEachBlock_def
    by (elim let_mono bind_mono case_prod_mono; auto dest: stmtBlock_mono [OF st] ploop_mono [rotated] elseBranch_mono [OF st])+
  then show "onInputSwitch s ss p = Some y \<Longrightarrow> onInputSwitch t ss p = Some y"
    unfolding onInputSwitch_def by (elim if_mono bind_mono) auto
qed

lemma parseOnInputStatements_below: "below (parseOnInputStatements n) (parseOnInputStatements (Suc n))"
proof (induction n)
  case (Suc n)
  show ?case
    unfolding below_def
  proof (intro allI impI)
    fix x y
    assume "parseOnInputStatements (Suc n) x = Some y"
    then have "blockLoop (onInputSwitch (parseOnInputStatements n)) [] x = Some y"
      by (simp only: parseOnInputStatements.simps(2))
    with onInputSwitch_mono [OF Suc]
    have "blockLoop (onInputSwitch (parseOnInputStatements (Suc n))) [] x = Some y"
      by (rule blockLoop_mono)
    then show "parseOnInputStatements (Suc (Suc n)) x = Some y"
      by (simp only: parseOnInputStatements.simps(2))
  qed
qed (simp add: below_def)

lemma parseOnInputStatements_fuel:
  assumes "length (par_tokens q) - par_pos q < n" "n \<le> m"
  shows "parseOnInputStatements m q = parseOnInputStatements n q"
proof -
  obtain y where y: "parseOnInputStatements n q = Some y"
    using parseOnInputStatements_returns [OF assms(1)] by (auto simp: runs_def)
  from assms(2) have "parseOnInputStatements m q = Some y"
    by (induction m rule: dec_induct) (auto simp: y dest: belowD [OF parseOnInputStatements_below])
  with y show ?thesis by simp
qed

end
