(* ===== verification/Parser_Stmts.thy ===== *)
theory Parser_Stmts
  imports Parser_OnInput
begin

text \<open>
  The statements of a file (\<open>internal/parser/parser.go\<close>): one parsing function for each kind of
  resource, with its switch. Each returns, goes past its keyword, and registers exactly the name
  of the node it returns.
\<close>

subsection \<open>Prompts and skills\<close>

definition promptSwitch :: "Prompt \<Rightarrow> Parser \<Rightarrow> (Prompt \<times> Parser) option" where
  "promptSwitch prompt p =
     (if check TokenContent p then
        let (s, p) = expectString ''prompt content'' (advance p) in Some (prompt\<lparr>pr_Content := s\<rparr>, p)
      else if check TokenVersion p then
        let (s, p) = expectString ''version'' (advance p) in Some (prompt\<lparr>pr_Version := s\<rparr>, p)
      else if check TokenVariables p then
        do { (vs, p) \<leftarrow> parseVariablesBlock (advance p); Some (prompt\<lparr>pr_Variables := vs\<rparr>, p) }
      else if check TokenMetadata p then
        do { (m, p) \<leftarrow> parseMetadataBlock (pr_Metadata prompt) (advance p); Some (prompt\<lparr>pr_Metadata := m\<rparr>, p) }
      else Some (prompt, unexpected '' in prompt block'' [] p))"

definition parsePrompt :: "Parser \<Rightarrow> (Prompt \<times> Parser) option" where
  "parsePrompt p =
     do {
       let startPos = currentPos p;
       let p = expect TokenPrompt p;
       let (name, p) = expectString ''prompt name'' p;
       let p = registerName ''Prompt'' name startPos p;
       (prompt, p) \<leftarrow> parseBlock promptSwitch ((new_Prompt startPos)\<lparr>pr_Name := name\<rparr>) p;
       Some (prompt\<lparr>pr_EndPos := currentPos p\<rparr>, p)
     }"

definition skillSwitch :: "Skill \<Rightarrow> Parser \<Rightarrow> (Skill \<times> Parser) option" where
  "skillSwitch skill p =
     (if check TokenDescription p then
        let (s, p) = expectString ''description'' (advance p) in Some (skill\<lparr>sk_Description := s\<rparr>, p)
      else if check TokenInput p then
        do { (fs, p) \<leftarrow> parseFieldBlock (advance p); Some (skill\<lparr>sk_Input := fs\<rparr>, p) }
      else if check TokenOutput p then
        do { (fs, p) \<leftarrow> parseFieldBlock (advance p); Some (skill\<lparr>sk_Output := fs\<rparr>, p) }
      else if check TokenExecution p then
        do { (e, p) \<leftarrow> parseExecution (advance p); Some (skill\<lparr>sk_Execution := Some e\<rparr>, p) }
      else if check TokenTool p then
        do { (tc, p) \<leftarrow> parseToolConfig (advance p); Some (skill\<lparr>sk_ToolConfig := Some tc\<rparr>, p) }
      else if check TokenMetadata p then
        do { (m, p) \<leftarrow> parseMetadataBlock (sk_Metadata skill) (advance p); Some (skill\<lparr>sk_Metadata := m\<rparr>, p) }
      else Some (skill, unexpected '' in skill block'' [] p))"

definition parseSkill :: "Parser \<Rightarrow> (Skill \<times> Parser) option" where
  "parseSkill p =
     do {
       let startPos = currentPos p;
       let p = expect TokenSkill p;
       let (name, p) = expectString ''skill name'' p;
       let p = registerName ''Skill'' name startPos p;
       (skill, p) \<leftarrow> parseBlock skillSwitch ((new_Skill startPos)\<lparr>sk_Name := name\<rparr>) p;
       Some (skill\<lparr>sk_EndPos := currentPos p\<rparr>, p)
     }"

subsection \<open>Agents\<close>

text \<open>A reference; both of its positions are taken after the name is read.\<close>

definition reference :: "string \<Rightarrow> string \<Rightarrow> Parser \<Rightarrow> Ref \<times> Parser" where
  "reference kind ctx p =
     (let (name, p) = expectString ctx p
      in ((new_Ref (currentPos p))\<lparr>ref_Kind := kind, ref_Name := name, ref_EndPos := currentPos p\<rparr>, p))"

definition agentUses :: "Agent \<Rightarrow> Parser \<Rightarrow> (Agent \<times> Parser) option" where
  "agentUses agent p =
     (if check TokenPrompt p then
        let (r, p) = reference ''prompt'' ''prompt reference'' (advance p) in Some (agent\<lparr>ag_Prompt := Some r\<rparr>, p)
      else if check TokenSkill p then
        let (r, p) = reference ''skill'' ''skill reference'' (advance p)
        in Some (agent\<lparr>ag_Skills := ag_Skills agent @ [r]\<rparr>, p)
      else if check TokenGuardrail p then
        let (s, p) = expectString ''guardrail reference'' (advance p)
        in Some (agent\<lparr>ag_GuardrailRefs := ag_GuardrailRefs agent @ [s]\<rparr>, p)
      else Some (agent, addError (Text (''expected '' @ tick ''prompt'' @ '', '' @ tick ''skill'' @ '', or '' @
                   tick ''guardrail'' @ '' after '' @ tick ''uses'')) [] p))"

definition agentBudget :: "Agent \<Rightarrow> Parser \<Rightarrow> (Agent \<times> Parser) option" where
  "agentBudget agent p =
     (if check TokenDaily p then
        let (f, p) = expectFloat ''daily budget'' (advance p) in Some (agent\<lparr>ag_BudgetDaily := f\<rparr>, p)
      else if check TokenMonthly p then
        let (f, p) = expectFloat ''monthly budget'' (advance p) in Some (agent\<lparr>ag_BudgetMonthly := f\<rparr>, p)
      else Some (agent, addError (Text (''expected '' @ tick ''daily'' @ '' or '' @ tick ''monthly'' @
                   '' after '' @ tick ''budget'')) [] p))"

definition agentSwitch :: "Agent \<Rightarrow> Parser \<Rightarrow> (Agent \<times> Parser) option" where
  "agentSwitch agent p =
     (if check TokenUses p then agentUses agent (advance p)
      else if check TokenModel p then
        let (s, p) = expectString ''model'' (advance p) in Some (agent\<lparr>ag_Model := s\<rparr>, p)
      else if check TokenModels p then
        do { (xs, p) \<leftarrow> parseStringList (advance p); Some (agent\<lparr>ag_Models := xs\<rparr>, p) }
      else if check TokenBudgetKw p then agentBudget agent (advance p)
      else if check TokenConnects p then
        let (_, p) = optional TokenTo (advance p);
            (_, p) = optional TokenClient p;
            (r, p) = reference ''client'' ''client reference'' p
        in Some (agent\<lparr>ag_Client := Some r\<rparr>, p)
      else if check TokenStrategy p then
        let (s, p) = expectString ''strategy'' (advance p) in Some (agent\<lparr>ag_Strategy := s\<rparr>, p)
      else if check TokenMaxTurns p then
        let (n, p) = expectInt ''max_turns'' (advance p) in Some (agent\<lparr>ag_MaxTurns := n\<rparr>, p)
      else if check TokenTimeout p then
        let (s, p) = expectString ''timeout'' (advance p) in Some (agent\<lparr>ag_Timeout := s\<rparr>, p)
      else if check TokenTokenBudget p then
        let (n, p) = expectInt ''token_budget'' (advance p) in Some (agent\<lparr>ag_TokenBudget := n\<rparr>, p)
      else if check TokenTemperature p then
        let (f, p) = expectFloat ''temperature'' (advance p)
        in Some (agent\<lparr>ag_Temperature := f, ag_HasTemp := True\<rparr>, p)
      else if check TokenStream p then
        let (b, p) = expectBool ''stream'' (advance p) in Some (agent\<lparr>ag_Stream := Some b\<rparr>, p)
      else if check TokenOnError p then
        let (s, p) = expectString ''on_error'' (advance p) in Some (agent\<lparr>ag_OnError := s\<rparr>, p)
      else if check TokenMaxRetries p then
        let (n, p) = expectInt ''max_retries'' (advance p) in Some (agent\<lparr>ag_MaxRetries := n\<rparr>, p)
      else if check TokenFallback p then
        let (s, p) = expectString ''fallback agent'' (advance p) in Some (agent\<lparr>ag_Fallback := s\<rparr>, p)
      else if check TokenMemory p then
        do { (mc, p) \<leftarrow> parseMemoryConfig (advance p); Some (agent\<lparr>ag_MemoryCfg := Some mc\<rparr>, p) }
      else if check TokenDelegate p then
        do { (d, p) \<leftarrow> parseDelegate (advance p); Some (agent\<lparr>ag_Delegates := ag_Delegates agent @ [d]\<rparr>, p) }
      else if check TokenMetadata p then
        do { (m, p) \<leftarrow> parseMetadataBlock (ag_Metadata agent) (advance p); Some (agent\<lparr>ag_Metadata := m\<rparr>, p) }
      else if check TokenPrompt p then
        let (name, p) = expectStringOrIdent ''prompt reference'' (advance p)
        in Some (agent\<lparr>ag_Prompt := Some ((new_Ref (currentPos p))\<lparr>ref_Kind := ''prompt'', ref_Name := name,
                          ref_EndPos := currentPos p\<rparr>)\<rparr>, p)
      else if check TokenConfig p then
        do { (cs, p) \<leftarrow> parseConfigBlock (advance p); Some (agent\<lparr>ag_ConfigParams := cs\<rparr>, p) }
      else if check TokenValidate p then
        do { (vs, p) \<leftarrow> parseValidateBlock (advance p); Some (agent\<lparr>ag_ValidationRules := vs\<rparr>, p) }
      else if check TokenEval p then
        do { (es, p) \<leftarrow> parseEvalBlock (advance p); Some (agent\<lparr>ag_EvalCases := es\<rparr>, p) }
      else if check TokenOn p then
        do { (b, p) \<leftarrow> parseOnInputBlock (advance p); Some (agent\<lparr>ag_OnInput := Some b\<rparr>, p) }
      else if check TokenLoop p then
        let (s, p) = expectString ''loop strategy'' (advance p) in Some (agent\<lparr>ag_Strategy := s\<rparr>, p)
      else Some (agent, unexpected '' in agent block'' [] p))"

definition parseAgent :: "Parser \<Rightarrow> (Agent \<times> Parser) option" where
  "parseAgent p =
     do {
       let startPos = currentPos p;
       let p = expect TokenAgent p;
       let (name, p) = expectString ''agent name'' p;
       let p = registerName ''Agent'' name startPos p;
       (agent, p) \<leftarrow> parseBlock agentSwitch ((new_Agent startPos)\<lparr>ag_Name := name\<rparr>) p;
       Some (agent\<lparr>ag_EndPos := currentPos p\<rparr>, p)
     }"

subsection \<open>Bindings, secrets and environments\<close>

definition bindingSwitch :: "ast_Binding \<Rightarrow> Parser \<Rightarrow> (ast_Binding \<times> Parser) option" where
  "bindingSwitch binding p =
     (if check TokenDefault p then
        let p = advance p;
            (b, p) = (if check TokenTrue p then (True, advance p)
                      else if check TokenFalse p then (False, advance p)
                      else (True, p))
        in Some (binding\<lparr>abd_Default := b\<rparr>, p)
      else if check TokenAdapter p then
        let (s, p) = expectString ''adapter name'' (advance p) in Some (binding\<lparr>abd_Adapter := s\<rparr>, p)
      else
        let key = literal p;
            p = advance p;
            val = literal p
        in Some (binding\<lparr>abd_Config := mput key val (abd_Config binding)\<rparr>, advance p))"

definition parseBinding :: "Parser \<Rightarrow> (ast_Binding \<times> Parser) option" where
  "parseBinding p =
     do {
       let startPos = currentPos p;
       let p = expect TokenBinding p;
       let (name, p) = expectString ''binding name'' p;
       let p = registerName ''Binding'' name startPos p;
       let (adapter, p) = (if check TokenAdapter p then expectString ''adapter name'' (advance p) else ([], p));
       (binding, p) \<leftarrow> parseBlock bindingSwitch ((new_ast_Binding startPos)\<lparr>abd_Name := name, abd_Adapter := adapter\<rparr>) p;
       Some (binding\<lparr>abd_EndPos := currentPos p\<rparr>, p)
     }"

definition secretKey :: "string \<Rightarrow> Parser \<Rightarrow> string \<times> Parser" where
  "secretKey ctx p =
     (if check TokenLParen p then
        let (s, p) = expectStringOrIdent ctx (advance p) in (s, expectToken TokenRParen p)
      else expectStringOrIdent ctx p)"

definition secretSwitch :: "Secret \<Rightarrow> Parser \<Rightarrow> (Secret \<times> Parser) option" where
  "secretSwitch secret p =
     (if check TokenEnv p then
        let (s, p) = secretKey ''env key'' (advance p)
        in Some (secret\<lparr>sec_Source := ''env'', sec_Key := s\<rparr>, p)
      else if check TokenStore p then
        let (s, p) = secretKey ''store path'' (advance p)
        in Some (secret\<lparr>sec_Source := ''store'', sec_Key := s\<rparr>, p)
      else Some (secret, unexpected '' in secret block'' (''expected '' @ tick ''env'' @ '' or '' @ tick ''store'') p))"

definition parseSecret :: "Parser \<Rightarrow> (Secret \<times> Parser) option" where
  "parseSecret p =
     do {
       let startPos = currentPos p;
       let p = expect TokenSecret p;
       let (name, p) = expectString ''secret name'' p;
       let p = registerName ''Secret'' name startPos p;
       (secret, p) \<leftarrow> parseBlock secretSwitch ((new_Secret startPos)\<lparr>sec_Name := name\<rparr>) p;
       Some (secret\<lparr>sec_EndPos := currentPos p\<rparr>, p)
     }"

definition overrideEntry :: "Pos \<Rightarrow> string \<Rightarrow> Environment \<Rightarrow> Parser \<Rightarrow> (Environment \<times> Parser) option" where
  "overrideEntry startPos resource env p =
     (let attr = literal p;
          p = advance p;
          (val, p) = expectStringOrIdent ''override value'' p
      in Some (env\<lparr>env_Overrides := env_Overrides env @
               [(new_Override startPos)\<lparr>ovr_Resource := resource, ovr_Attribute := attr, ovr_Value := val,
                  ovr_EndPos := currentPos p\<rparr>]\<rparr>, p))"

definition environmentEntry :: "Pos \<Rightarrow> Environment \<Rightarrow> Parser \<Rightarrow> (Environment \<times> Parser) option" where
  "environmentEntry startPos env p =
     (let resourceKind = literal p;
          p = advance p;
          (resourceName, p) = expectString ''resource name'' p
      in parseBlock (overrideEntry startPos (resourceKind @ ''/'' @ resourceName)) env p)"

definition parseEnvironment :: "Parser \<Rightarrow> (Environment \<times> Parser) option" where
  "parseEnvironment p =
     do {
       let startPos = currentPos p;
       let p = expect TokenEnvironment p;
       let (name, p) = expectString ''environment name'' p;
       let p = registerName ''Environment'' name startPos p;
       (env, p) \<leftarrow> parseBlock (environmentEntry startPos) ((new_Environment startPos)\<lparr>env_Name := name\<rparr>) p;
       Some (env\<lparr>env_EndPos := currentPos p\<rparr>, p)
     }"

subsection \<open>Policies, plugins and imports\<close>

definition ruleParts :: "Parser \<Rightarrow> (string list \<times> Parser) option" where
  "ruleParts p =
     ploop (\<lambda>p. \<not> check TokenNewline p \<and> \<not> check TokenRBrace p \<and> \<not> isAtEnd p)
       (\<lambda>parts p. Some ((parts @ [literal p], True), advance p)) [] p"

definition ruleAction :: "Parser \<Rightarrow> string option" where
  "ruleAction p =
     (if check TokenDeny p then Some ''deny''
      else if check TokenAllow p then Some ''allow''
      else if check TokenRequire p then Some ''require''
      else None)"

definition policyEntry :: "ast_Policy \<Rightarrow> Parser \<Rightarrow> ((ast_Policy \<times> bool) \<times> Parser) option" where
  "policyEntry policy p =
     (let rule = new_ast_Rule (currentPos p) in
      case ruleAction p of
        None \<Rightarrow> Some ((policy, False),
          unexpected '' in policy block''
            (''expected '' @ tick ''deny'' @ '', '' @ tick ''allow'' @ '', or '' @ tick ''require'') p)
      | Some action \<Rightarrow>
          do {
            (parts, p) \<leftarrow> ruleParts (advance p);
            let rule = (if parts \<noteq> [] then
                          rule\<lparr>rul_Resource := hd parts,
                               rul_Subject := (if length parts > 1 then Join (tl parts) '' '' else [])\<rparr>
                        else rule);
            Some ((policy\<lparr>apl_Rules := apl_Rules policy @ [rule\<lparr>rul_Action := action, rul_EndPos := currentPos p\<rparr>]\<rparr>,
                   True), p)
          })"

definition parsePolicy :: "Parser \<Rightarrow> (ast_Policy \<times> Parser) option" where
  "parsePolicy p =
     do {
       let startPos = currentPos p;
       let p = expect TokenPolicy p;
       let (name, p) = expectString ''policy name'' p;
       let p = registerName ''Policy'' name startPos p;
       (policy, p) \<leftarrow> continueBlock policyEntry ((new_ast_Policy startPos)\<lparr>apl_Name := name\<rparr>) p;
       Some (policy\<lparr>apl_EndPos := currentPos p\<rparr>, p)
     }"

definition parsePlugin :: "Parser \<Rightarrow> (Plugin \<times> Parser) option" where
  "parsePlugin p =
     (let startPos = currentPos p;
          p = expect TokenPlugin p;
          (name, p) = expectString ''plugin name'' p;
          (version, p) = (if check TokenVersion p then expectString ''plugin version'' (advance p) else ([], p))
      in Some ((new_Plugin startPos)\<lparr>plg_Name := name, plg_Version := version, plg_EndPos := currentPos p\<rparr>, p))"

definition parseImportAsStmt :: "Parser \<Rightarrow> (ast_Import \<times> Parser) option" where
  "parseImportAsStmt p =
     (let startPos = currentPos p;
          p = expect TokenImport p;
          (path, p) = expectString ''import path'' p;
          (version, p) = (if check TokenVersion p then expectString ''import version'' (advance p) else ([], p));
          (alias, p) = (if check TokenAs p then expectStringOrIdent ''import alias'' (advance p) else ([], p))
      in Some ((new_ast_Import startPos)\<lparr>aim_Path := path, aim_Version := version, aim_Alias := alias,
                 aim_EndPos := currentPos p\<rparr>, p))"

subsection \<open>Servers, clients and deployment targets\<close>

definition serverSwitch :: "MCPServer \<Rightarrow> Parser \<Rightarrow> (MCPServer \<times> Parser) option" where
  "serverSwitch server p =
     (if check TokenTransport p then
        let (s, p) = expectStringOrIdent ''transport type'' (advance p) in Some (server\<lparr>srv_Transport := s\<rparr>, p)
      else if check TokenCommand p then
        let (s, p) = expectString ''command'' (advance p) in Some (server\<lparr>srv_Command := s\<rparr>, p)
      else if check TokenArgs p then
        do { (xs, p) \<leftarrow> parseStringList (advance p); Some (server\<lparr>srv_Args := xs\<rparr>, p) }
      else if check TokenURL p then
        let (s, p) = expectString ''url'' (advance p) in Some (server\<lparr>srv_URL := s\<rparr>, p)
      else if check TokenAuth p then
        let (r, p) = reference ''secret'' ''auth secret reference'' (advance p)
        in Some (server\<lparr>srv_Auth := Some r\<rparr>, p)
      else if check TokenExposes p then
        let (_, p) = optional TokenSkill (advance p);
            (r, p) = reference ''skill'' ''skill reference'' p
        in Some (server\<lparr>srv_Skills := srv_Skills server @ [r]\<rparr>, p)
      else if check TokenEnv p then
        do { (m, p) \<leftarrow> parseMetadataBlock (srv_Env server) (advance p); Some (server\<lparr>srv_Env := m\<rparr>, p) }
      else if check TokenMetadata p then
        do { (m, p) \<leftarrow> parseMetadataBlock (srv_Metadata server) (advance p); Some (server\<lparr>srv_Metadata := m\<rparr>, p) }
      else Some (server, unexpected '' in server block'' [] p))"

definition parseMCPServer :: "Parser \<Rightarrow> (MCPServer \<times> Parser) option" where
  "parseMCPServer p =
     do {
       let startPos = currentPos p;
       let p = expect TokenServer p;
       let (name, p) = expectString ''server name'' p;
       let p = registerName ''MCPServer'' name startPos p;
       (server, p) \<leftarrow> parseBlock serverSwitch ((new_MCPServer startPos)\<lparr>srv_Name := name\<rparr>) p;
       Some (server\<lparr>srv_EndPos := currentPos p\<rparr>, p)
     }"

definition clientSwitch :: "MCPClient \<Rightarrow> Parser \<Rightarrow> (MCPClient \<times> Parser) option" where
  "clientSwitch client p =
     (if check TokenConnects p then
        let (_, p) = optional TokenTo (advance p);
            (_, p) = optional TokenServer p;
            (r, p) = reference ''server'' ''server reference'' p
        in Some (client\<lparr>cli_Servers := cli_Servers client @ [r]\<rparr>, p)
      else if check TokenMetadata p then
        do { (m, p) \<leftarrow> parseMetadataBlock (cli_Metadata client) (advance p); Some (client\<lparr>cli_Metadata := m\<rparr>, p) }
      else Some (client, unexpected '' in client block'' [] p))"

definition parseMCPClient :: "Parser \<Rightarrow> (MCPClient \<times> Parser) option" where
  "parseMCPClient p =
     do {
       let startPos = currentPos p;
       let p = expect TokenClient p;
       let (name, p) = expectString ''client name'' p;
       let p = registerName ''MCPClient'' name startPos p;
       (client, p) \<leftarrow> parseBlock clientSwitch ((new_MCPClient startPos)\<lparr>cli_Name := name\<rparr>) p;
       Some (client\<lparr>cli_EndPos := currentPos p\<rparr>, p)
     }"

definition deploySwitch :: "ast_DeployTarget \<Rightarrow> Parser \<Rightarrow> (ast_DeployTarget \<times> Parser) option" where
  "deploySwitch dt p =
     (if check TokenPort p then
        let (n, p) = expectInt ''port'' (advance p) in Some (dt\<lparr>adt_Port := n\<rparr>, p)
      else if check TokenDefault p then
        let (b, p) = expectBool ''default'' (advance p) in Some (dt\<lparr>adt_Default := b\<rparr>, p)
      else if check TokenNamespace p then
        let (s, p) = expectString ''namespace'' (advance p) in Some (dt\<lparr>adt_Namespace := s\<rparr>, p)
      else if check TokenReplicas p then
        let (n, p) = expectInt ''replicas'' (advance p) in Some (dt\<lparr>adt_Replicas := n\<rparr>, p)
      else if check TokenImage p then
        let (s, p) = expectString ''image'' (advance p) in Some (dt\<lparr>adt_Image := s\<rparr>, p)
      else if check TokenResources p then
        do { (r, p) \<leftarrow> parseResourceLimits (advance p); Some (dt\<lparr>adt_Resources := Some r\<rparr>, p) }
      else if check TokenHealth p then
        do { (h, p) \<leftarrow> parseHealthConfig (advance p); Some (dt\<lparr>adt_Health := Some h\<rparr>, p) }
      else if check TokenAutoscale p then
        do { (a, p) \<leftarrow> parseAutoscaleConfig (advance p); Some (dt\<lparr>adt_Autoscale := Some a\<rparr>, p) }
      else if check TokenEnv p then
        do { (m, p) \<leftarrow> parseMetadataBlock (adt_Env dt) (advance p); Some (dt\<lparr>adt_Env := m\<rparr>, p) }
      else if check TokenSecrets p then
        do { (m, p) \<leftarrow> parseMetadataBlock (adt_Secrets dt) (advance p); Some (dt\<lparr>adt_Secrets := m\<rparr>, p) }
      else Some (dt, unexpected '' in deploy block'' [] p))"

definition deployTargetType :: "Parser \<Rightarrow> string \<times> Parser" where
  "deployTargetType p =
     (if check TokenTarget p then expectString ''deploy target type'' (advance p)
      else ([], addError (Text (''expected '' @ tick ''target'' @ '' keyword in deploy block'')) [] p))"

definition parseDeployTarget :: "Parser \<Rightarrow> (ast_DeployTarget \<times> Parser) option" where
  "parseDeployTarget p =
     do {
       let startPos = currentPos p;
       let p = expect TokenDeploy p;
       let (name, p) = expectString ''deploy name'' p;
       let p = registerName ''DeployTarget'' name startPos p;
       let (target, p) = deployTargetType p;
       (dt, p) \<leftarrow> parseBlock deploySwitch ((new_ast_DeployTarget startPos)\<lparr>adt_Name := name, adt_Target := target\<rparr>) p;
       Some (dt\<lparr>adt_EndPos := currentPos p\<rparr>, p)
     }"

subsection \<open>Types and pipelines\<close>

definition typeBody :: "TypeDef \<Rightarrow> Parser \<Rightarrow> (TypeDef \<times> Parser) option" where
  "typeBody td p =
     (if check TokenEnum p then
        do { (xs, p) \<leftarrow> parseStringList (advance p); Some (td\<lparr>td_EnumVals := xs\<rparr>, p) }
      else if check TokenList p then
        let p = advance p in Some (td\<lparr>td_ListOf := literal p\<rparr>, advance p)
      else if check TokenLBrace p then parseBlock typeFieldEntry td p
      else Some (td, addError (Text (''expected '' @ tick ''{'' @ '', '' @ tick ''enum'' @ '', or '' @
                   tick ''list'' @ '' after type name'')) [] p))"

definition parseTypeDef :: "Parser \<Rightarrow> (TypeDef \<times> Parser) option" where
  "parseTypeDef p =
     do {
       let startPos = currentPos p;
       let p = expect TokenTypeKw p;
       let (name, p) = expectString ''type name'' p;
       let p = registerName ''Type'' name startPos p;
       (td, p) \<leftarrow> typeBody ((new_TypeDef startPos)\<lparr>td_Name := name\<rparr>) p;
       Some (td\<lparr>td_EndPos := currentPos p\<rparr>, p)
     }"

definition pipelineSwitch :: "Pipeline \<Rightarrow> Parser \<Rightarrow> (Pipeline \<times> Parser) option" where
  "pipelineSwitch pl p =
     (if check TokenStep p then
        do { (st, p) \<leftarrow> parsePipelineStep (advance p); Some (pl\<lparr>pl_Steps := pl_Steps pl @ [st]\<rparr>, p) }
      else Some (pl, unexpected ('' in pipeline block, expected '' @ tick ''step'') [] p))"

definition parsePipeline :: "Parser \<Rightarrow> (Pipeline \<times> Parser) option" where
  "parsePipeline p =
     do {
       let startPos = currentPos p;
       let p = expect TokenPipeline p;
       let (name, p) = expectString ''pipeline name'' p;
       let p = registerName ''Pipeline'' name startPos p;
       (pl, p) \<leftarrow> parseBlock pipelineSwitch ((new_Pipeline startPos)\<lparr>pl_Name := name\<rparr>) p;
       Some (pl\<lparr>pl_EndPos := currentPos p\<rparr>, p)
     }"

subsection \<open>Users, guardrails and state backends\<close>

definition userKey :: "Parser \<Rightarrow> string \<times> Parser" where
  "userKey p =
     (if check TokenSecret p then
        let p = expectToken TokenLParen (advance p);
            (s, p) = expectString ''secret key reference'' p
        in (s, expectToken TokenRParen p)
      else expectString ''key reference'' p)"

definition userSwitch :: "User \<Rightarrow> Parser \<Rightarrow> (User \<times> Parser) option" where
  "userSwitch user p =
     (if check TokenKey p then
        let (s, p) = userKey (advance p) in Some (user\<lparr>usr_KeyRef := s\<rparr>, p)
      else if check TokenAgents p then
        do { (xs, p) \<leftarrow> parseStringList (advance p); Some (user\<lparr>usr_Agents := xs\<rparr>, p) }
      else if check TokenRole p then
        let (s, p) = expectString ''role'' (advance p) in Some (user\<lparr>usr_Role := s\<rparr>, p)
      else Some (user, unexpected '' in user block''
                   (''expected '' @ tick ''key'' @ '', '' @ tick ''agents'' @ '', or '' @ tick ''role'') p))"

definition parseUser :: "Parser \<Rightarrow> (User \<times> Parser) option" where
  "parseUser p =
     do {
       let startPos = currentPos p;
       let p = expect TokenUser p;
       let (name, p) = expectString ''user name'' p;
       let p = registerName ''User'' name startPos p;
       (user, p) \<leftarrow> parseBlock userSwitch ((new_User startPos)\<lparr>usr_Name := name\<rparr>) p;
       Some (user\<lparr>usr_EndPos := currentPos p\<rparr>, p)
     }"

definition guardrailSwitch :: "Guardrail \<Rightarrow> Parser \<Rightarrow> (Guardrail \<times> Parser) option" where
  "guardrailSwitch guard p =
     (if check TokenMode p then
        let (s, p) = expectString ''mode'' (advance p) in Some (guard\<lparr>gr_Mode := s\<rparr>, p)
      else if check TokenKeywords p then
        do { (xs, p) \<leftarrow> parseStringList (advance p); Some (guard\<lparr>gr_Keywords := xs\<rparr>, p) }
      else if check TokenPatterns p then
        do { (xs, p) \<leftarrow> parseStringList (advance p); Some (guard\<lparr>gr_Patterns := xs\<rparr>, p) }
      else if check TokenFallback p then
        let (s, p) = expectString ''fallback message'' (advance p) in Some (guard\<lparr>gr_FallbackMsg := s\<rparr>, p)
      else Some (guard, unexpected '' in guardrail block''
                   (''expected '' @ tick ''mode'' @ '', '' @ tick ''keywords'' @ '', '' @ tick ''patterns'' @
                    '', or '' @ tick ''fallback'') p))"

definition parseGuardrail :: "Parser \<Rightarrow> (Guardrail \<times> Parser) option" where
  "parseGuardrail p =
     do {
       let startPos = currentPos p;
       let p = expect TokenGuardrail p;
       let (name, p) = expectString ''guardrail name'' p;
       let p = registerName ''Guardrail'' name startPos p;
       (guard, p) \<leftarrow> parseBlock guardrailSwitch ((new_Guardrail startPos)\<lparr>gr_Name := name\<rparr>) p;
       Some (guard\<lparr>gr_EndPos := currentPos p\<rparr>, p)
     }"

definition stateEntry :: "ast_StateConfig \<Rightarrow> Parser \<Rightarrow> (ast_StateConfig \<times> Parser) option" where
  "stateEntry sc p =
     (if check TokenTypeKw p then
        let (s, p) = expectString ''backend type'' (advance p) in Some (sc\<lparr>ast_Type := s\<rparr>, p)
      else
        let key = literal p;
            p = advance p;
            (val, p) = expectString (key @ '' value'') p
        in Some (sc\<lparr>ast_Properties := mput key val (ast_Properties sc)\<rparr>, p))"

definition parseState :: "Parser \<Rightarrow> (ast_StateConfig \<times> Parser) option" where
  "parseState p =
     do {
       let startPos = currentPos p;
       let p = expect TokenState p;
       let (name, p) = (if check TokenString p then (literal p, advance p) else ([], p));
       (sc, p) \<leftarrow> parseBlock stateEntry ((new_ast_StateConfig startPos)\<lparr>ast_Name := name\<rparr>) p;
       Some (sc\<lparr>ast_EndPos := currentPos p\<rparr>, p)
     }"

definition AllNames :: "Parser \<Rightarrow> (string, (string, bool) gomap) gomap" where
  "AllNames p = par_names p"

subsection \<open>Every statement returns\<close>

text \<open>
  The switch of a block goes past the token it starts at and keeps the name of the node, which
  was registered before the block.
\<close>

lemma adv_reference: "adv p n q \<Longrightarrow> adv p n (snd (reference k c q))"
  by (simp add: reference_def Let_def split_beta adv_rules)

lemma adv_secretKey: "adv p n q \<Longrightarrow> adv p n (snd (secretKey c q))"
  by (simp add: secretKey_def Let_def split_beta adv_rules)

lemma adv_userKey: "adv p n q \<Longrightarrow> adv p n (snd (userKey q))"
  by (simp add: userKey_def Let_def split_beta adv_rules)

lemma adv_deployTargetType: "adv p n q \<Longrightarrow> adv p n (snd (deployTargetType q))"
  by (simp add: deployTargetType_def adv_rules)

lemmas stmt_moves = move_rules adv_reference adv_secretKey adv_userKey adv_deployTargetType

lemma agentUses_runs:
  "adv p n q \<Longrightarrow> ag_Name a = s \<Longrightarrow> runs p n (\<lambda>x. ag_Name x = s) (agentUses a q)"
  unfolding agentUses_def by (rule run_rules runs_Some stmt_moves | assumption | simp)+

lemma agentBudget_runs:
  "adv p n q \<Longrightarrow> ag_Name a = s \<Longrightarrow> runs p n (\<lambda>x. ag_Name x = s) (agentBudget a q)"
  unfolding agentBudget_def by (rule run_rules runs_Some stmt_moves | assumption | simp)+

lemma promptSwitch_past: "pr_Name a = s \<Longrightarrow> runs q (past q) (\<lambda>x. pr_Name x = s) (promptSwitch a q)"
  unfolding promptSwitch_def
  by (rule run_rules runs_Some parser_runs stmt_moves | assumption | simp)+

lemma skillSwitch_past: "sk_Name a = s \<Longrightarrow> runs q (past q) (\<lambda>x. sk_Name x = s) (skillSwitch a q)"
  unfolding skillSwitch_def
  by (rule run_rules runs_Some parser_runs stmt_moves | assumption | simp)+

lemma agentSwitch_past: "ag_Name a = s \<Longrightarrow> runs q (past q) (\<lambda>x. ag_Name x = s) (agentSwitch a q)"
  unfolding agentSwitch_def
  by (rule agentUses_runs agentBudget_runs run_rules runs_Some parser_runs stmt_moves | assumption | simp)+

lemma bindingSwitch_past: "abd_Name a = s \<Longrightarrow> runs q (past q) (\<lambda>x. abd_Name x = s) (bindingSwitch a q)"
  unfolding bindingSwitch_def
  by (rule run_rules runs_Some parser_runs stmt_moves | assumption | simp)+

lemma secretSwitch_past: "sec_Name a = s \<Longrightarrow> runs q (past q) (\<lambda>x. sec_Name x = s) (secretSwitch a q)"
  unfolding secretSwitch_def
  by (rule run_rules runs_Some parser_runs stmt_moves | assumption | simp)+

lemma serverSwitch_past: "srv_Name a = s \<Longrightarrow> runs q (past q) (\<lambda>x. srv_Name x = s) (serverSwitch a q)"
  unfolding serverSwitch_def
  by (rule run_rules runs_Some parser_runs stmt_moves | assumption | simp)+

lemma clientSwitch_past: "cli_Name a = s \<Longrightarrow> runs q (past q) (\<lambda>x. cli_Name x = s) (clientSwitch a q)"
  unfolding clientSwitch_def
  by (rule run_rules runs_Some parser_runs stmt_moves | assumption | simp)+

lemma deploySwitch_past: "adt_Name a = s \<Longrightarrow> runs q (past q) (\<lambda>x. adt_Name x = s) (deploySwitch a q)"
  unfolding deploySwitch_def
  by (rule run_rules runs_Some parser_runs stmt_moves | assumption | simp)+

lemma pipelineSwitch_past: "pl_Name a = s \<Longrightarrow> runs q (past q) (\<lambda>x. pl_Name x = s) (pipelineSwitch a q)"
  unfolding pipelineSwitch_def
  by (rule run_rules runs_Some parser_runs stmt_moves | assumption | simp)+

lemma userSwitch_past: "usr_Name a = s \<Longrightarrow> runs q (past q) (\<lambda>x. usr_Name x = s) (userSwitch a q)"
  unfolding userSwitch_def
  by (rule run_rules runs_Some parser_runs stmt_moves | assumption | simp)+

lemma guardrailSwitch_past: "gr_Name a = s \<Longrightarrow> runs q (past q) (\<lambda>x. gr_Name x = s) (guardrailSwitch a q)"
  unfolding guardrailSwitch_def
  by (rule run_rules runs_Some parser_runs stmt_moves | assumption | simp)+

lemma overrideEntry_past:
  "env_Name a = s \<Longrightarrow> runs q (past q) (\<lambda>x. env_Name x = s) (overrideEntry sp r a q)"
  unfolding overrideEntry_def by (rule run_rules runs_Some stmt_moves | assumption | simp)+

lemma environmentEntry_past:
  "env_Name a = s \<Longrightarrow> runs q (past q) (\<lambda>x. env_Name x = s) (environmentEntry sp a q)"
  unfolding environmentEntry_def
  by (rule parseBlock_runs overrideEntry_past run_rules runs_Some stmt_moves | assumption | simp)+

lemma ruleParts_runs [parser_runs]: "adv p n q \<Longrightarrow> returns p n (ruleParts q)"
  unfolding ruleParts_def by (rule ploop_runs steps_go runs_Some move_rules | assumption | simp)+

lemma policyEntry_past:
  "apl_Name a = s \<Longrightarrow> runs q (past q) (\<lambda>(x, _). apl_Name x = s) (policyEntry a q)"
  unfolding policyEntry_def Let_def
  by (cases "ruleAction q"; simp only: option.case)
    (rule run_rules runs_Some parser_runs stmt_moves | assumption | simp)+

lemma stateEntry_past: "returns q (past q) (stateEntry a q)"
  unfolding stateEntry_def by (rule run_rules runs_Some stmt_moves | assumption | simp)+

lemma typeBody_runs:
  "adv p n q \<Longrightarrow> td_Name a = s \<Longrightarrow> runs p n (\<lambda>x. td_Name x = s) (typeBody a q)"
  unfolding typeBody_def
  by (rule parseBlock_runs typeFieldEntry_past run_rules runs_Some parser_runs stmt_moves | assumption | simp)+

lemmas stmt_switches = promptSwitch_past skillSwitch_past agentSwitch_past bindingSwitch_past
  secretSwitch_past environmentEntry_past policyEntry_past serverSwitch_past clientSwitch_past
  deploySwitch_past pipelineSwitch_past userSwitch_past guardrailSwitch_past stateEntry_past

text \<open>
  A statement that declares a resource goes past its keyword and registers the name of the node
  it returns.
\<close>

lemmas declares_rules = declares_register declares_let_pair declares_let_parser declares_let_value

lemma parsePrompt_declares: "declares q (past q) ''Prompt'' pr_Name (parsePrompt q)"
  unfolding parsePrompt_def
  by (rule declares_rules runs_bind [OF parseBlock_runs [OF promptSwitch_past]] run_rules runs_Some stmt_moves adv_start | assumption | simp)+

lemma parseSkill_declares: "declares q (past q) ''Skill'' sk_Name (parseSkill q)"
  unfolding parseSkill_def
  by (rule declares_rules runs_bind [OF parseBlock_runs [OF skillSwitch_past]] run_rules runs_Some stmt_moves adv_start | assumption | simp)+

lemma parseAgent_declares: "declares q (past q) ''Agent'' ag_Name (parseAgent q)"
  unfolding parseAgent_def
  by (rule declares_rules runs_bind [OF parseBlock_runs [OF agentSwitch_past]] run_rules runs_Some stmt_moves adv_start | assumption | simp)+

lemma parseBinding_declares: "declares q (past q) ''Binding'' abd_Name (parseBinding q)"
  unfolding parseBinding_def
  by (rule declares_rules runs_bind [OF parseBlock_runs [OF bindingSwitch_past]] run_rules runs_Some stmt_moves adv_start | assumption | simp)+

lemma parseDeployTarget_declares: "declares q (past q) ''DeployTarget'' adt_Name (parseDeployTarget q)"
  unfolding parseDeployTarget_def
  by (rule declares_rules runs_bind [OF parseBlock_runs [OF deploySwitch_past]] run_rules runs_Some stmt_moves adv_start | assumption | simp)+

lemma parseSecret_declares: "declares q (past q) ''Secret'' sec_Name (parseSecret q)"
  unfolding parseSecret_def
  by (rule declares_rules runs_bind [OF parseBlock_runs [OF secretSwitch_past]] run_rules runs_Some stmt_moves adv_start | assumption | simp)+

lemma parseEnvironment_declares: "declares q (past q) ''Environment'' env_Name (parseEnvironment q)"
  unfolding parseEnvironment_def
  by (rule declares_rules runs_bind [OF parseBlock_runs [OF environmentEntry_past]] run_rules runs_Some stmt_moves adv_start | assumption | simp)+

lemma parsePolicy_declares: "declares q (past q) ''Policy'' apl_Name (parsePolicy q)"
  unfolding parsePolicy_def
  by (rule declares_rules runs_bind [OF continueBlock_runs [OF policyEntry_past]] run_rules runs_Some stmt_moves adv_start | assumption | simp)+

lemma parseMCPServer_declares: "declares q (past q) ''MCPServer'' srv_Name (parseMCPServer q)"
  unfolding parseMCPServer_def
  by (rule declares_rules runs_bind [OF parseBlock_runs [OF serverSwitch_past]] run_rules runs_Some stmt_moves adv_start | assumption | simp)+

lemma parseMCPClient_declares: "declares q (past q) ''MCPClient'' cli_Name (parseMCPClient q)"
  unfolding parseMCPClient_def
  by (rule declares_rules runs_bind [OF parseBlock_runs [OF clientSwitch_past]] run_rules runs_Some stmt_moves adv_start | assumption | simp)+

lemma parsePipeline_declares: "declares q (past q) ''Pipeline'' pl_Name (parsePipeline q)"
  unfolding parsePipeline_def
  by (rule declares_rules runs_bind [OF parseBlock_runs [OF pipelineSwitch_past]] run_rules runs_Some stmt_moves adv_start | assumption | simp)+

lemma parseTypeDef_declares: "declares q (past q) ''Type'' td_Name (parseTypeDef q)"
  unfolding parseTypeDef_def
  by (rule declares_rules runs_bind [OF typeBody_runs] run_rules runs_Some stmt_moves adv_start | assumption | simp)+

lemma parseUser_declares: "declares q (past q) ''User'' usr_Name (parseUser q)"
  unfolding parseUser_def
  by (rule declares_rules runs_bind [OF parseBlock_runs [OF userSwitch_past]] run_rules runs_Some stmt_moves adv_start | assumption | simp)+

lemma parseGuardrail_declares: "declares q (past q) ''Guardrail'' gr_Name (parseGuardrail q)"
  unfolding parseGuardrail_def
  by (rule declares_rules runs_bind [OF parseBlock_runs [OF guardrailSwitch_past]] run_rules runs_Some stmt_moves adv_start | assumption | simp)+

lemma parsePlugin_past: "returns q (past q) (parsePlugin q)"
  unfolding parsePlugin_def by (rule run_rules runs_Some stmt_moves | assumption | simp)+

lemma parseImportAsStmt_past: "returns q (past q) (parseImportAsStmt q)"
  unfolding parseImportAsStmt_def by (rule run_rules runs_Some stmt_moves | assumption | simp)+

lemma parseState_past: "returns q (past q) (parseState q)"
  unfolding parseState_def
  by (rule parseBlock_runs stateEntry_past run_rules runs_Some stmt_moves | assumption | simp)+

end
