(* ===== verification/Parser_Files.thy ===== *)
theory Parser_Files
  imports Parser_Stmts
begin

text \<open>
  Files and \<open>Parse\<close> (\<open>internal/parser/parser.go\<close>). The parser returns on every input. A file
  parsed without errors has a package header in a language version other than 1.0 and declares no
  name twice within a kind; the errors of any other file are in source order.
\<close>

subsection \<open>Files\<close>

definition statement :: "('a \<Rightarrow> Statement) \<Rightarrow> ('a \<times> Parser) option \<Rightarrow> (Statement option \<times> Parser) option" where
  "statement wrap r = do { (x, p) \<leftarrow> r; Some (Some (wrap x), p) }"

definition parseStatement :: "Parser \<Rightarrow> (Statement option \<times> Parser) option" where
  "parseStatement p =
     (let p = skipNewlines p in
      if isAtEnd p then Some (None, p)
      else if check TokenPrompt p then statement StmtPrompt (parsePrompt p)
      else if check TokenSkill p then statement StmtSkill (parseSkill p)
      else if check TokenAgent p then statement StmtAgent (parseAgent p)
      else if check TokenBinding p then statement StmtBinding (parseBinding p)
      else if check TokenDeploy p then statement StmtDeployTarget (parseDeployTarget p)
      else if check TokenSecret p then statement StmtSecret (parseSecret p)
      else if check TokenEnvironment p then statement StmtEnvironment (parseEnvironment p)
      else if check TokenPolicy p then statement StmtPolicy (parsePolicy p)
      else if check TokenPlugin p then statement StmtPlugin (parsePlugin p)
      else if check TokenServer p then statement StmtMCPServer (parseMCPServer p)
      else if check TokenClient p then statement StmtMCPClient (parseMCPClient p)
      else if check TokenPipeline p then statement StmtPipeline (parsePipeline p)
      else if check TokenTypeKw p then statement StmtTypeDef (parseTypeDef p)
      else if check TokenUser p then statement StmtUser (parseUser p)
      else if check TokenGuardrail p then statement StmtGuardrail (parseGuardrail p)
      else if check TokenImport p then statement StmtImport (parseImportAsStmt p)
      else if check TokenState p then statement StmtStateConfig (parseState p)
      else Some (None, unexpected [] ''expected a resource declaration (agent, prompt, skill, etc.)'' p))"

definition packageAttributes :: "ast_Package \<Rightarrow> Parser \<Rightarrow> (ast_Package \<times> Parser) option" where
  "packageAttributes pkg p =
     ploop (\<lambda>p. \<not> isAtEnd p \<and> \<not> check TokenNewline p \<and> \<not> isAtEnd p)
       (\<lambda>pkg p.
          if check TokenVersion p then
            let (s, p) = expectString ''version'' (advance p) in Some ((pkg\<lparr>apk_Version := s\<rparr>, True), p)
          else if check TokenLang p then
            let (s, p) = expectString ''lang version'' (advance p) in Some ((pkg\<lparr>apk_LangVersion := s\<rparr>, True), p)
          else Some ((pkg, False), p))
       pkg p"

definition parsePackage :: "Parser \<Rightarrow> (ast_Package \<times> Parser) option" where
  "parsePackage p =
     do {
       let startPos = currentPos p;
       let p = expect TokenPackage p;
       let (name, p) = expectString ''package name'' p;
       (pkg, p) \<leftarrow> packageAttributes ((new_ast_Package startPos)\<lparr>apk_Name := name\<rparr>) p;
       let p = (if apk_LangVersion pkg = ''1.0''
                then addError (Text ''IntentLang 1.0 is no longer supported'')
                       (''run '' @ tick ''agentspec migrate --to-v2'' @ '' to upgrade to IntentLang 2.0'') p
                else p);
       Some (pkg\<lparr>apk_EndPos := currentPos p\<rparr>, p)
     }"

definition fileHeader :: "Parser \<Rightarrow> (ast_Package option \<times> Parser) option" where
  "fileHeader p =
     (if check TokenPackage p then do { (pkg, p) \<leftarrow> parsePackage p; Some (Some pkg, p) }
      else Some (None, addError (Text (''expected '' @ tick ''package'' @ '' declaration at start of file'')) [] p))"

definition fileStatements :: "Parser \<Rightarrow> (Statement list \<times> Parser) option" where
  "fileStatements p =
     ploop (\<lambda>p. \<not> isAtEnd p)
       (\<lambda>stmts p.
          let p = skipNewlines p in
          if isAtEnd p then Some ((stmts, False), p)
          else do {
            (stmt, p) \<leftarrow> parseStatement p;
            Some ((case stmt of None \<Rightarrow> stmts | Some s \<Rightarrow> stmts @ [s], True), p)
          })
       [] p"

definition parseFile :: "Parser \<Rightarrow> (File \<times> Parser) option" where
  "parseFile p =
     do {
       let f = \<lparr>file_Path = par_file p, file_Package = None, file_Statements = [],
                file_StartPos = currentPos p, file_EndPos = zero_Pos\<rparr>;
       let p = skipNewlines p;
       (pkg, p) \<leftarrow> fileHeader p;
       (stmts, p) \<leftarrow> fileStatements p;
       Some (f\<lparr>file_Package := pkg, file_Statements := stmts, file_EndPos := currentPos p\<rparr>, p)
     }"

definition NewParser :: "Token list \<Rightarrow> string \<Rightarrow> Parser" where
  "NewParser toks fil =
     \<lparr>par_tokens = toks, par_pos = 0, par_file = fil, par_errors = [], par_names = []\<rparr>"

text \<open>The file is nil when the text has no tokens; the list of errors is nil when it is empty.\<close>

definition Parse ::
  "(nat \<Rightarrow> bool) \<Rightarrow> (nat \<Rightarrow> bool) \<Rightarrow> string \<Rightarrow> string \<Rightarrow> (File option \<times> ParseError list) option"
where
  "Parse IsLetter IsDigit input fil =
     (case Tokenize IsLetter IsDigit input fil of
        Inl err \<Rightarrow>
          Some (None, [\<lparr>err_File = fil, err_Line = 1, err_Column = 1, err_Message = err, err_Hint = []\<rparr>])
      | Inr tokens \<Rightarrow>
          do {
            (f, p) \<leftarrow> parseFile (NewParser tokens fil);
            Some (Some f, par_errors p)
          })"

subsection \<open>The header returns\<close>

lemma packageAttributes_runs [parser_runs]: "adv p n q \<Longrightarrow> returns p n (packageAttributes pkg q)"
  unfolding packageAttributes_def
  by (rule ploop_runs steps_if steps_break [OF adv_start] steps_go run_rules runs_Some stmt_moves | assumption | simp)+

lemma parsePackage_runs: "adv p n q \<Longrightarrow> returns p n (parsePackage q)"
  unfolding parsePackage_def
  by (rule run_rules runs_Some parser_runs stmt_moves | assumption | simp)+

lemma fileHeader_runs: "adv p n q \<Longrightarrow> returns p n (fileHeader q)"
  unfolding fileHeader_def
  by (rule run_rules runs_Some parsePackage_runs stmt_moves | assumption | simp)+

subsection \<open>Declared names\<close>

definition registered :: "Parser \<Rightarrow> (string \<times> string) set" where
  "registered p = {(kind, name). mget0 False (names_of kind p) name}"

text \<open>
  \<open>q\<close> is reached from \<open>p\<close> while the names \<open>ks\<close> are registered. When no error was reported on
  the way, they are distinct and new.
\<close>

definition declared :: "Parser \<Rightarrow> (string \<times> string) list \<Rightarrow> Parser \<Rightarrow> bool" where
  "declared p ks q \<longleftrightarrow>
     par_tokens q = par_tokens p \<and> par_file q = par_file p \<and>
     par_pos p \<le> par_pos q \<and> par_pos q \<le> max (par_pos p) (length (par_tokens p)) \<and>
     (\<exists>es. par_errors q = par_errors p @ es \<and> located p es (par_pos p) (par_pos q)) \<and>
     registered q = registered p \<union> set ks \<and>
     (par_errors q = par_errors p \<longrightarrow> distinct ks \<and> set ks \<inter> registered p = {})"

lemma fwd_declared: "fwd p q \<Longrightarrow> declared p [] q"
  by (auto simp: fwd_def declared_def registered_def names_of_def)

lemma adv_declared: "adv p n q \<Longrightarrow> declared p [] q"
  by (simp add: adv_def fwd_declared)

lemma declared_trans:
  assumes "declared p ks q" "declared q js r"
  shows "declared p (ks @ js) r"
proof -
  from assms obtain es es' where es: "par_errors q = par_errors p @ es" "located p es (par_pos p) (par_pos q)"
    "par_errors r = par_errors q @ es'" "located q es' (par_pos q) (par_pos r)"
    unfolding declared_def by blast
  moreover have "located q = located p" using assms(1) by (intro located_cong) (simp_all add: declared_def)
  ultimately have "located p (es @ es') (par_pos p) (par_pos r)"
    using assms by (intro located_append [of _ _ _ "par_pos q"]) (simp_all add: declared_def)
  moreover have "distinct (ks @ js) \<and> set (ks @ js) \<inter> registered p = {}" if "par_errors r = par_errors p"
    using that es(1,3) assms unfolding declared_def by auto
  ultimately show ?thesis
    using assms es(1,3) unfolding declared_def by (auto simp: max_def split: if_splits)
qed

text \<open>What \<open>registerName\<close> does, without the allocation of the inner map.\<close>

lemma registerName_alt:
  "registerName kind name pos q =
     (if (kind, name) \<in> registered q
      then addError (Quoted (''duplicate '' @ kind @ '' name '') name)
             ''each resource must have a unique name within its kind'' q else q)
     \<lparr>par_names := par_names (registerName kind name pos q)\<rparr>"
  by (auto simp: registerName_def registered_def names_of_def addError_def current_def token_number_def Let_def mget0_def)

lemma names_of_registerName:
  "names_of k (registerName kind name pos q) =
     (if k = kind then mput name True (names_of kind q) else names_of k q)"
  by (simp add: registerName_def names_of_def addError_def Let_def mget0_def)

lemma registered_registerName: "registered (registerName kind name pos q) = insert (kind, name) (registered q)"
  by (auto simp: registered_def names_of_registerName split: if_splits)

lemma declared_registerName: "declared q [(kind, name)] (registerName kind name pos q)"
proof -
  define r where "r = (if (kind, name) \<in> registered q
      then addError (Quoted (''duplicate '' @ kind @ '' name '') name)
             ''each resource must have a unique name within its kind'' q else q)"
  have "registerName kind name pos q = r\<lparr>par_names := par_names (registerName kind name pos q)\<rparr>"
    unfolding r_def by (rule registerName_alt)
  then have R: "par_tokens (registerName kind name pos q) = par_tokens r" "par_file (registerName kind name pos q) = par_file r"
    "par_pos (registerName kind name pos q) = par_pos r" "par_errors (registerName kind name pos q) = par_errors r"
    by (metis Parser.select_convs Parser.surjective Parser.update_convs(5))+
  have "fwd q r" by (simp add: r_def fwd_addError)
  moreover have "par_errors r = par_errors q \<longrightarrow> (kind, name) \<notin> registered q"
    by (simp add: r_def addError_def Let_def)
  ultimately show ?thesis unfolding declared_def R fwd_def by (simp add: registered_registerName)
qed

lemma declares_declared:
  assumes "declares p n kind nm r"
  shows "\<exists>a q. r = Some (a, q) \<and> declared p [(kind, nm a)] q \<and> n \<le> par_pos q"
proof -
  from assms obtain a q pos q' where r: "r = Some (a, q')" and q: "adv p n q" "fwd (registerName kind (nm a) pos q) q'"
    unfolding declares_def by blast
  have "declared p ([] @ [(kind, nm a)] @ []) q'"
    by (rule declared_trans [OF adv_declared [OF q(1)] declared_trans [OF declared_registerName fwd_declared [OF q(2)]]])
  moreover have "par_pos (registerName kind (nm a) pos q) = par_pos q"
    by (simp add: registerName_def Let_def)
  ultimately show ?thesis using r q by (auto simp: adv_def fwd_def)
qed

text \<open>The kind and the name a statement declares: plugins, imports and state backends declare none.\<close>

definition declared_name :: "Statement \<Rightarrow> (string \<times> string) list" where
  "declared_name st =
     (case st of
        StmtPrompt x \<Rightarrow> [(''Prompt'', pr_Name x)]
      | StmtSkill x \<Rightarrow> [(''Skill'', sk_Name x)]
      | StmtAgent x \<Rightarrow> [(''Agent'', ag_Name x)]
      | StmtBinding x \<Rightarrow> [(''Binding'', abd_Name x)]
      | StmtDeployTarget x \<Rightarrow> [(''DeployTarget'', adt_Name x)]
      | StmtSecret x \<Rightarrow> [(''Secret'', sec_Name x)]
      | StmtEnvironment x \<Rightarrow> [(''Environment'', env_Name x)]
      | StmtPolicy x \<Rightarrow> [(''Policy'', apl_Name x)]
      | StmtMCPServer x \<Rightarrow> [(''MCPServer'', srv_Name x)]
      | StmtMCPClient x \<Rightarrow> [(''MCPClient'', cli_Name x)]
      | StmtPipeline x \<Rightarrow> [(''Pipeline'', pl_Name x)]
      | StmtTypeDef x \<Rightarrow> [(''Type'', td_Name x)]
      | StmtUser x \<Rightarrow> [(''User'', usr_Name x)]
      | StmtGuardrail x \<Rightarrow> [(''Guardrail'', gr_Name x)]
      | _ \<Rightarrow> [])"

definition declared_names :: "Statement list \<Rightarrow> (string \<times> string) list" where
  "declared_names sts = concat (map declared_name sts)"

text \<open>A statement, or none, with what it declares.\<close>

definition stmt_runs :: "Parser \<Rightarrow> (Statement option \<times> Parser) option \<Rightarrow> bool" where
  "stmt_runs q r \<longleftrightarrow>
     (\<exists>st q'. r = Some (st, q') \<and> past q \<le> par_pos q' \<and>
        declared q (case st of None \<Rightarrow> [] | Some x \<Rightarrow> declared_name x) q')"

lemma stmt_declares:
  assumes "declares q (past q) kind nm r" "\<And>x. declared_name (wrap x) = [(kind, nm x)]"
  shows "stmt_runs q (statement wrap r)"
  using declares_declared [OF assms(1)] assms(2) by (auto simp: stmt_runs_def statement_def)

lemma stmt_silent:
  assumes "returns q (past q) r" "\<And>x. declared_name (wrap x) = []"
  shows "stmt_runs q (statement wrap r)"
  using assms by (fastforce simp: stmt_runs_def statement_def runs_def adv_def intro: fwd_declared)

lemma stmt_none: "adv q (past q) q' \<Longrightarrow> stmt_runs q (Some (None, q'))"
  by (simp add: stmt_runs_def adv_declared) (simp add: adv_def)

lemma stmt_if: "stmt_runs q a \<Longrightarrow> stmt_runs q b \<Longrightarrow> stmt_runs q (if c then a else b)"
  by simp

lemmas statement_declares = parsePrompt_declares parseSkill_declares parseAgent_declares parseBinding_declares
  parseDeployTarget_declares parseSecret_declares parseEnvironment_declares parsePolicy_declares
  parseMCPServer_declares parseMCPClient_declares parsePipeline_declares parseTypeDef_declares
  parseUser_declares parseGuardrail_declares

lemma parseStatement_runs:
  assumes "skipNewlines q = q" "\<not> isAtEnd q"
  shows "stmt_runs q (parseStatement q)"
  unfolding parseStatement_def Let_def assms(1) if_not_P [OF assms(2)]
  by (rule stmt_if stmt_none past_unexpected
        statement_declares [THEN stmt_declares]
        parsePlugin_past [THEN stmt_silent] parseImportAsStmt_past [THEN stmt_silent] parseState_past [THEN stmt_silent]
    | simp add: declared_name_def)+

subsection \<open>The loop over the statements\<close>

text \<open>
  A loop whose body keeps \<open>J\<close> and passes a token, or leaves with \<open>K\<close>, returns.
\<close>

lemma ploop_total:
  assumes body: "\<And>a q. J a q \<Longrightarrow> cond q \<Longrightarrow>
      \<exists>a' go q'. body a q = Some ((a', go), q') \<and> J a' q' \<and> (if go then par_pos q < par_pos q' else K q')"
    and J: "\<And>a q. J a q \<Longrightarrow> par_tokens q = ts \<and> (cond q \<longrightarrow> par_pos q < length ts)"
    and K: "\<And>q. \<not> cond q \<Longrightarrow> K q"
  shows "J a q \<Longrightarrow> \<exists>a' q'. ploop cond body a q = Some (a', q') \<and> J a' q' \<and> K q'"
proof (induction "length ts - par_pos q" arbitrary: a q rule: less_induct)
  case less
  show ?case
  proof (cases "cond q")
    case False
    then show ?thesis using less.prems K by (subst ploop.simps) simp
  next
    case True
    from body [OF less.prems True] obtain a' go q' where s: "body a q = Some ((a', go), q')" "J a' q'"
      "if go then par_pos q < par_pos q' else K q'" by blast
    show ?thesis
    proof (cases go)
      case go: True
      have "length ts - par_pos q' < length ts - par_pos q"
        using s(3) go J [OF less.prems] True by (intro diff_less_mono2) simp_all
      from less.hyps [OF this s(2)] s(1) True go show ?thesis by (subst ploop.simps) simp
    qed (use s True in \<open>subst ploop.simps; simp\<close>)
  qed
qed

lemma isAtEnd_skip: "skipNewlines (skipNewlines q) = skipNewlines q"
proof (induction q rule: skipNewlines.induct)
  case (1 q)
  then show ?case by (cases "check TokenNewline q") (subst (2 3) skipNewlines.simps, simp, simp add: skipNewlines_stop)
qed

lemma declared_names_snoc:
  "declared_names (case st of None \<Rightarrow> sts | Some x \<Rightarrow> sts @ [x]) =
     declared_names sts @ (case st of None \<Rightarrow> [] | Some x \<Rightarrow> declared_name x)"
  by (cases st) (simp_all add: declared_names_def)

lemma fileStatements_runs:
  "\<exists>sts q. fileStatements p = Some (sts, q) \<and> declared p (declared_names sts) q \<and> isAtEnd q"
  unfolding fileStatements_def
proof (rule ploop_total [where J = "\<lambda>sts q. declared p (declared_names sts) q" and ts = "par_tokens p"])
  fix sts q
  assume J: "declared p (declared_names sts) q" and q: "\<not> isAtEnd q"
  let ?q = "skipNewlines q"
  have sk: "declared p (declared_names sts) ?q"
    using declared_trans [OF J fwd_declared [OF fwd_skipNewlines]] by simp
  have le: "par_pos q \<le> par_pos ?q" using fwd_skipNewlines [of q] by (simp add: fwd_def)
  show "\<exists>a' go q'. (let p = ?q in if isAtEnd p then Some ((sts, False), p)
      else parseStatement p \<bind> (\<lambda>(stmt, p). Some ((case stmt of None \<Rightarrow> sts | Some s \<Rightarrow> sts @ [s], True), p))) =
      Some ((a', go), q') \<and> declared p (declared_names a') q' \<and> (if go then par_pos q < par_pos q' else isAtEnd q')"
  proof (cases "isAtEnd ?q")
    case True
    with sk show ?thesis by (auto simp: Let_def)
  next
    case False
    from parseStatement_runs [OF isAtEnd_skip False] obtain st q' where
      st: "parseStatement ?q = Some (st, q')" "past ?q \<le> par_pos q'"
        "declared ?q (case st of None \<Rightarrow> [] | Some x \<Rightarrow> declared_name x) q'"
      unfolding stmt_runs_def by blast
    have "declared p (declared_names (case st of None \<Rightarrow> sts | Some x \<Rightarrow> sts @ [x])) q'"
      unfolding declared_names_snoc by (rule declared_trans [OF sk st(3)])
    moreover have "par_pos q < par_pos q'" using st(2) le False by (simp add: past_def)
    ultimately show ?thesis using st(1) False by (auto simp: Let_def)
  qed
next
  show "declared p (declared_names []) p" by (simp add: declared_names_def fwd_declared)
qed (auto simp: declared_def dest: not_at_end)

lemma parsePackage_version:
  assumes "parsePackage q = Some (pkg, q')" "par_errors q' = []"
  shows "apk_LangVersion pkg \<noteq> ''1.0''"
  using assms by (auto simp: parsePackage_def Let_def addError_def split: bind_splits prod.splits if_splits)

text \<open>What the parser returns on the tokens of a file.\<close>

lemma parseFile_runs:
  "\<exists>f q. parseFile p = Some (f, q) \<and> file_Path f = par_file p \<and>
     declared p (declared_names (file_Statements f)) q \<and> isAtEnd q \<and>
     (par_errors q = [] \<longrightarrow> (\<exists>pkg. file_Package f = Some pkg \<and> apk_LangVersion pkg \<noteq> ''1.0''))"
proof -
  let ?p = "skipNewlines p"
  from fileHeader_runs [OF adv_fwd [OF adv_start fwd_skipNewlines], of p] obtain pkg q where
    h: "fileHeader ?p = Some (pkg, q)" "fwd p q"
    unfolding runs_def adv_def by blast
  from fileStatements_runs [of q] obtain sts r where
    s: "fileStatements q = Some (sts, r)" "declared q (declared_names sts) r" "isAtEnd r" by blast
  have "declared p ([] @ declared_names sts) r"
    by (rule declared_trans [OF fwd_declared [OF h(2)] s(2)])
  moreover have "\<exists>x. pkg = Some x \<and> apk_LangVersion x \<noteq> ''1.0''" if "par_errors r = []"
  proof -
    from that s(2) have "par_errors q = []" by (auto simp: declared_def)
    with h(1) show ?thesis
      by (auto simp: fileHeader_def addError_def Let_def split: bind_splits if_splits dest: parsePackage_version)
  qed
  ultimately show ?thesis using h(1) s(1,3) by (simp add: parseFile_def)
qed

subsection \<open>Properties of Parse\<close>

lemma Parse_file:
  assumes "Tokenize IsLetter IsDigit input fil = Inr toks"
  shows "\<exists>f q. Parse IsLetter IsDigit input fil = Some (Some f, par_errors q) \<and> file_Path f = fil \<and>
    declared (NewParser toks fil) (declared_names (file_Statements f)) q \<and>
    (par_errors q = [] \<longrightarrow> (\<exists>pkg. file_Package f = Some pkg \<and> apk_LangVersion pkg \<noteq> ''1.0''))"
  using parseFile_runs [of "NewParser toks fil"] assms by (auto simp: Parse_def NewParser_def)

text \<open>
  C7. The parser returns on every input, whatever the classification of letters and digits: no
  loop of the lexer or of the parser runs forever, however malformed the text. The file is nil
  exactly when the lexer rejects the text, and then there is one error; otherwise the file
  carries the name it was parsed under.
\<close>

theorem Parse_returns:
  "\<exists>f es. Parse IsLetter IsDigit input fil = Some (f, es) \<and>
     (f = None) = (\<exists>err. Tokenize IsLetter IsDigit input fil = Inl err) \<and>
     (case f of None \<Rightarrow> length es = 1 | Some file \<Rightarrow> file_Path file = fil)"
proof (cases "Tokenize IsLetter IsDigit input fil")
  case (Inl err)
  then show ?thesis by (simp add: Parse_def)
next
  case (Inr toks)
  from Parse_file [OF this] Inr show ?thesis by auto
qed

lemma Parse_clean_file:
  assumes "Parse IsLetter IsDigit input fil = Some (Some f, [])"
  shows "(\<exists>pkg. file_Package f = Some pkg \<and> apk_LangVersion pkg \<noteq> ''1.0'') \<and>
    distinct (declared_names (file_Statements f))"
proof -
  from assms obtain toks where t: "Tokenize IsLetter IsDigit input fil = Inr toks"
    by (auto simp: Parse_def split: sum.splits)
  from Parse_file [OF t] obtain g q where q: "Parse IsLetter IsDigit input fil = Some (Some g, par_errors q)"
    "declared (NewParser toks fil) (declared_names (file_Statements g)) q"
    "par_errors q = [] \<longrightarrow> (\<exists>pkg. file_Package g = Some pkg \<and> apk_LangVersion pkg \<noteq> ''1.0'')" by blast
  from q(1) assms have "g = f" "par_errors q = []" by simp_all
  with q(2,3) show ?thesis by (simp add: declared_def NewParser_def)
qed

lemmas Parse_declares_once = Parse_clean_file [THEN conjunct2]

text \<open>
  C8. A file that parses without errors has a package header whose language version is not the
  withdrawn 1.0, and no two of its statements declare the same name of the same kind. Any other
  version, and none at all, is accepted: the documentation asks for 2.0, the parser does not.
\<close>

theorem Parse_clean:
  assumes "Parse IsLetter IsDigit input fil = Some (Some f, [])"
  shows "(\<exists>pkg. file_Package f = Some pkg \<and> apk_LangVersion pkg \<noteq> ''1.0'') \<and>
    distinct (declared_names (file_Statements f))"
  using assms by (rule Parse_clean_file)

definition ascii_letter :: "rune \<Rightarrow> bool" where
  "ascii_letter r \<longleftrightarrow> 65 \<le> r \<and> r \<le> 90 \<or> 97 \<le> r \<and> r \<le> 122"

definition sample_source :: string where
  "sample_source = ''package '' @ [CHR 0x22, CHR ''p'', CHR 0x22] @ '' type '' @ [CHR 0x22, CHR ''T'', CHR 0x22] @
     '' list x type '' @ [CHR 0x22, CHR ''U'', CHR 0x22] @ '' list y''"

definition sample_token :: "TokenType \<Rightarrow> string \<Rightarrow> int \<Rightarrow> Token" where
  "sample_token ty lit col = \<lparr>tok_Type = ty, tok_Literal = lit, tok_File = ''f'', tok_Line = 1, tok_Column = col\<rparr>"

definition source_tokens :: "Token list" where
  "source_tokens =
     [sample_token TokenPackage ''package'' 1, sample_token TokenString ''p'' 9, sample_token TokenTypeKw ''type'' 13,
      sample_token TokenString ''T'' 18, sample_token TokenList ''list'' 22, sample_token TokenIdent ''x'' 27,
      sample_token TokenTypeKw ''type'' 29, sample_token TokenString ''U'' 34, sample_token TokenList ''list'' 38,
      sample_token TokenIdent ''y'' 43, sample_token TokenEOF [] 43]"

lemma sample_source_tokens: "Tokenize ascii_letter isDigit sample_source ''f'' = Inr source_tokens"
  by code_simp

lemma source_tokens_parse:
  "case parseFile (NewParser source_tokens ''f'') of
     Some (f, q) \<Rightarrow> par_errors q = [] \<and> declared_names (file_Statements f) = [(''Type'', ''T''), (''Type'', ''U'')]
   | None \<Rightarrow> False"
  by code_simp

theorem Parse_clean_witness:
  "\<exists>f. Parse ascii_letter isDigit sample_source ''f'' = Some (Some f, []) \<and>
     declared_names (file_Statements f) = [(''Type'', ''T''), (''Type'', ''U'')] \<and>
     (\<exists>pkg. file_Package f = Some pkg \<and> apk_LangVersion pkg \<noteq> ''1.0'') \<and>
     distinct (declared_names (file_Statements f))"
proof -
  from source_tokens_parse obtain f where
    f: "Parse ascii_letter isDigit sample_source ''f'' = Some (Some f, [])"
      "declared_names (file_Statements f) = [(''Type'', ''T''), (''Type'', ''U'')]"
    by (auto simp: Parse_def sample_source_tokens split: option.splits)
  from f Parse_clean [OF f(1)] show ?thesis by blast
qed

definition err_at :: "ParseError \<Rightarrow> int \<times> int" where
  "err_at e = (err_Line e, err_Column e)"

lemma lex_result_mono:
  assumes "lex_result input fil toks" "i \<le> j" "j < length toks"
  shows "pos_of (toks ! i) \<le> pos_of (toks ! j)"
proof -
  from assms(1) obtain ts eof where t: "toks = ts @ [eof]" "pos_of eof = (if ts = [] then (0, 0) else pos_of (last ts))"
    "sorted_wrt (\<lambda>s t. pos_of s < pos_of t) ts" unfolding lex_result_def by blast
  have *: "pos_of (ts ! a) \<le> pos_of (ts ! b)" if "a \<le> b" "b < length ts" for a b
  proof (cases "a = b")
    case False
    with that t(3) have "pos_of (ts ! a) < pos_of (ts ! b)" unfolding sorted_wrt_iff_nth_less by simp
    then show ?thesis by (rule order_less_imp_le)
  qed simp
  show ?thesis
  proof (cases "j = length ts \<and> i < length ts")
    case True
    then have "pos_of (ts ! i) \<le> pos_of (ts ! (length ts - 1))" by (intro *; linarith)
    with True t show ?thesis by (auto simp: nth_append last_conv_nth)
  qed (use assms t * in \<open>auto simp: nth_append not_less le_less_Suc_eq\<close>)
qed

lemma located_sorted:
  assumes lex: "lex_result input fil toks" and es: "located (NewParser toks fil) es 0 n"
  shows "\<exists>es1 es2. es = es1 @ es2 \<and> sorted (map err_at es1) \<and>
     (\<forall>e \<in> set es1. \<exists>t \<in> set toks. err_at e = pos_of t \<and> err_File e = tok_File t) \<and>
     (\<forall>e \<in> set es2. err_at e = (0, 0) \<and> err_File e = fil) \<and> (es2 \<noteq> [] \<longrightarrow> length toks \<le> n)"
proof -
  let ?T = "\<lambda>k. token_number k (NewParser toks fil)"
  from es obtain ks where ks: "sorted ks"
    "map (\<lambda>e. (err_File e, err_Line e, err_Column e)) es =
     map (\<lambda>k. (tok_File (?T k), tok_Line (?T k), tok_Column (?T k))) ks"
    and ks_n: "set ks \<subseteq> {0..n}"
    unfolding located_def by blast
  have len: "length es = length ks" using arg_cong [OF ks(2), of length] by simp
  have at: "err_File (es ! i) = tok_File (?T (ks ! i)) \<and> err_at (es ! i) = pos_of (?T (ks ! i))" if "i < length es" for i
    using arg_cong [OF ks(2), of "\<lambda>xs. xs ! i"] that len by (simp add: err_at_def)
  define m where "m = length (takeWhile (\<lambda>k. k < length toks) ks)"
  have m: "m \<le> length es" by (simp add: m_def len length_takeWhile_le)
  have lo: "ks ! i < length toks" if "i < m" for i
    using nth_mem [OF that [unfolded m_def]] that unfolding m_def
    by (auto simp: takeWhile_nth dest: set_takeWhileD)
  have hi: "length toks \<le> ks ! i" if "m \<le> i" "i < length es" for i
  proof -
    have "length toks \<le> ks ! m" using that len nth_length_takeWhile [of "\<lambda>k. k < length toks" ks]
      unfolding m_def by simp
    also have "\<dots> \<le> ks ! i" using ks(1) that len by (simp add: sorted_nth_mono)
    finally show ?thesis .
  qed
  have on: "err_at (es ! i) = pos_of (toks ! (ks ! i)) \<and> err_File (es ! i) = tok_File (toks ! (ks ! i))" if "i < m" for i
    using at [of i] lo [OF that] that m by (simp add: token_number_def NewParser_def)
  have off: "err_at (es ! i) = (0, 0) \<and> err_File (es ! i) = fil" if "m \<le> i" "i < length es" for i
    using at [OF that(2)] hi [OF that] by (simp add: token_number_def NewParser_def)
  have "sorted (map err_at (take m es))"
    unfolding sorted_iff_nth_mono
  proof (intro allI impI)
    fix i j
    assume "i \<le> j" "j < length (map err_at (take m es))"
    then have *: "j < length es" "i < m" "j < m" "ks ! i \<le> ks ! j"
      using ks(1) len by (simp_all add: sorted_nth_mono)
    have "pos_of (toks ! (ks ! i)) \<le> pos_of (toks ! (ks ! j))"
      by (rule lex_result_mono [OF lex *(4) lo [OF *(3)]])
    then have "err_at (es ! i) \<le> err_at (es ! j)"
      by (simp only: on [OF *(2)] on [OF *(3)])
    with * m show "map err_at (take m es) ! i \<le> map err_at (take m es) ! j" by simp
  qed
  moreover have "\<exists>t \<in> set toks. err_at e = pos_of t \<and> err_File e = tok_File t" if e: "e \<in> set (take m es)" for e
  proof -
    from e m obtain i where "i < m" "e = es ! i" by (auto simp: in_set_conv_nth)
    with on [of i] lo [of i] show ?thesis by auto
  qed
  moreover have "err_at e = (0, 0) \<and> err_File e = fil" if e: "e \<in> set (drop m es)" for e
  proof -
    from e obtain i where "i < length es - m" "e = es ! (m + i)" by (auto simp: in_set_conv_nth)
    with off [of "m + i"] show ?thesis by auto
  qed
  moreover have "length toks \<le> n" if "drop m es \<noteq> []"
  proof -
    from that have "m < length es" by simp
    with hi [of m] len have "length toks \<le> ks ! m" "ks ! m \<in> set ks" by simp_all
    with ks_n show ?thesis by fastforce
  qed
  ultimately show ?thesis by (intro exI [of _ "take m es"] exI [of _ "drop m es"]) simp
qed

text \<open>
  C17. The errors of a file that has tokens come in source order: each carries the position of
  a token and they are sorted by line and column. The one exception are errors reported after
  the parser has stepped over the end-of-file token, which come last and are all at 0:0; when
  the parser ends on that token there are none.
\<close>

theorem Parse_errors_ordered:
  assumes "Tokenize IsLetter IsDigit input fil = Inr toks"
    and "parseFile (NewParser toks fil) = Some (f, q)"
  shows "Parse IsLetter IsDigit input fil = Some (Some f, par_errors q) \<and>
    (\<exists>es1 es2. par_errors q = es1 @ es2 \<and> sorted (map err_at es1) \<and>
       (\<forall>e \<in> set es1. \<exists>t \<in> set toks. err_at e = pos_of t \<and> err_File e = tok_File t) \<and>
       (\<forall>e \<in> set es2. err_at e = (0, 0) \<and> err_File e = fil) \<and>
       (es2 \<noteq> [] \<longrightarrow> par_pos q = length toks))"
proof -
  have parse: "Parse IsLetter IsDigit input fil = Some (Some f, par_errors q)" using assms by (simp add: Parse_def)
  from parseFile_runs [of "NewParser toks fil"] assms(2)
  have d: "declared (NewParser toks fil) (declared_names (file_Statements f)) q" by auto
  then have loc: "located (NewParser toks fil) (par_errors q) 0 (par_pos q)" "par_pos q \<le> length toks"
    by (auto simp: declared_def NewParser_def)
  from located_sorted [OF Tokenize_result [OF assms(1)] loc(1)] obtain es1 es2 where
    es: "par_errors q = es1 @ es2" "sorted (map err_at es1)"
      "\<forall>e \<in> set es1. \<exists>t \<in> set toks. err_at e = pos_of t \<and> err_File e = tok_File t"
      "\<forall>e \<in> set es2. err_at e = (0, 0) \<and> err_File e = fil" "es2 \<noteq> [] \<longrightarrow> length toks \<le> par_pos q" by blast
  have "es2 \<noteq> [] \<longrightarrow> par_pos q = length toks" using es(5) loc(2) by linarith
  with parse es(1-4) show ?thesis by (intro conjI exI [of _ es1] exI [of _ es2])
qed

text \<open>
  A binding whose value is missing, where the parser steps over the end of the file, and a type
  without a definition and without a package header, where it does not.
\<close>

definition broken_source :: string where
  "broken_source = ''binding '' @ [CHR 0x22, CHR ''a'', CHR 0x22] @ '' {x''"

definition broken_tokens :: "Token list" where
  "broken_tokens =
     [sample_token TokenBinding ''binding'' 1, sample_token TokenString ''a'' 9, sample_token TokenLBrace ''{'' 13,
      sample_token TokenIdent ''x'' 14, sample_token TokenEOF [] 14]"

definition headless_source :: string where
  "headless_source = ''type type''"

definition headless_tokens :: "Token list" where
  "headless_tokens = [sample_token TokenTypeKw ''type'' 1, sample_token TokenTypeKw ''type'' 6, sample_token TokenEOF [] 6]"

lemma broken_source_tokens: "Tokenize ascii_letter isDigit broken_source ''f'' = Inr broken_tokens"
  by code_simp

lemma broken_tokens_parse:
  "case parseFile (NewParser broken_tokens ''f'') of
     Some (f, q) \<Rightarrow> map err_at (par_errors q) = [(1, 1), (0, 0)] \<and> par_pos q = length broken_tokens
   | None \<Rightarrow> False"
  by code_simp

lemma headless_source_tokens: "Tokenize ascii_letter isDigit headless_source ''f'' = Inr headless_tokens"
  by code_simp

lemma headless_tokens_parse:
  "case parseFile (NewParser headless_tokens ''f'') of
     Some (f, q) \<Rightarrow> map err_at (par_errors q) = [(1, 1), (1, 6), (1, 6)] \<and> par_pos q < length headless_tokens
   | None \<Rightarrow> False"
  by code_simp

theorem Parse_errors_ordered_witness:
  "\<exists>f q. parseFile (NewParser headless_tokens ''f'') = Some (f, q) \<and>
     Parse ascii_letter isDigit headless_source ''f'' = Some (Some f, par_errors q) \<and>
     par_errors q \<noteq> [] \<and> sorted (map err_at (par_errors q))"
proof -
  from headless_tokens_parse obtain f q where
    q: "parseFile (NewParser headless_tokens ''f'') = Some (f, q)" "par_errors q \<noteq> []"
      "par_pos q < length headless_tokens"
    by (auto split: option.splits)
  from Parse_errors_ordered [OF headless_source_tokens q(1)] q(3) obtain es where
    "par_errors q = es @ []" "sorted (map err_at es)"
    "Parse ascii_letter isDigit headless_source ''f'' = Some (Some f, par_errors q)" by fastforce
  with q(1,2) show ?thesis by (intro exI [of _ f] exI [of _ q]) simp
qed

end
