(* ===== verification/Lower.thy ===== *)
theory Lower
  imports AST IR Go_Strings "HOL-Library.Monad_Syntax"
begin

text \<open>
  The lowering pass of \<open>internal/ir/lower.go\<close>: a file becomes a document, statement by statement,
  with one definition for each kind of statement. The hash of an attribute map and the process
  environment are parameters. \<open>resolveEnvVars\<close> is a loop that need not end, so the result of
  \<open>Lower\<close> is optional: \<open>None\<close> is a run that does not return.
\<close>

subsection \<open>Attribute maps\<close>

type_synonym attrs = "(string, ivalue) gomap"

definition strMapToInterface :: "(string, string) gomap \<Rightarrow> attrs" where
  "strMapToInterface m = map (\<lambda>(k, v). (k, IString v)) m"

text \<open>The statement \<open>if c { m[k] = v }\<close>, and a slice of strings as a slice of \<open>interface{}\<close>.\<close>

definition put_if :: "bool \<Rightarrow> string \<Rightarrow> ivalue \<Rightarrow> attrs \<Rightarrow> attrs" where
  "put_if c k v m = (if c then mput k v m else m)"

definition istrings :: "string list \<Rightarrow> ivalue" where
  "istrings xs = IList (map IString xs)"

definition put_string :: "string \<Rightarrow> string \<Rightarrow> attrs \<Rightarrow> attrs" where
  "put_string k s = put_if (s \<noteq> []) k (IString s)"

definition put_int :: "string \<Rightarrow> int \<Rightarrow> attrs \<Rightarrow> attrs" where
  "put_int k n = put_if (n > 0) k (IInt n)"

definition put_strings :: "string \<Rightarrow> string list \<Rightarrow> attrs \<Rightarrow> attrs" where
  "put_strings k xs = put_if (xs \<noteq> []) k (istrings xs)"

definition put_map :: "string \<Rightarrow> (string, string) gomap \<Rightarrow> attrs \<Rightarrow> attrs" where
  "put_map k m = put_if (m \<noteq> []) k (IMap (strMapToInterface m))"

text \<open>A map field that the parser may leave nil.\<close>

definition map_field :: "(string, string) gomap option \<Rightarrow> (string, string) gomap" where
  "map_field m = (case m of None \<Rightarrow> [] | Some m \<Rightarrow> m)"

definition fqn :: "string \<Rightarrow> string \<Rightarrow> string \<Rightarrow> string" where
  "fqn pkgName kind name = pkgName @ ''/'' @ kind @ ''/'' @ name"

text \<open>The resource every case builds, its hash taken from its attributes.\<close>

definition resource ::
  "(attrs \<Rightarrow> string) \<Rightarrow> string \<Rightarrow> string \<Rightarrow> string \<Rightarrow> attrs \<Rightarrow> string list \<Rightarrow> (string, string) gomap \<Rightarrow> Resource"
where
  "resource ComputeHash pkgName kind name as refs meta =
     \<lparr>res_Kind = kind, res_Name = name, res_FQN = fqn pkgName kind name, res_Attributes = as,
      res_References = refs, res_Hash = ComputeHash as,
      res_Metadata = (if meta \<noteq> [] then strMapToInterface meta else [])\<rparr>"

subsection \<open>Prompts and skills\<close>

definition lower_variable :: "Variable \<Rightarrow> ivalue" where
  "lower_variable v =
     IMap (put_string ''default'' (var_Default v)
       (put_if (var_Required v) ''required'' (IBool True)
         [(''name'', IString (var_Name v)), (''type'', IString (var_Type v))]))"

definition lower_prompt :: "(attrs \<Rightarrow> string) \<Rightarrow> string \<Rightarrow> Prompt \<Rightarrow> Resource" where
  "lower_prompt ComputeHash pkgName s =
     resource ComputeHash pkgName ''Prompt'' (pr_Name s)
       (put_if (pr_Variables s \<noteq> []) ''variables'' (IList (map lower_variable (pr_Variables s)))
         (put_string ''version'' (pr_Version s) [(''content'', IString (pr_Content s))]))
       [] (pr_Metadata s)"

definition lower_tool :: "ToolConfig \<Rightarrow> attrs" where
  "lower_tool t =
     (let tc = [(''type'', IString (tc_Type t))];
          tc = (if tc_Type t = ''mcp'' then mput ''server_tool'' (IString (tc_ServerTool t)) tc
                else if tc_Type t = ''http'' then
                  put_string ''body_template'' (tc_BodyTemplate t)
                    (put_map ''headers'' (map_field (tc_Headers t))
                      (put_string ''url'' (tc_URL t) (put_string ''method'' (tc_Method t) tc)))
                else if tc_Type t = ''command'' then
                  put_map ''secrets'' (map_field (tc_Secrets t))
                    (put_map ''env'' (map_field (tc_Env t))
                      (put_string ''timeout'' (tc_Timeout t)
                        (put_strings ''args'' (tc_Args t) (put_string ''binary'' (tc_Binary t) tc))))
                else if tc_Type t = ''inline'' then
                  put_string ''memory_limit'' (tc_MemoryLimit t)
                    (put_string ''code'' (tc_Code t) (put_string ''language'' (tc_Language t) tc))
                else tc)
      in put_if (tc_Timeout t \<noteq> [] \<and> tc_Type t \<noteq> ''command'') ''timeout'' (IString (tc_Timeout t)) tc)"

definition lower_field :: "Field \<Rightarrow> ivalue" where
  "lower_field f =
     IMap (put_if (fld_Required f) ''required'' (IBool True)
       [(''name'', IString (fld_Name f)), (''type'', IString (fld_Type f))])"

definition lower_skill :: "(attrs \<Rightarrow> string) \<Rightarrow> string \<Rightarrow> Skill \<Rightarrow> Resource" where
  "lower_skill ComputeHash pkgName s =
     (let as = [(''description'', IString (sk_Description s))];
          as = (case sk_Execution s of None \<Rightarrow> as
                | Some e \<Rightarrow> mput ''execution''
                    (IMap [(''type'', IString (exe_Type e)), (''value'', IString (exe_Value e))]) as);
          as = (case sk_ToolConfig s of None \<Rightarrow> as | Some t \<Rightarrow> mput ''tool'' (IMap (lower_tool t)) as);
          as = put_if (sk_Input s \<noteq> []) ''input'' (IList (map lower_field (sk_Input s))) as;
          as = put_if (sk_Output s \<noteq> []) ''output'' (IList (map lower_field (sk_Output s))) as
      in resource ComputeHash pkgName ''Skill'' (sk_Name s) as [] (sk_Metadata s))"

subsection \<open>On-input statements\<close>

text \<open>
  The parser leaves the body of an absent \<open>else\<close> nil, as it does the body of an empty one; so
  the test for nil is the test for the empty list.
\<close>

fun lower_on_input :: "OnInputStmt \<Rightarrow> ivalue" and lower_else_if :: "ElseIfClause \<Rightarrow> ivalue" where
  "lower_on_input (UseSkillStmt skill params _ _) =
     IMap (put_map ''params'' (map_field params) [(''type'', IString ''use_skill''), (''skill'', IString skill)])"
| "lower_on_input (DelegateToStmt agent _ _) =
     IMap [(''type'', IString ''delegate''), (''agent'', IString agent)]"
| "lower_on_input (RespondStmt e _ _) =
     IMap [(''type'', IString ''respond''), (''expression'', IString e)]"
| "lower_on_input (IfBlock cond body elseIfs elseBody _ _) =
     IMap (put_if (elseBody \<noteq> []) ''else_body'' (IList (map lower_on_input elseBody))
       (put_if (elseIfs \<noteq> []) ''else_ifs'' (IList (map lower_else_if elseIfs))
         [(''type'', IString ''if''), (''condition'', IString cond), (''body'', IList (map lower_on_input body))]))"
| "lower_on_input (ForEachBlock var coll body _ _) =
     IMap [(''type'', IString ''for_each''), (''variable'', IString var), (''collection'', IString coll),
       (''body'', IList (map lower_on_input body))]"
| "lower_else_if (ElseIfClause cond body _ _) =
     IMap [(''condition'', IString cond), (''body'', IList (map lower_on_input body))]"

definition lowerOnInputStmts :: "OnInputStmt list \<Rightarrow> ivalue" where
  "lowerOnInputStmts stmts = IList (map lower_on_input stmts)"

subsection \<open>Agents\<close>

definition lower_memory :: "MemoryConfig \<Rightarrow> ivalue" where
  "lower_memory mc = IMap (put_int ''max_messages'' (mem_MaxMessages mc) (put_string ''strategy'' (mem_Strategy mc) []))"

definition lower_delegate :: "Delegate \<Rightarrow> ivalue" where
  "lower_delegate d = IMap [(''agent'', IString (del_AgentRef d)), (''condition'', IString (del_Condition d))]"

definition lower_config_param :: "ConfigParam \<Rightarrow> ivalue" where
  "lower_config_param p =
     IMap (put_if (cp_HasDefault p) ''default'' (IString (cp_Default p))
       (put_if (cp_Secret p) ''secret'' (IBool True)
         (put_if (cp_Required p) ''required'' (IBool True)
           (put_string ''description'' (cp_Description p)
             [(''name'', IString (cp_Name p)), (''type'', IString (cp_Type p))]))))"

definition lower_validation_rule :: "ValidationRule \<Rightarrow> ivalue" where
  "lower_validation_rule r =
     IMap (put_string ''message'' (vr_Message r)
       (put_int ''max_retries'' (vr_MaxRetries r)
         [(''name'', IString (vr_Name r)), (''severity'', IString (vr_Severity r)),
          (''expression'', IString (vr_Expression r))]))"

definition lower_eval_case :: "EvalCase \<Rightarrow> ivalue" where
  "lower_eval_case c =
     IMap (put_strings ''tags'' (ec_Tags c)
       (put_if (ec_Threshold c \<noteq> round_float64 (8 / 10)) ''threshold'' (IFloat (ec_Threshold c))
         (put_string ''scoring'' (ec_Scoring c)
           [(''name'', IString (ec_Name c)), (''input'', IString (ec_Input c)), (''expected'', IString (ec_Expected c))])))"

definition put_opt :: "string \<Rightarrow> ('a \<Rightarrow> ivalue) \<Rightarrow> 'a option \<Rightarrow> attrs \<Rightarrow> attrs" where
  "put_opt k f x m = (case x of None \<Rightarrow> m | Some v \<Rightarrow> mput k (f v) m)"

definition put_list :: "string \<Rightarrow> ('a \<Rightarrow> ivalue) \<Rightarrow> 'a list \<Rightarrow> attrs \<Rightarrow> attrs" where
  "put_list k f xs = put_if (xs \<noteq> []) k (IList (map f xs))"

definition agent_attrs :: "Agent \<Rightarrow> attrs" where
  "agent_attrs s =
     (let as = [(''model'', IString (ag_Model s))];
          as = put_opt ''prompt'' (\<lambda>r. IString (ref_Name r)) (ag_Prompt s) as;
          as = put_list ''skills'' (\<lambda>r. IString (ref_Name r)) (ag_Skills s) as;
          as = put_opt ''client'' (\<lambda>r. IString (ref_Name r)) (ag_Client s) as;
          as = put_string ''strategy'' (ag_Strategy s) as;
          as = put_int ''max_turns'' (ag_MaxTurns s) as;
          as = put_string ''timeout'' (ag_Timeout s) as;
          as = put_int ''token_budget'' (ag_TokenBudget s) as;
          as = put_if (ag_HasTemp s) ''temperature'' (IFloat (ag_Temperature s)) as;
          as = put_opt ''stream'' IBool (ag_Stream s) as;
          as = put_string ''on_error'' (ag_OnError s) as;
          as = put_int ''max_retries'' (ag_MaxRetries s) as;
          as = put_string ''fallback'' (ag_Fallback s) as;
          as = put_opt ''memory'' lower_memory (ag_MemoryCfg s) as;
          as = put_list ''delegates'' lower_delegate (ag_Delegates s) as;
          as = put_list ''config_params'' lower_config_param (ag_ConfigParams s) as;
          as = put_list ''validation_rules'' lower_validation_rule (ag_ValidationRules s) as;
          as = put_list ''eval_cases'' lower_eval_case (ag_EvalCases s) as;
          as = put_opt ''on_input'' (\<lambda>b. lowerOnInputStmts (oib_Statements b)) (ag_OnInput s) as;
          as = put_strings ''models'' (ag_Models s) as;
          as = put_if (ag_BudgetDaily s > 0) ''budget_daily'' (IFloat (ag_BudgetDaily s)) as;
          as = put_if (ag_BudgetMonthly s > 0) ''budget_monthly'' (IFloat (ag_BudgetMonthly s)) as
      in put_strings ''guardrails'' (ag_GuardrailRefs s) as)"

definition opt_list :: "'a option \<Rightarrow> 'a list" where
  "opt_list x = (case x of None \<Rightarrow> [] | Some v \<Rightarrow> [v])"

text \<open>The references of an agent, in the order the code appends them.\<close>

definition agent_refs :: "string \<Rightarrow> Agent \<Rightarrow> string list" where
  "agent_refs pkgName s =
     map (\<lambda>r. fqn pkgName ''Prompt'' (ref_Name r)) (opt_list (ag_Prompt s)) @
     map (\<lambda>r. fqn pkgName ''Skill'' (ref_Name r)) (ag_Skills s) @
     map (\<lambda>r. fqn pkgName ''MCPClient'' (ref_Name r)) (opt_list (ag_Client s)) @
     (if ag_Fallback s \<noteq> [] then [fqn pkgName ''Agent'' (ag_Fallback s)] else []) @
     map (\<lambda>d. fqn pkgName ''Agent'' (del_AgentRef d)) (ag_Delegates s) @
     map (fqn pkgName ''Guardrail'') (ag_GuardrailRefs s)"

definition lower_agent :: "(attrs \<Rightarrow> string) \<Rightarrow> string \<Rightarrow> Agent \<Rightarrow> Resource" where
  "lower_agent ComputeHash pkgName s =
     resource ComputeHash pkgName ''Agent'' (ag_Name s) (agent_attrs s) (agent_refs pkgName s) (ag_Metadata s)"

subsection \<open>Servers, clients, secrets and environments\<close>

definition lower_server :: "(attrs \<Rightarrow> string) \<Rightarrow> string \<Rightarrow> MCPServer \<Rightarrow> Resource" where
  "lower_server ComputeHash pkgName s =
     (let as = [(''transport'', IString (srv_Transport s))];
          as = put_string ''command'' (srv_Command s) as;
          as = put_strings ''args'' (srv_Args s) as;
          as = put_string ''url'' (srv_URL s) as;
          as = put_map ''env'' (srv_Env s) as;
          as = put_opt ''auth'' (\<lambda>r. IString (ref_Name r)) (srv_Auth s) as;
          refs = map (\<lambda>r. fqn pkgName ''Secret'' (ref_Name r)) (opt_list (srv_Auth s)) @
                 map (\<lambda>r. fqn pkgName ''Skill'' (ref_Name r)) (srv_Skills s)
      in resource ComputeHash pkgName ''MCPServer'' (srv_Name s) as refs (srv_Metadata s))"

definition lower_client :: "(attrs \<Rightarrow> string) \<Rightarrow> string \<Rightarrow> MCPClient \<Rightarrow> Resource" where
  "lower_client ComputeHash pkgName s =
     resource ComputeHash pkgName ''MCPClient'' (cli_Name s)
       (put_list ''servers'' (\<lambda>r. IString (ref_Name r)) (cli_Servers s) [])
       (map (\<lambda>r. fqn pkgName ''MCPServer'' (ref_Name r)) (cli_Servers s)) (cli_Metadata s)"

definition lower_secret :: "(attrs \<Rightarrow> string) \<Rightarrow> string \<Rightarrow> Secret \<Rightarrow> Resource" where
  "lower_secret ComputeHash pkgName s =
     resource ComputeHash pkgName ''Secret'' (sec_Name s)
       [(''source'', IString (sec_Source s)), (''key'', IString (sec_Key s))] [] []"

definition lower_override :: "Override \<Rightarrow> ivalue" where
  "lower_override ov =
     IMap [(''resource'', IString (ovr_Resource ov)), (''attribute'', IString (ovr_Attribute ov)),
           (''value'', IString (ovr_Value ov))]"

definition lower_environment :: "(attrs \<Rightarrow> string) \<Rightarrow> string \<Rightarrow> Environment \<Rightarrow> Resource" where
  "lower_environment ComputeHash pkgName s =
     resource ComputeHash pkgName ''Environment'' (env_Name s)
       [(''name'', IString (env_Name s)), (''overrides'', IList (map lower_override (env_Overrides s)))] [] []"

subsection \<open>Types, pipelines, users and guardrails\<close>

definition lower_type_field :: "TypeField \<Rightarrow> ivalue" where
  "lower_type_field f =
     IMap (put_string ''default'' (tf_Default f)
       (put_if (tf_Required f) ''required'' (IBool True)
         [(''name'', IString (tf_Name f)), (''type'', IString (tf_Type f))]))"

definition lower_type :: "(attrs \<Rightarrow> string) \<Rightarrow> string \<Rightarrow> TypeDef \<Rightarrow> Resource" where
  "lower_type ComputeHash pkgName s =
     resource ComputeHash pkgName ''Type'' (td_Name s)
       (put_list ''fields'' lower_type_field (td_Fields s)
         (put_string ''list_of'' (td_ListOf s)
           (put_strings ''enum'' (td_EnumVals s) [(''name'', IString (td_Name s))])))
       [] []"

definition lower_step :: "PipelineStep \<Rightarrow> ivalue" where
  "lower_step st =
     IMap (put_string ''when'' (pst_When st)
       (put_if (pst_Parallel st) ''parallel'' (IBool True)
         (put_strings ''depends_on'' (pst_DependsOn st)
           (put_string ''output'' (pst_Output st)
             (put_string ''input'' (pst_Input st)
               (put_string ''agent'' (pst_Agent st) [(''name'', IString (pst_Name st))]))))))"

definition lower_pipeline :: "(attrs \<Rightarrow> string) \<Rightarrow> string \<Rightarrow> Pipeline \<Rightarrow> Resource" where
  "lower_pipeline ComputeHash pkgName s =
     resource ComputeHash pkgName ''Pipeline'' (pl_Name s)
       (put_list ''steps'' lower_step (pl_Steps s) [(''name'', IString (pl_Name s))])
       (map (\<lambda>st. fqn pkgName ''Agent'' (pst_Agent st)) (filter (\<lambda>st. pst_Agent st \<noteq> []) (pl_Steps s))) []"

definition lower_user :: "(attrs \<Rightarrow> string) \<Rightarrow> string \<Rightarrow> User \<Rightarrow> Resource" where
  "lower_user ComputeHash pkgName s =
     resource ComputeHash pkgName ''User'' (usr_Name s)
       (put_string ''role'' (usr_Role s)
         (put_strings ''agents'' (usr_Agents s) [(''key_ref'', IString (usr_KeyRef s))]))
       [] []"

definition lower_guardrail :: "(attrs \<Rightarrow> string) \<Rightarrow> string \<Rightarrow> Guardrail \<Rightarrow> Resource" where
  "lower_guardrail ComputeHash pkgName s =
     resource ComputeHash pkgName ''Guardrail'' (gr_Name s)
       (put_string ''fallback'' (gr_FallbackMsg s)
         (put_strings ''patterns'' (gr_Patterns s)
           (put_strings ''keywords'' (gr_Keywords s) (put_string ''mode'' (gr_Mode s) []))))
       [] []"

subsection \<open>Policies, bindings and deployment targets\<close>

definition lower_rule :: "ast_Rule \<Rightarrow> Rule" where
  "lower_rule r = \<lparr>rule_Action = rul_Action r, rule_Resource = rul_Resource r, rule_Subject = rul_Subject r\<rparr>"

definition lower_policy :: "ast_Policy \<Rightarrow> Policy" where
  "lower_policy s = \<lparr>pol_Name = apl_Name s, pol_Rules = map lower_rule (apl_Rules s)\<rparr>"

definition lower_binding :: "ast_Binding \<Rightarrow> Binding" where
  "lower_binding s =
     \<lparr>bind_Name = abd_Name s, bind_Adapter = abd_Adapter s, bind_Default = abd_Default s,
      bind_Config = (if abd_Config s \<noteq> [] then strMapToInterface (abd_Config s) else [])\<rparr>"

definition lower_limits :: "ResourceLimits \<Rightarrow> ivalue" where
  "lower_limits r = IMap (put_string ''memory'' (rl_Memory r) (put_string ''cpu'' (rl_CPU r) []))"

definition lower_health :: "HealthConfig \<Rightarrow> ivalue" where
  "lower_health h =
     IMap (put_string ''timeout'' (hc_Timeout h)
       (put_string ''interval'' (hc_Interval h) (put_string ''path'' (hc_Path h) [])))"

definition lower_autoscale :: "AutoscaleConfig \<Rightarrow> ivalue" where
  "lower_autoscale a =
     IMap (put_int ''target'' (ac_Target a)
       (put_string ''metric'' (ac_Metric a)
         (put_int ''max_replicas'' (ac_MaxReplicas a) (put_int ''min_replicas'' (ac_MinReplicas a) []))))"

definition lower_deploy :: "ast_DeployTarget \<Rightarrow> DeployTarget" where
  "lower_deploy s =
     (let cfg = put_int ''port'' (adt_Port s) [];
          cfg = put_string ''namespace'' (adt_Namespace s) cfg;
          cfg = put_int ''replicas'' (adt_Replicas s) cfg;
          cfg = put_string ''image'' (adt_Image s) cfg;
          cfg = put_opt ''resources'' lower_limits (adt_Resources s) cfg;
          cfg = put_opt ''health'' lower_health (adt_Health s) cfg;
          cfg = put_opt ''autoscale'' lower_autoscale (adt_Autoscale s) cfg;
          cfg = put_map ''env'' (adt_Env s) cfg;
          cfg = put_map ''secrets'' (adt_Secrets s) cfg
      in \<lparr>dt_Name = adt_Name s, dt_Target = adt_Target s, dt_Default = adt_Default s, dt_Config = cfg\<rparr>)"

subsection \<open>State backends\<close>

definition validStateBackends :: "string list" where
  "validStateBackends = [''local'', ''kubernetes'', ''etcd'', ''postgres'', ''s3'']"

text \<open>\<open>os.LookupEnv\<close> is the parameter; the left result is the name of an unresolved variable.\<close>

partial_function (option) resolveEnvVars ::
  "(string \<Rightarrow> string option) \<Rightarrow> string \<Rightarrow> (string + string) option"
where
  "resolveEnvVars LookupEnv result =
     (case Index result ''${'' of
        None \<Rightarrow> Some (Inr result)
      | Some i \<Rightarrow>
          (case Index (drop i result) ''}'' of
             None \<Rightarrow> Some (Inr result)
           | Some e \<Rightarrow>
               let j = e + i; varName = drop (i + 2) (take j result)
               in case LookupEnv varName of
                    None \<Rightarrow> Some (Inl varName)
                  | Some val \<Rightarrow> resolveEnvVars LookupEnv (take i result @ val @ drop (j + 1) result)))"

declare resolveEnvVars.simps [code]

datatype lower_error =
    MissingPackage
  | DuplicateState Pos
  | UnknownBackend Pos string
  | UnresolvedVariable Pos string string

fun resolve_properties ::
  "(string \<Rightarrow> string option) \<Rightarrow> Pos \<Rightarrow> (string, string) gomap \<Rightarrow> string list \<Rightarrow> (string, string) gomap
    \<Rightarrow> (lower_error + (string, string) gomap) option"
where
  "resolve_properties LookupEnv pos props [] resolved = Some (Inr resolved)"
| "resolve_properties LookupEnv pos props (k # ks) resolved =
     do {
       r \<leftarrow> resolveEnvVars LookupEnv (mget0 [] props k);
       case r of
         Inl var \<Rightarrow> Some (Inl (UnresolvedVariable pos k var))
       | Inr rv \<Rightarrow> resolve_properties LookupEnv pos props ks (mput k rv resolved)
     }"

definition lower_state ::
  "(string \<Rightarrow> string option) \<Rightarrow> (string list \<Rightarrow> string list) \<Rightarrow> ast_StateConfig \<Rightarrow> Document
    \<Rightarrow> (lower_error + Document) option"
where
  "lower_state LookupEnv rng s doc =
     (if doc_StateConfig doc \<noteq> None then Some (Inl (DuplicateState (ast_StartPos s)))
      else if ast_Type s \<notin> set validStateBackends then Some (Inl (UnknownBackend (ast_StartPos s) (ast_Type s)))
      else do {
        r \<leftarrow> resolve_properties LookupEnv (ast_StartPos s) (ast_Properties s) (rng (mkeys (ast_Properties s))) [];
        case r of
          Inl e \<Rightarrow> Some (Inl e)
        | Inr resolved \<Rightarrow>
            Some (Inr (doc\<lparr>doc_StateConfig := Some \<lparr>sc_Type = ast_Type s, sc_Properties = resolved\<rparr>\<rparr>))
      })"

subsection \<open>Documents\<close>

definition add_resource :: "Resource \<Rightarrow> Document \<Rightarrow> (lower_error + Document) option" where
  "add_resource r doc = Some (Inr (doc\<lparr>doc_Resources := doc_Resources doc @ [r]\<rparr>))"

definition lower_statement ::
  "(attrs \<Rightarrow> string) \<Rightarrow> (string \<Rightarrow> string option) \<Rightarrow> (string list \<Rightarrow> string list) \<Rightarrow> string
    \<Rightarrow> Statement \<Rightarrow> Document \<Rightarrow> (lower_error + Document) option"
where
  "lower_statement ComputeHash LookupEnv rng pkgName stmt doc =
     (case stmt of
        StmtPrompt s \<Rightarrow> add_resource (lower_prompt ComputeHash pkgName s) doc
      | StmtSkill s \<Rightarrow> add_resource (lower_skill ComputeHash pkgName s) doc
      | StmtImport s \<Rightarrow>
          Some (Inr (doc\<lparr>doc_Imports := doc_Imports doc @
            [\<lparr>imp_Path = aim_Path s, imp_Version = aim_Version s, imp_Alias = aim_Alias s\<rparr>]\<rparr>))
      | StmtAgent s \<Rightarrow> add_resource (lower_agent ComputeHash pkgName s) doc
      | StmtMCPServer s \<Rightarrow> add_resource (lower_server ComputeHash pkgName s) doc
      | StmtMCPClient s \<Rightarrow> add_resource (lower_client ComputeHash pkgName s) doc
      | StmtSecret s \<Rightarrow> add_resource (lower_secret ComputeHash pkgName s) doc
      | StmtEnvironment s \<Rightarrow> add_resource (lower_environment ComputeHash pkgName s) doc
      | StmtPolicy s \<Rightarrow> Some (Inr (doc\<lparr>doc_Policies := doc_Policies doc @ [lower_policy s]\<rparr>))
      | StmtBinding s \<Rightarrow> Some (Inr (doc\<lparr>doc_Bindings := doc_Bindings doc @ [lower_binding s]\<rparr>))
      | StmtTypeDef s \<Rightarrow> add_resource (lower_type ComputeHash pkgName s) doc
      | StmtPipeline s \<Rightarrow> add_resource (lower_pipeline ComputeHash pkgName s) doc
      | StmtUser s \<Rightarrow> add_resource (lower_user ComputeHash pkgName s) doc
      | StmtGuardrail s \<Rightarrow> add_resource (lower_guardrail ComputeHash pkgName s) doc
      | StmtStateConfig s \<Rightarrow> lower_state LookupEnv rng s doc
      | StmtDeployTarget s \<Rightarrow> Some (Inr (doc\<lparr>doc_DeployTargets := doc_DeployTargets doc @ [lower_deploy s]\<rparr>))
      | _ \<Rightarrow> Some (Inr doc))"

fun lower_statements ::
  "(attrs \<Rightarrow> string) \<Rightarrow> (string \<Rightarrow> string option) \<Rightarrow> (string list \<Rightarrow> string list) \<Rightarrow> string
    \<Rightarrow> Statement list \<Rightarrow> Document \<Rightarrow> (lower_error + Document) option"
where
  "lower_statements ComputeHash LookupEnv rng pkgName [] doc = Some (Inr doc)"
| "lower_statements ComputeHash LookupEnv rng pkgName (stmt # stmts) doc =
     do {
       r \<leftarrow> lower_statement ComputeHash LookupEnv rng pkgName stmt doc;
       case r of
         Inl e \<Rightarrow> Some (Inl e)
       | Inr doc \<Rightarrow> lower_statements ComputeHash LookupEnv rng pkgName stmts doc
     }"

definition Lower ::
  "(attrs \<Rightarrow> string) \<Rightarrow> (string \<Rightarrow> string option) \<Rightarrow> (string list \<Rightarrow> string list) \<Rightarrow> File
    \<Rightarrow> (lower_error + Document) option"
where
  "Lower ComputeHash LookupEnv rng f =
     (case file_Package f of
        None \<Rightarrow> Some (Inl MissingPackage)
      | Some pkg \<Rightarrow>
          do {
            let doc = \<lparr>doc_IRVersion = ''1.0'', doc_LangVersion = apk_LangVersion pkg,
                       doc_Package = \<lparr>pkg_Name = apk_Name pkg, pkg_Version = apk_Version pkg, pkg_Description = []\<rparr>,
                       doc_Imports = [], doc_Resources = [], doc_Policies = [], doc_Bindings = [],
                       doc_DeployTargets = [], doc_StateConfig = None\<rparr>;
            r \<leftarrow> lower_statements ComputeHash LookupEnv rng (apk_Name pkg) (file_Statements f) doc;
            case r of
              Inl e \<Rightarrow> Some (Inl e)
            | Inr doc \<Rightarrow> Some (Inr (doc\<lparr>doc_Resources := SortResources (doc_Resources doc)\<rparr>))
          })"

subsection \<open>The resources of a document\<close>

text \<open>The resources a statement is lowered to.\<close>

definition lowered :: "(attrs \<Rightarrow> string) \<Rightarrow> string \<Rightarrow> Statement \<Rightarrow> Resource list" where
  "lowered CH pkg st =
     (case st of
        StmtPrompt s \<Rightarrow> [lower_prompt CH pkg s]
      | StmtSkill s \<Rightarrow> [lower_skill CH pkg s]
      | StmtAgent s \<Rightarrow> [lower_agent CH pkg s]
      | StmtMCPServer s \<Rightarrow> [lower_server CH pkg s]
      | StmtMCPClient s \<Rightarrow> [lower_client CH pkg s]
      | StmtSecret s \<Rightarrow> [lower_secret CH pkg s]
      | StmtEnvironment s \<Rightarrow> [lower_environment CH pkg s]
      | StmtTypeDef s \<Rightarrow> [lower_type CH pkg s]
      | StmtPipeline s \<Rightarrow> [lower_pipeline CH pkg s]
      | StmtUser s \<Rightarrow> [lower_user CH pkg s]
      | StmtGuardrail s \<Rightarrow> [lower_guardrail CH pkg s]
      | _ \<Rightarrow> [])"

lemmas lower_resource_defs = lower_prompt_def lower_skill_def lower_agent_def lower_server_def lower_client_def
  lower_secret_def lower_environment_def lower_type_def lower_pipeline_def lower_user_def lower_guardrail_def

lemma resource_simps [simp]:
  "res_Kind (resource CH pkg k n as refs meta) = k" "res_Name (resource CH pkg k n as refs meta) = n"
  "res_FQN (resource CH pkg k n as refs meta) = fqn pkg k n" "res_Attributes (resource CH pkg k n as refs meta) = as"
  "res_References (resource CH pkg k n as refs meta) = refs" "res_Hash (resource CH pkg k n as refs meta) = CH as"
  "res_Metadata (resource CH pkg k n as refs meta) = strMapToInterface meta"
  by (simp_all add: resource_def strMapToInterface_def)

lemma lower_state_resources:
  "lower_state env rng s doc = Some (Inr doc') \<Longrightarrow> doc_Resources doc' = doc_Resources doc"
  by (auto simp: lower_state_def split: if_splits bind_splits sum.splits)

lemma lower_statement_resources:
  "lower_statement CH env rng pkg st doc = Some (Inr doc') \<Longrightarrow>
     doc_Resources doc' = doc_Resources doc @ lowered CH pkg st"
  by (cases st) (auto simp: lower_statement_def lowered_def add_resource_def dest: lower_state_resources)

lemma lower_statements_resources:
  "lower_statements CH env rng pkg sts doc = Some (Inr doc') \<Longrightarrow>
     doc_Resources doc' = doc_Resources doc @ concat (map (lowered CH pkg) sts)"
  by (induction sts arbitrary: doc)
    (auto dest!: lower_statement_resources split: bind_splits sum.splits)

lemma Lower_resources:
  assumes "Lower CH env rng f = Some (Inr doc)"
  shows "\<exists>pkg. file_Package f = Some pkg \<and>
    doc_Resources doc = SortResources (concat (map (lowered CH (apk_Name pkg)) (file_Statements f)))"
  using assms by (auto simp: Lower_def dest: lower_statements_resources split: option.splits bind_splits sum.splits)

text \<open>Attributes written under another key do not matter to a lookup.\<close>

lemma mget_put [simp]:
  "k \<noteq> k' \<Longrightarrow> mget (put_if c k v m) k' = mget m k'" "k \<noteq> k' \<Longrightarrow> mget (put_string k s m) k' = mget m k'"
  "k \<noteq> k' \<Longrightarrow> mget (put_int k n m) k' = mget m k'" "k \<noteq> k' \<Longrightarrow> mget (put_strings k xs m) k' = mget m k'"
  "k \<noteq> k' \<Longrightarrow> mget (put_map k sm m) k' = mget m k'" "k \<noteq> k' \<Longrightarrow> mget (put_opt k f x m) k' = mget m k'"
  "k \<noteq> k' \<Longrightarrow> mget (put_list k f ys m) k' = mget m k'"
  by (auto simp: put_if_def put_string_def put_int_def put_strings_def put_map_def put_opt_def put_list_def
    split: option.splits)

lemma mget_put_same [simp]:
  "mget (put_strings k xs m) k = (if xs \<noteq> [] then Some (istrings xs) else mget m k)"
  "mget (put_opt k f x m) k = (case x of None \<Rightarrow> mget m k | Some v \<Rightarrow> Some (f v))"
  by (auto simp: put_if_def put_strings_def put_opt_def split: option.splits)

subsection \<open>Resolving environment variables\<close>

lemma Index_prefix: "Index s sub = Some i \<Longrightarrow> i \<le> length s \<and> take (length sub) (drop i s) = sub"
proof (induction s sub arbitrary: i rule: Index.induct)
  case (2 c cs sub)
  show ?case
  proof (cases "HasPrefix (c # cs) sub")
    case True
    with "2.prems" show ?thesis by (auto simp: HasPrefix_def)
  next
    case False
    with "2.prems" obtain j where "i = Suc j" "Index cs sub = Some j" by auto
    with "2.IH" [OF False] show ?thesis by simp
  qed
qed (auto split: if_splits)

lemma Index_char: "Index s [c] = None \<longleftrightarrow> c \<notin> set s"
  by (induction s "[c]" rule: Index.induct) (auto simp: HasPrefix_def)

text \<open>A substitution removes the dollar sign of its variable.\<close>

lemma resolve_shrinks:
  assumes "Index s ''${'' = Some i" "Index (drop i s) ''}'' = Some e" "CHR ''$'' \<notin> set val"
  shows "count_list (take i s @ val @ drop (e + i + 1) s) CHR ''$'' < count_list s CHR ''$''"
proof -
  have d: "take (length ''${'') (drop i s) = ''${''" using Index_prefix [OF assms(1)] by blast
  then obtain t where t: "drop i s = ''${'' @ t"
    by (metis append_take_drop_id)
  have "e \<noteq> 0" using Index_prefix [OF assms(2)] t by (cases e) auto
  then obtain e' where "e = Suc e'" by (cases e) auto
  then have "drop (e + i + 1) s = drop e' t"
    using arg_cong [OF t, of "drop (e + 1)"] by (simp add: add.commute)
  moreover have "count_list (drop e' t) CHR ''$'' \<le> count_list t CHR ''$''"
    by (metis append_take_drop_id count_list_append le_add2)
  moreover have "count_list s CHR ''$'' = count_list (take i s) CHR ''$'' + (1 + count_list t CHR ''$'')"
    using arg_cong [OF append_take_drop_id [of i s], of "\<lambda>s. count_list s CHR ''$''"] t
    by simp
  moreover have "count_list val CHR ''$'' = 0" using assms(3) by (simp add: count_list_0_iff)
  ultimately show ?thesis by simp
qed

text \<open>
  C31. When no environment variable has a value with a dollar sign in it, the substitution of
  environment variables in a state property returns. It fails only on a variable that is not set,
  and the text it returns has no variable reference left.
\<close>

theorem resolveEnvVars_returns:
  assumes "\<And>v val. LookupEnv v = Some val \<Longrightarrow> CHR ''$'' \<notin> set val"
  shows "\<exists>r. resolveEnvVars LookupEnv s = Some r \<and>
    (case r of
       Inl v \<Rightarrow> LookupEnv v = None
     | Inr out \<Rightarrow> (case Index out ''${'' of None \<Rightarrow> True | Some i \<Rightarrow> CHR ''}'' \<notin> set (drop i out)))"
proof (induction "count_list s CHR ''$''" arbitrary: s rule: less_induct)
  case less
  show ?case
  proof (cases "Index s ''${''")
    case None
    then show ?thesis by (subst resolveEnvVars.simps) simp
  next
    case i: (Some i)
    show ?thesis
    proof (cases "Index (drop i s) ''}''")
      case None
      then have "CHR ''}'' \<notin> set (drop i s)" by (simp add: Index_char)
      with i None show ?thesis by (subst resolveEnvVars.simps) simp
    next
      case e: (Some e)
      show ?thesis
      proof (cases "LookupEnv (drop (i + 2) (take (e + i) s))")
        case None
        with i e show ?thesis by (subst resolveEnvVars.simps) (simp add: Let_def)
      next
        case (Some val)
        from less [OF resolve_shrinks [OF i e assms [OF Some]]] i e Some show ?thesis
          by (subst resolveEnvVars.simps) (simp add: Let_def)
      qed
    qed
  qed
qed

definition sample_env :: "string \<Rightarrow> string option" where
  "sample_env v = (if v = ''HOST'' then Some ''db'' else None)"

theorem resolveEnvVars_returns_witness:
  "resolveEnvVars sample_env ''pg://${HOST}/${'' = Some (Inr ''pg://db/${'') \<and>
   (\<exists>r. resolveEnvVars sample_env ''pg://${HOST}/${'' = Some r \<and>
     (case r of
       Inl v \<Rightarrow> sample_env v = None
     | Inr out \<Rightarrow> (case Index out ''${'' of None \<Rightarrow> True | Some i \<Rightarrow> CHR ''}'' \<notin> set (drop i out))))"
proof
  show "resolveEnvVars sample_env ''pg://${HOST}/${'' = Some (Inr ''pg://db/${'')" by code_simp
  show "\<exists>r. resolveEnvVars sample_env ''pg://${HOST}/${'' = Some r \<and>
     (case r of
       Inl v \<Rightarrow> sample_env v = None
     | Inr out \<Rightarrow> (case Index out ''${'' of None \<Rightarrow> True | Some i \<Rightarrow> CHR ''}'' \<notin> set (drop i out)))"
    by (rule resolveEnvVars_returns) (auto simp: sample_env_def split: if_splits)
qed

text \<open>
  C37. The substitution does not return when a variable refers to itself: the value is searched
  again for references, and the reference it holds is replaced by itself forever.
\<close>

theorem resolveEnvVars_self_reference:
  assumes "CHR ''}'' \<notin> set v" "LookupEnv v = Some (''${'' @ v @ ''}'')"
  shows "resolveEnvVars LookupEnv (''${'' @ v @ ''}'') = None"
proof (rule ccontr)
  have brace: "Index (v @ ''}'') ''}'' = Some (length v)"
    using assms(1) by (induction v) (auto simp: HasPrefix_def)
  assume "resolveEnvVars LookupEnv (''${'' @ v @ ''}'') \<noteq> None"
  then obtain y where y: "resolveEnvVars LookupEnv (''${'' @ v @ ''}'') = Some y" by blast
  have "LookupEnv = LookupEnv \<longrightarrow> ''${'' @ v @ ''}'' \<noteq> ''${'' @ v @ ''}''"
  proof (rule resolveEnvVars.raw_induct [where P = "\<lambda>env x y. env = LookupEnv \<longrightarrow> x \<noteq> ''${'' @ v @ ''}''", OF _ y])
    fix f env x y
    assume IH: "\<And>env x y. f env x = Some y \<Longrightarrow> env = LookupEnv \<longrightarrow> x \<noteq> ''${'' @ v @ ''}''"
      and run: "(case Index x ''${'' of None \<Rightarrow> Some (Inr x)
        | Some i \<Rightarrow> (case Index (drop i x) ''}'' of None \<Rightarrow> Some (Inr x)
            | Some e \<Rightarrow> let j = e + i; varName = drop (i + 2) (take j x)
                in case env varName of None \<Rightarrow> Some (Inl varName)
                   | Some val \<Rightarrow> f env (take i x @ val @ drop (j + 1) x))) = Some y"
    show "env = LookupEnv \<longrightarrow> x \<noteq> ''${'' @ v @ ''}''"
    proof (intro impI notI)
      assume "env = LookupEnv" "x = ''${'' @ v @ ''}''"
      with run assms(2) brace have "f LookupEnv (''${'' @ v @ ''}'') = Some y"
        by (simp add: HasPrefix_def Let_def)
      with IH show False by blast
    qed
  qed
  then show False by simp
qed

theorem resolveEnvVars_self_reference_witness:
  "resolveEnvVars (\<lambda>v. Some (''${'' @ v @ ''}'')) ''${A}'' = None"
  using resolveEnvVars_self_reference [of "''A''" "\<lambda>v. Some (''${'' @ v @ ''}'')"] by simp

end
