(* ===== verification/Validate_Names.thy ===== *)
theory Validate_Names
  imports AST Go_Strings Prelude "HOL-Library.List_Lexorder" "HOL-Library.Char_ord"
begin

text \<open>
  Validation errors and the suggestion of a similar name (\<open>suggestName\<close> and \<open>levenshtein\<close> of
  \<open>internal/validate/semantic.go\<close>). The two-row computation of the edit distance is shown to give
  the least number of single-byte edits.
\<close>

subsection \<open>Errors\<close>

text \<open>
  A message of \<open>fmt.Sprintf\<close>, part by part: literal text, a string printed with \<open>%q\<close>, and a number
  printed with a floating-point verb.
\<close>

datatype part = Lit string | Q string | Fmt string float64

record ValidationError =
  ve_File :: string
  ve_Line :: int
  ve_Column :: int
  ve_Message :: "part list"
  ve_Hint :: "part list"

definition posError :: "Pos \<Rightarrow> part list \<Rightarrow> string \<Rightarrow> ValidationError" where
  "posError pos msg hint =
     \<lparr>ve_File = pos_File pos, ve_Line = pos_Line pos, ve_Column = pos_Column pos, ve_Message = msg,
      ve_Hint = (if hint = [] then [] else [Lit hint])\<rparr>"

text \<open>An error reported when a condition holds, and a quoted word of a hint.\<close>

definition error_if :: "bool \<Rightarrow> ValidationError \<Rightarrow> ValidationError list" where
  "error_if c e = (if c then [e] else [])"

definition squote :: "string \<Rightarrow> string" where
  "squote s = [CHR 0x27] @ s @ [CHR 0x27]"

lemma error_if_Nil [simp]: "error_if c e = [] \<longleftrightarrow> \<not> c"
  by (simp add: error_if_def)

subsection \<open>Edit distance\<close>

text \<open>
  The inner loop: \<open>x\<close> is the byte \<open>a[i-1]\<close>, the lists are the rest of \<open>b\<close> and of the previous
  row, and \<open>left\<close> is the cell written last.
\<close>

fun lev_cells :: "char \<Rightarrow> string \<Rightarrow> nat list \<Rightarrow> nat \<Rightarrow> nat list" where
  "lev_cells x (y # ys) (diag # up # ps) left =
     (let cost = (if x = y then 0 else 1);
          cell = min (left + 1) (min (up + 1) (diag + cost))
      in cell # lev_cells x ys (up # ps) cell)"
| "lev_cells x _ _ left = []"

definition lev_row :: "nat \<Rightarrow> char \<Rightarrow> string \<Rightarrow> nat list \<Rightarrow> nat list" where
  "lev_row i x b prev = i # lev_cells x b prev i"

fun lev_rows :: "nat \<Rightarrow> string \<Rightarrow> string \<Rightarrow> nat list \<Rightarrow> nat list" where
  "lev_rows i [] b prev = prev"
| "lev_rows i (x # xs) b prev = lev_rows (Suc i) xs b (lev_row i x b prev)"

definition levenshtein :: "string \<Rightarrow> string \<Rightarrow> nat" where
  "levenshtein a b =
     (if a = [] then length b
      else if b = [] then length a
      else lev_rows 1 a b [0..<Suc (length b)] ! length b)"

text \<open>The recursion that the rows tabulate, over reversed prefixes.\<close>

fun ed :: "string \<Rightarrow> string \<Rightarrow> nat" where
  "ed [] ys = length ys"
| "ed xs [] = length xs"
| "ed (x # xs) (y # ys) =
     min (ed (x # xs) ys + 1) (min (ed xs (y # ys) + 1) (ed xs ys + (if x = y then 0 else 1)))"

lemma ed_Nil2 [simp]: "ed xs [] = length xs"
  by (cases xs) simp_all

lemma lev_cells_ed:
  "lev_cells x ys (map (\<lambda>j. ed p (rev (take j ys) @ q)) [0..<Suc (length ys)]) (ed (x # p) q) =
     map (\<lambda>j. ed (x # p) (rev (take j ys) @ q)) [1..<Suc (length ys)]"
proof (induction ys arbitrary: q)
  case (Cons y ys)
  have upt: "[0..<Suc (length (y # ys))] = 0 # map Suc [0..<Suc (length ys)]"
    "[1..<Suc (length (y # ys))] = 1 # map Suc [1..<Suc (length ys)]"
    by (simp_all add: map_Suc_upt upt_conv_Cons del: upt_Suc)
  have up: "map (\<lambda>j. ed p (rev (take j ys) @ y # q)) [0..<Suc (length ys)] =
      ed p (y # q) # map (\<lambda>j. ed p (rev (take j ys) @ y # q)) [1..<Suc (length ys)]"
    by (simp add: upt_conv_Cons del: upt_Suc)
  have cell: "min (ed (x # p) q + 1) (min (ed p (y # q) + 1) (ed p q + (if x = y then 0 else 1))) = ed (x # p) (y # q)"
    by simp
  show ?case
    unfolding upt using Cons.IH [of "y # q"] cell up
    by (simp add: comp_def Let_def del: upt_Suc ed.simps)
qed simp

lemma lev_row_ed:
  "lev_row (Suc (length p)) x b (map (\<lambda>j. ed p (rev (take j b))) [0..<Suc (length b)]) =
     map (\<lambda>j. ed (x # p) (rev (take j b))) [0..<Suc (length b)]"
proof -
  have "[0..<Suc (length b)] = 0 # [1..<Suc (length b)]" by (simp add: upt_conv_Cons del: upt_Suc)
  with lev_cells_ed [of x b p "[]"] show ?thesis by (simp add: lev_row_def del: upt_Suc)
qed

lemma lev_rows_ed:
  "lev_rows (Suc (length p)) xs b (map (\<lambda>j. ed p (rev (take j b))) [0..<Suc (length b)]) =
     map (\<lambda>j. ed (rev xs @ p) (rev (take j b))) [0..<Suc (length b)]"
proof (induction xs arbitrary: p)
  case (Cons x xs)
  from Cons.IH [of "x # p"] show ?case by (simp add: lev_row_ed del: upt_Suc)
qed simp

lemma levenshtein_ed: "levenshtein a b = ed (rev a) (rev b)"
proof -
  have "[0..<Suc (length b)] = map (\<lambda>j. ed [] (rev (take j b))) [0..<Suc (length b)]"
    by (rule nth_equalityI) (auto simp del: upt_Suc)
  with lev_rows_ed [of "[]" a b] show ?thesis
    by (simp add: levenshtein_def del: upt_Suc)
qed

text \<open>\<open>edits n a b\<close>: \<open>a\<close> becomes \<open>b\<close> when \<open>n\<close> bytes are inserted, deleted or replaced.\<close>

inductive edits :: "nat \<Rightarrow> string \<Rightarrow> string \<Rightarrow> bool" where
  Done: "edits 0 [] []"
| Keep: "edits n xs ys \<Longrightarrow> edits n (x # xs) (x # ys)"
| Replace: "edits n xs ys \<Longrightarrow> edits (Suc n) (x # xs) (y # ys)"
| Insert: "edits n xs ys \<Longrightarrow> edits (Suc n) xs (y # ys)"
| Delete: "edits n xs ys \<Longrightarrow> edits (Suc n) (x # xs) ys"

declare edits.intros [intro]

lemma edits_append: "edits n xs ys \<Longrightarrow> edits m us vs \<Longrightarrow> edits (n + m) (xs @ us) (ys @ vs)"
  by (induction rule: edits.induct) auto

lemma edits_rev: "edits n xs ys \<Longrightarrow> edits n (rev xs) (rev ys)"
proof (induction rule: edits.induct)
  case (Keep n xs ys x)
  from edits_append [OF Keep.IH, of 0 "[x]" "[x]"] show ?case by auto
next
  case (Replace n xs ys x y)
  from edits_append [OF Replace.IH, of 1 "[x]" "[y]"] show ?case by auto
next
  case (Insert n xs ys y)
  from edits_append [OF Insert.IH, of 1 "[]" "[y]"] show ?case by auto
next
  case (Delete n xs ys x)
  from edits_append [OF Delete.IH, of 1 "[x]" "[]"] show ?case by auto
qed auto

lemma edits_rev_iff: "edits n (rev xs) (rev ys) \<longleftrightarrow> edits n xs ys"
  using edits_rev [of n xs ys] edits_rev [of n "rev xs" "rev ys"] by auto

lemma edits_ed: "edits (ed xs ys) xs ys"
proof (induction xs ys rule: ed.induct)
  case (1 ys)
  show ?case by (induction ys) auto
next
  case (2 x xs)
  have "edits (length zs) zs []" for zs by (induction zs) auto
  from this [of "x # xs"] show ?case by simp
next
  case (3 x xs y ys)
  have "edits (Suc (ed (x # xs) ys)) (x # xs) (y # ys)" "edits (Suc (ed xs (y # ys))) (x # xs) (y # ys)"
    "edits (ed xs ys + (if x = y then 0 else 1)) (x # xs) (y # ys)"
    using 3 by auto
  then show ?case by (simp add: min_def)
qed

lemma ed_keep: "ed (x # xs) (x # ys) \<le> ed xs ys"
  by (simp add: min.coboundedI2)

lemma ed_replace: "ed (x # xs) (y # ys) \<le> Suc (ed xs ys)"
  by (simp add: min.coboundedI2)

lemma ed_insert: "ed xs (y # ys) \<le> Suc (ed xs ys)"
  by (cases xs) (simp_all add: min.coboundedI1)

lemma ed_delete: "ed (x # xs) ys \<le> Suc (ed xs ys)"
  by (cases ys) (simp_all add: min.coboundedI1 min.coboundedI2)

lemma ed_least: "edits n xs ys \<Longrightarrow> ed xs ys \<le> n"
  by (induction rule: edits.induct) (auto intro: le_trans [OF ed_keep] le_trans [OF ed_replace]
    le_trans [OF ed_insert] le_trans [OF ed_delete] simp del: ed.simps(3))

text \<open>
  C33. The distance computed with two rows of counters is the edit distance: one string can be
  turned into the other by so many insertions, deletions and replacements of single bytes, and
  by no smaller number.
\<close>

theorem levenshtein_least:
  "edits (levenshtein a b) a b \<and> (\<forall>n. edits n a b \<longrightarrow> levenshtein a b \<le> n)"
  using edits_ed [of "rev a" "rev b"] ed_least [of _ "rev a" "rev b"]
  by (auto simp: levenshtein_ed edits_rev_iff)

theorem levenshtein_least_witness:
  "levenshtein ''agnet'' ''agent'' = 2 \<and> edits 3 ''agnet'' ''agent'' \<and> levenshtein ''agnet'' ''agent'' \<le> 3"
proof -
  have "edits 3 ''agnet'' ''agent''" unfolding numeral_3_eq_3 by (intro edits.intros)
  moreover have "levenshtein ''agnet'' ''agent'' = 2" by code_simp
  ultimately show ?thesis using levenshtein_least [of "''agnet''" "''agent''"] by blast
qed

subsection \<open>Suggestions\<close>

fun closest :: "string \<Rightarrow> string list \<Rightarrow> string \<Rightarrow> nat \<Rightarrow> string" where
  "closest name [] best bestDist = best"
| "closest name (n # ns) best bestDist =
     (let d = levenshtein name n
      in if d < bestDist then closest name ns n d else closest name ns best bestDist)"

text \<open>The names come from a map, but are sorted, so the order of its keys does not matter.\<close>

definition suggestName :: "string \<Rightarrow> (string, bool) gomap \<Rightarrow> part list" where
  "suggestName name available =
     (if available = [] then []
      else let names = sort (mkeys available);
               best = closest name names [] (length name div 2 + 1)
           in if best \<noteq> [] then [Lit ''did you mean '', Q best, Lit ''?'']
              else [Lit (''available: '' @ Join names '', '')])"

end
