(* ===== verification/Validate_Semantic.thy ===== *)
theory Validate_Semantic
  imports Validate_Names
begin

text \<open>
  Semantic validation (\<open>internal/validate/semantic.go\<close>) and the validation of environment
  overrides (\<open>internal/validate/environment.go\<close>).
\<close>

subsection \<open>Declared names\<close>

type_synonym names = "(string, (string, bool) gomap) gomap"

definition no_names :: names where
  "no_names = map (\<lambda>k. (k, [])) [''Agent'', ''Prompt'', ''Skill'', ''MCPServer'', ''MCPClient'', ''Secret'',
     ''Environment'', ''Policy'', ''Binding'', ''DeployTarget'', ''Type'', ''Pipeline'', ''User'', ''Guardrail'']"

definition add_name :: "string \<Rightarrow> string \<Rightarrow> names \<Rightarrow> names" where
  "add_name kind name names = mput kind (mput name True (mget0 [] names kind)) names"

definition collect_name :: "Statement \<Rightarrow> names \<Rightarrow> names" where
  "collect_name stmt names =
     (case stmt of
        StmtAgent s \<Rightarrow> add_name ''Agent'' (ag_Name s) names
      | StmtPrompt s \<Rightarrow> add_name ''Prompt'' (pr_Name s) names
      | StmtSkill s \<Rightarrow> add_name ''Skill'' (sk_Name s) names
      | StmtMCPServer s \<Rightarrow> add_name ''MCPServer'' (srv_Name s) names
      | StmtMCPClient s \<Rightarrow> add_name ''MCPClient'' (cli_Name s) names
      | StmtSecret s \<Rightarrow> add_name ''Secret'' (sec_Name s) names
      | StmtEnvironment s \<Rightarrow> add_name ''Environment'' (env_Name s) names
      | StmtPolicy s \<Rightarrow> add_name ''Policy'' (apl_Name s) names
      | StmtBinding s \<Rightarrow> add_name ''Binding'' (abd_Name s) names
      | StmtDeployTarget s \<Rightarrow> add_name ''DeployTarget'' (adt_Name s) names
      | StmtTypeDef s \<Rightarrow> add_name ''Type'' (td_Name s) names
      | StmtPipeline s \<Rightarrow> add_name ''Pipeline'' (pl_Name s) names
      | StmtUser s \<Rightarrow> add_name ''User'' (usr_Name s) names
      | StmtGuardrail s \<Rightarrow> add_name ''Guardrail'' (gr_Name s) names
      | _ \<Rightarrow> names)"

definition collectNames :: "File \<Rightarrow> names" where
  "collectNames f = fold collect_name (file_Statements f) no_names"

definition has_name :: "names \<Rightarrow> string \<Rightarrow> string \<Rightarrow> bool" where
  "has_name names kind name = mget0 False (mget0 [] names kind) name"

text \<open>The check every reference goes through: an error with a suggestion when the name is not declared.\<close>

definition check_ref :: "names \<Rightarrow> string \<Rightarrow> string \<Rightarrow> Pos \<Rightarrow> part list \<Rightarrow> ValidationError list" where
  "check_ref names kind name pos msg =
     error_if (\<not> has_name names kind name)
       ((posError pos msg [])\<lparr>ve_Hint := suggestName name (mget0 [] names kind)\<rparr>)"

lemma check_ref_Nil [simp]: "check_ref names kind name pos msg = [] \<longleftrightarrow> has_name names kind name"
  by (simp add: check_ref_def)

subsection \<open>References of on-input statements\<close>

fun on_input_refs :: "names \<Rightarrow> OnInputStmt \<Rightarrow> ValidationError list"
  and else_if_refs :: "names \<Rightarrow> ElseIfClause \<Rightarrow> ValidationError list" where
  "on_input_refs names (UseSkillStmt skill _ pos _) =
     check_ref names ''Skill'' skill pos [Lit ''skill '', Q skill, Lit '' not found'']"
| "on_input_refs names (DelegateToStmt agent pos _) =
     check_ref names ''Agent'' agent pos [Lit ''delegate agent '', Q agent, Lit '' not found'']"
| "on_input_refs names (RespondStmt _ _ _) = []"
| "on_input_refs names (IfBlock _ body elseIfs elseBody _ _) =
     concat (map (on_input_refs names) body) @ concat (map (else_if_refs names) elseIfs) @
     concat (map (on_input_refs names) elseBody)"
| "on_input_refs names (ForEachBlock _ _ body _ _) = concat (map (on_input_refs names) body)"
| "else_if_refs names (ElseIfClause _ body _ _) = concat (map (on_input_refs names) body)"

definition validateOnInputRefs :: "OnInputStmt list \<Rightarrow> names \<Rightarrow> ValidationError list" where
  "validateOnInputRefs stmts names = concat (map (on_input_refs names) stmts)"

subsection \<open>Statements\<close>

definition semantic_agent :: "names \<Rightarrow> Agent \<Rightarrow> ValidationError list" where
  "semantic_agent names s =
     (case ag_Prompt s of None \<Rightarrow> []
      | Some r \<Rightarrow> check_ref names ''Prompt'' (ref_Name r) (ref_StartPos r) [Lit ''prompt '', Q (ref_Name r), Lit '' not found'']) @
     concat (map (\<lambda>r. check_ref names ''Skill'' (ref_Name r) (ref_StartPos r)
       [Lit ''skill '', Q (ref_Name r), Lit '' not found'']) (ag_Skills s)) @
     (case ag_Client s of None \<Rightarrow> []
      | Some r \<Rightarrow> check_ref names ''MCPClient'' (ref_Name r) (ref_StartPos r) [Lit ''client '', Q (ref_Name r), Lit '' not found'']) @
     (if ag_Fallback s \<noteq> [] then
        check_ref names ''Agent'' (ag_Fallback s) (ag_StartPos s) [Lit ''fallback agent '', Q (ag_Fallback s), Lit '' not found''] @
        error_if (ag_Fallback s = ag_Name s)
          (posError (ag_StartPos s) [Lit ''agent '', Q (ag_Name s), Lit '' cannot fallback to itself''] [])
      else []) @
     concat (map (\<lambda>d. check_ref names ''Agent'' (del_AgentRef d) (del_StartPos d)
       [Lit ''delegate agent '', Q (del_AgentRef d), Lit '' not found'']) (ag_Delegates s)) @
     (case ag_OnInput s of None \<Rightarrow> [] | Some b \<Rightarrow> validateOnInputRefs (oib_Statements b) names) @
     concat (map (\<lambda>g. check_ref names ''Guardrail'' g (ag_StartPos s)
       [Lit ''guardrail '', Q g, Lit '' not found'']) (ag_GuardrailRefs s))"

definition semantic_skill :: "names \<Rightarrow> Skill \<Rightarrow> ValidationError list" where
  "semantic_skill names s =
     (case sk_ToolConfig s of None \<Rightarrow> []
      | Some t \<Rightarrow>
          if tc_Type t = ''mcp'' \<and> tc_ServerTool t \<noteq> [] then
            (case SplitN CHR ''/'' 2 (tc_ServerTool t) of
               [serverName, _] \<Rightarrow>
                 check_ref names ''MCPServer'' serverName (tc_StartPos t)
                   [Lit ''MCP server '', Q serverName, Lit '' not found in tool reference '', Q (tc_ServerTool t)]
             | _ \<Rightarrow> [])
          else [])"

definition semantic_client :: "names \<Rightarrow> MCPClient \<Rightarrow> ValidationError list" where
  "semantic_client names s =
     concat (map (\<lambda>r. check_ref names ''MCPServer'' (ref_Name r) (ref_StartPos r)
       [Lit ''server '', Q (ref_Name r), Lit '' not found'']) (cli_Servers s))"

definition semantic_pipeline :: "names \<Rightarrow> Pipeline \<Rightarrow> ValidationError list" where
  "semantic_pipeline names s =
     concat (map (\<lambda>st. if pst_Agent st \<noteq> [] then
         check_ref names ''Agent'' (pst_Agent st) (pst_StartPos st)
           [Lit ''step '', Q (pst_Name st), Lit '' references unknown agent '', Q (pst_Agent st)]
       else []) (pl_Steps s))"

text \<open>The variables referenced in the content of a prompt, by the position of their braces.\<close>

definition variable_at :: "string \<Rightarrow> nat \<Rightarrow> string option" where
  "variable_at content i =
     (if content ! i = CHR ''{'' \<and> content ! (i + 1) = CHR ''{'' then
        (case Index (drop (i + 2) content) ''}}'' of
           None \<Rightarrow> None
         | Some e \<Rightarrow> Some (TrimSpace (take e (drop (i + 2) content))))
      else None)"

definition semantic_prompt :: "Prompt \<Rightarrow> ValidationError list" where
  "semantic_prompt s =
     (if pr_Variables s \<noteq> [] then
        concat (map (\<lambda>i.
          case variable_at (pr_Content s) i of
            None \<Rightarrow> []
          | Some v \<Rightarrow>
              error_if (v \<notin> set (map var_Name (pr_Variables s)))
                (posError (pr_StartPos s)
                  [Lit ''prompt '', Q (pr_Name s), Lit ('' references undeclared variable {{'' @ v @ ''}}'')]
                  ''add variable declaration in the variables block''))
          [0..<length (pr_Content s) - 3])
      else [])"

definition semantic_server :: "names \<Rightarrow> MCPServer \<Rightarrow> ValidationError list" where
  "semantic_server names s =
     concat (map (\<lambda>r. check_ref names ''Skill'' (ref_Name r) (ref_StartPos r)
       [Lit ''skill '', Q (ref_Name r), Lit '' not found'']) (srv_Skills s)) @
     (case srv_Auth s of None \<Rightarrow> []
      | Some r \<Rightarrow> check_ref names ''Secret'' (ref_Name r) (ref_StartPos r) [Lit ''secret '', Q (ref_Name r), Lit '' not found''])"

definition semantic_user :: "names \<Rightarrow> User \<Rightarrow> ValidationError list" where
  "semantic_user names s =
     concat (map (\<lambda>a. check_ref names ''Agent'' a (usr_StartPos s)
       [Lit ''user '', Q (usr_Name s), Lit '' references unknown agent '', Q a]) (usr_Agents s))"

definition semantic_statement :: "names \<Rightarrow> Statement \<Rightarrow> ValidationError list" where
  "semantic_statement names stmt =
     (case stmt of
        StmtAgent s \<Rightarrow> semantic_agent names s
      | StmtSkill s \<Rightarrow> semantic_skill names s
      | StmtMCPClient s \<Rightarrow> semantic_client names s
      | StmtPipeline s \<Rightarrow> semantic_pipeline names s
      | StmtPrompt s \<Rightarrow> semantic_prompt s
      | StmtMCPServer s \<Rightarrow> semantic_server names s
      | StmtUser s \<Rightarrow> semantic_user names s
      | _ \<Rightarrow> [])"

definition default_bindings :: "Statement list \<Rightarrow> nat" where
  "default_bindings stmts =
     length (filter (\<lambda>st. case st of StmtBinding b \<Rightarrow> abd_Default b | _ \<Rightarrow> False) stmts)"

definition default_deploys :: "Statement list \<Rightarrow> nat" where
  "default_deploys stmts =
     length (filter (\<lambda>st. case st of StmtDeployTarget d \<Rightarrow> adt_Default d | _ \<Rightarrow> False) stmts)"

definition file_error :: "File \<Rightarrow> string \<Rightarrow> string \<Rightarrow> ValidationError" where
  "file_error f msg hint =
     \<lparr>ve_File = file_Path f, ve_Line = 1, ve_Column = 1, ve_Message = [Lit msg], ve_Hint = [Lit hint]\<rparr>"

definition ValidateSemantic :: "File \<Rightarrow> ValidationError list" where
  "ValidateSemantic f =
     concat (map (semantic_statement (collectNames f)) (file_Statements f)) @
     error_if (default_bindings (file_Statements f) > 1)
       (file_error f ''multiple bindings marked as default'' ''only one binding may be the default'') @
     error_if (default_deploys (file_Statements f) > 1)
       (file_error f ''multiple deploy targets marked as default'' ''only one deploy target may be the default'')"

subsection \<open>Environment overrides\<close>

definition override_names :: "Statement list \<Rightarrow> string list" where
  "override_names stmts =
     concat (map (\<lambda>st. case st of
          StmtAgent s \<Rightarrow> [''agent/'' @ ag_Name s]
        | StmtPrompt s \<Rightarrow> [''prompt/'' @ pr_Name s]
        | StmtSkill s \<Rightarrow> [''skill/'' @ sk_Name s]
        | StmtMCPServer s \<Rightarrow> [''server/'' @ srv_Name s]
        | StmtMCPClient s \<Rightarrow> [''client/'' @ cli_Name s]
        | StmtSecret s \<Rightarrow> [''secret/'' @ sec_Name s]
        | _ \<Rightarrow> []) stmts)"

fun validate_overrides :: "string list \<Rightarrow> string \<Rightarrow> string list \<Rightarrow> Override list \<Rightarrow> ValidationError list" where
  "validate_overrides resourceNames env seen [] = []"
| "validate_overrides resourceNames env seen (ov # ovs) =
     (let key = ovr_Resource ov @ ''.'' @ ovr_Attribute ov in
      error_if (key \<in> set seen)
        (posError (ovr_StartPos ov)
          [Lit ''conflicting override in environment '', Q env,
           Lit ('': '' @ ovr_Resource ov @ ''.'' @ ovr_Attribute ov @ '' set multiple times'')]
          ''each attribute may only be overridden once per environment'') @
      error_if (ovr_Resource ov \<notin> set resourceNames)
        (posError (ovr_StartPos ov)
          [Lit ''environment '', Q env, Lit '': override target '', Q (ovr_Resource ov), Lit '' not found'']
          ''check the resource kind and name'') @
      validate_overrides resourceNames env (key # seen) ovs)"

definition ValidateEnvironments :: "File \<Rightarrow> ValidationError list" where
  "ValidateEnvironments f =
     concat (map (\<lambda>st. case st of
          StmtEnvironment e \<Rightarrow>
            validate_overrides (override_names (file_Statements f)) (env_Name e) [] (env_Overrides e)
        | _ \<Rightarrow> []) (file_Statements f))"

subsection \<open>Facts\<close>

lemma has_name_add [simp]:
  "has_name (add_name k n names) kind name \<longleftrightarrow> (kind, name) = (k, n) \<or> has_name names kind name"
  by (auto simp: has_name_def add_name_def)

lemma has_no_names [simp]: "\<not> has_name no_names kind name"
  by (auto simp: has_name_def no_names_def mget0_def)

end
