(* ===== verification/Frontend.thy ===== *)
theory Frontend
  imports Parser_Files Lower Validate_Semantic Plan
begin

text \<open>
  The front end as a whole: what parsing and validation guarantee for the document that lowering
  produces and for the plan computed from it. Resources have distinct names and every reference
  between them resolves.
\<close>

subsection \<open>Identities\<close>

definition resource_kinds :: "string list" where
  "resource_kinds = [''Prompt'', ''Skill'', ''Agent'', ''MCPServer'', ''MCPClient'', ''Secret'', ''Environment'',
     ''Type'', ''Pipeline'', ''User'', ''Guardrail'']"

lemma lowered_identity:
  assumes "r \<in> set (lowered CH pkg st)"
  shows "declared_name st = [(res_Kind r, res_Name r)]" "res_FQN r = fqn pkg (res_Kind r) (res_Name r)"
    "res_Hash r = CH (res_Attributes r)" "res_Kind r \<in> set resource_kinds"
  using assms
  by (cases st; simp add: lowered_def declared_name_def lower_resource_defs resource_kinds_def Let_def)+

lemma lowered_length: "length (lowered CH pkg st) \<le> 1"
  by (cases st) (simp_all add: lowered_def)

lemma fqn_inject:
  assumes "fqn pkg k n = fqn pkg k' n'" "CHR ''/'' \<notin> set k" "CHR ''/'' \<notin> set k'"
  shows "k = k' \<and> n = n'"
proof -
  have "takeWhile (\<lambda>c. c \<noteq> CHR ''/'') (k @ ''/'' @ n) = k" "takeWhile (\<lambda>c. c \<noteq> CHR ''/'') (k' @ ''/'' @ n') = k'"
    using assms(2,3) by (auto simp: takeWhile_append)
  with assms(1) show ?thesis by (auto simp: fqn_def)
qed

lemma kinds_no_slash: "k \<in> set resource_kinds \<Longrightarrow> CHR ''/'' \<notin> set k"
  by (auto simp: resource_kinds_def)

lemma lowered_pairs:
  "map (\<lambda>r. (res_Kind r, res_Name r)) (lowered CH pkg st) =
     filter (\<lambda>(k, _). k \<in> set resource_kinds) (declared_name st)"
  by (cases st) (simp_all add: lowered_def declared_name_def lower_resource_defs resource_kinds_def Let_def)

lemma lowered_all_pairs:
  "map (\<lambda>r. (res_Kind r, res_Name r)) (concat (map (lowered CH pkg) sts)) =
     filter (\<lambda>(k, _). k \<in> set resource_kinds) (declared_names sts)"
  by (induction sts) (simp_all add: declared_names_def lowered_pairs)

lemma SortResources_map: "distinct (map key (SortResources rs)) \<longleftrightarrow> distinct (map key rs)"
proof -
  have "mset (map key (SortResources rs)) = mset (map key rs)"
    unfolding SortResources_def mset_map by simp
  then show ?thesis by (rule mset_eq_imp_distinct_iff)
qed

lemma set_SortResources [simp]: "set (SortResources rs) = set rs"
  by (simp add: SortResources_def)

lemma lowered_kinds: "r \<in> set (concat (map (lowered CH pkg) sts)) \<Longrightarrow>
    res_FQN r = fqn pkg (res_Kind r) (res_Name r) \<and> res_Hash r = CH (res_Attributes r) \<and> res_Kind r \<in> set resource_kinds"
  using lowered_identity by fastforce

lemma distinct_FQNs:
  assumes "distinct (declared_names sts)"
  shows "distinct (map res_FQN (concat (map (lowered CH pkg) sts)))"
proof -
  let ?rs = "concat (map (lowered CH pkg) sts)"
  have pairs: "distinct (map (\<lambda>r. (res_Kind r, res_Name r)) ?rs)"
    unfolding lowered_all_pairs using assms by (rule distinct_filter)
  have eq: "map res_FQN ?rs = map (\<lambda>(k, n). fqn pkg k n) (map (\<lambda>r. (res_Kind r, res_Name r)) ?rs)"
    using lowered_kinds [of _ CH pkg sts] by (auto simp del: set_concat)
  have "inj_on (\<lambda>(k, n). fqn pkg k n) (set (map (\<lambda>r. (res_Kind r, res_Name r)) ?rs))"
  proof (rule inj_onI, clarify)
    fix k n k' n'
    assume "(k, n) \<in> set (map (\<lambda>r. (res_Kind r, res_Name r)) ?rs)"
      "(k', n') \<in> set (map (\<lambda>r. (res_Kind r, res_Name r)) ?rs)" and eq: "fqn pkg k n = fqn pkg k' n'"
    then have "k \<in> set resource_kinds" "k' \<in> set resource_kinds"
      using lowered_kinds [of _ CH pkg sts] by (auto simp del: set_concat)
    then show "k = k' \<and> n = n'" using fqn_inject [OF eq] kinds_no_slash by blast
  qed
  with pairs show ?thesis unfolding eq by (simp add: distinct_map del: set_map set_concat map_map)
qed

lemma plan_has_action:
  assumes "r \<in> set desired"
  shows "\<exists>a \<in> set (plan_Actions (ComputePlan desired cur)). act_FQN a = res_FQN r \<and> act_Resource a = Some r"
  using assms unfolding set_plan_Actions unsorted_actions_def
  by (intro bexI [of _ "fst (plan_desired (index_by ent_FQN [] cur) r)"]) simp_all

lemma first_plan:
  "map act_FQN (plan_Actions (ComputePlan desired [])) = sort (map res_FQN desired)"
  "\<forall>a \<in> set (plan_Actions (ComputePlan desired [])). act_Type a = ActionCreate"
proof -
  let ?as = "plan_Actions (ComputePlan desired [])"
  have "sorted (map act_FQN ?as)" "mset (map act_FQN ?as) = mset (map res_FQN desired)"
    by (simp_all add: plan_Actions_eq unsorted_actions_def multiset.map_comp comp_def)
  then show "map act_FQN ?as = sort (map res_FQN desired)" by (metis properties_for_sort)
  show "\<forall>a \<in> set ?as. act_Type a = ActionCreate"
    by (auto simp: set_plan_Actions unsorted_actions_def plan_desired_def)
qed

text \<open>
  C9. The document lowered from a file that parsed without errors has resources with distinct
  fully qualified names, sorted by kind and name, each with the hash of its own attributes. So a
  plan computed from it, against any stored entries of distinct names, has exactly one action
  for each resource, which carries it; and the first plan, against an empty state, creates each
  resource and does nothing else.
\<close>

theorem Parse_Lower_identities:
  assumes "Parse IsLetter IsDigit input fil = Some (Some f, [])"
    and "Lower ComputeHash LookupEnv rng f = Some (Inr doc)"
  shows "distinct (map res_FQN (doc_Resources doc)) \<and>
    sorted (map (\<lambda>r. (res_Kind r, res_Name r)) (doc_Resources doc)) \<and>
    (\<forall>r \<in> set (doc_Resources doc). res_Hash r = ComputeHash (res_Attributes r)) \<and>
    (\<forall>cur. distinct (map ent_FQN cur) \<longrightarrow>
       distinct (map act_FQN (plan_Actions (ComputePlan (doc_Resources doc) cur))) \<and>
       (\<forall>r \<in> set (doc_Resources doc). \<exists>a \<in> set (plan_Actions (ComputePlan (doc_Resources doc) cur)).
          act_FQN a = res_FQN r \<and> act_Resource a = Some r)) \<and>
    map act_FQN (plan_Actions (ComputePlan (doc_Resources doc) [])) = sort (map res_FQN (doc_Resources doc)) \<and>
    (\<forall>a \<in> set (plan_Actions (ComputePlan (doc_Resources doc) [])). act_Type a = ActionCreate)"
proof -
  from Lower_resources [OF assms(2)] obtain pkg :: ast_Package where
    rs: "doc_Resources doc = SortResources (concat (map (lowered ComputeHash (apk_Name pkg)) (file_Statements f)))"
    by blast
  have "distinct (declared_names (file_Statements f))" by (rule Parse_declares_once [OF assms(1)])
  then have dist: "distinct (map res_FQN (doc_Resources doc))"
    unfolding rs SortResources_map by (rule distinct_FQNs)
  moreover have "sorted (map (\<lambda>r. (res_Kind r, res_Name r)) (doc_Resources doc))"
    unfolding rs SortResources_def by simp
  moreover have "\<forall>r \<in> set (doc_Resources doc). res_Hash r = ComputeHash (res_Attributes r)"
    unfolding rs set_SortResources using lowered_kinds by blast
  moreover have "distinct (map act_FQN (plan_Actions (ComputePlan (doc_Resources doc) cur)))"
    if "distinct (map ent_FQN cur)" for cur by (rule distinct_plan_Actions [OF dist that])
  ultimately show ?thesis using plan_has_action first_plan by (intro conjI) blast+
qed

subsection \<open>References\<close>

lemma has_collected: "has_name (fold collect_name sts names) kind name \<longleftrightarrow>
    (kind, name) \<in> set (declared_names sts) \<or> has_name names kind name"
proof (induction sts arbitrary: names)
  case (Cons st sts)
  have "has_name (collect_name st names) kind name \<longleftrightarrow> (kind, name) \<in> set (declared_name st) \<or> has_name names kind name"
    by (cases st) (auto simp: collect_name_def declared_name_def)
  with Cons.IH show ?case by (auto simp: declared_names_def)
qed (simp add: declared_names_def)

lemma collected_resource:
  assumes "has_name (collectNames f) kind name" "kind \<in> set resource_kinds"
  shows "\<exists>r \<in> set (concat (map (lowered CH pkg) (file_Statements f))). res_FQN r = fqn pkg kind name"
proof -
  have "(kind, name) \<in> set (filter (\<lambda>(k, _). k \<in> set resource_kinds) (declared_names (file_Statements f)))"
    using assms by (simp add: collectNames_def has_collected)
  then have "(kind, name) \<in> set (map (\<lambda>r. (res_Kind r, res_Name r)) (concat (map (lowered CH pkg) (file_Statements f))))"
    unfolding lowered_all_pairs .
  with lowered_kinds [of _ CH pkg "file_Statements f"] show ?thesis by (fastforce simp del: set_concat)
qed

text \<open>Every reference of a lowered resource was checked by the validation of its statement.\<close>

definition resolves :: "names \<Rightarrow> string \<Rightarrow> string \<Rightarrow> bool" where
  "resolves names pkg ref \<longleftrightarrow> (\<exists>kind \<in> set resource_kinds. \<exists>name. ref = fqn pkg kind name \<and> has_name names kind name)"

lemma resolvesI: "has_name names kind name \<Longrightarrow> kind \<in> set resource_kinds \<Longrightarrow> resolves names pkg (fqn pkg kind name)"
  by (auto simp: resolves_def)

lemma agent_refs_resolve: "semantic_agent names s = [] \<Longrightarrow> list_all (resolves names pkg) (agent_refs pkg s)"
  by (auto simp: semantic_agent_def agent_refs_def opt_list_def list_all_iff resource_kinds_def
    intro!: resolvesI split: option.splits if_splits)

lemma concat_map_Nil: "concat (map f xs) = [] \<longleftrightarrow> (\<forall>x \<in> set xs. f x = [])"
  by simp

lemma pipeline_refs_resolve:
  "semantic_pipeline names s = [] \<Longrightarrow> st \<in> set (pl_Steps s) \<Longrightarrow> pst_Agent st \<noteq> [] \<Longrightarrow>
     has_name names ''Agent'' (pst_Agent st)"
  unfolding semantic_pipeline_def concat_map_Nil by (metis check_ref_Nil)

lemma lowered_refs_resolve:
  assumes "semantic_statement names st = []" "r \<in> set (lowered CH pkg st)"
  shows "list_all (resolves names pkg) (res_References r)"
  using assms agent_refs_resolve [of names _ pkg]
  by (cases st)
    (auto simp: semantic_statement_def lowered_def lower_resource_defs Let_def semantic_server_def semantic_client_def
      opt_list_def list_all_iff resource_kinds_def intro!: resolvesI dest: pipeline_refs_resolve
      split: option.splits if_splits)

text \<open>
  C18. A file that passes semantic validation is lowered to a document in which every reference
  is the name of a resource of the document: agents refer to existing prompts, skills, clients,
  agents and guardrails, servers to secrets and skills, clients to servers and pipelines to
  agents.
\<close>

theorem Lower_references_resolve:
  assumes "ValidateSemantic f = []" "Lower ComputeHash LookupEnv rng f = Some (Inr doc)"
  shows "\<forall>r \<in> set (doc_Resources doc). \<forall>ref \<in> set (res_References r).
    \<exists>r' \<in> set (doc_Resources doc). res_FQN r' = ref"
proof (intro ballI)
  fix r ref
  assume r: "r \<in> set (doc_Resources doc)" and ref: "ref \<in> set (res_References r)"
  from Lower_resources [OF assms(2)] obtain pkg :: ast_Package where
    rs: "doc_Resources doc = SortResources (concat (map (lowered ComputeHash (apk_Name pkg)) (file_Statements f)))"
    by blast
  from r rs obtain st where st: "st \<in> set (file_Statements f)" "r \<in> set (lowered ComputeHash (apk_Name pkg) st)"
    by auto
  have "semantic_statement (collectNames f) st = []"
    using assms(1) st(1) by (simp add: ValidateSemantic_def)
  from lowered_refs_resolve [OF this st(2)] ref have "resolves (collectNames f) (apk_Name pkg) ref"
    by (simp add: list_all_iff)
  then show "\<exists>r' \<in> set (doc_Resources doc). res_FQN r' = ref"
    unfolding resolves_def rs set_SortResources using collected_resource by blast
qed

subsection \<open>Overrides of servers and clients\<close>

text \<open>
  What is used of \<open>strings.EqualFold\<close>: strings that begin with ASCII characters are equal under case
  folding only if these are the same letter up to case and the rests are equal under case folding.
\<close>

definition ascii_lower :: "char \<Rightarrow> nat" where
  "ascii_lower c = (let b = of_char c in if 65 \<le> b \<and> b \<le> 90 then b + 32 else b)"

definition fold_law :: "(string \<Rightarrow> string \<Rightarrow> bool) \<Rightarrow> bool" where
  "fold_law EqualFold \<longleftrightarrow>
     (\<forall>c d s t. of_char c < (128 :: nat) \<and> of_char d < (128 :: nat) \<and> EqualFold (c # s) (d # t) \<longrightarrow>
        ascii_lower c = ascii_lower d \<and> EqualFold s t)"

lemma fold_lawD:
  "EqualFold (c # s) (d # t) \<Longrightarrow> fold_law EqualFold \<Longrightarrow> of_char c < (128 :: nat) \<Longrightarrow> of_char d < (128 :: nat) \<Longrightarrow>
     ascii_lower c = ascii_lower d \<and> EqualFold s t"
  unfolding fold_law_def by blast

definition server_ref :: "string \<Rightarrow> bool" where
  "server_ref ref \<longleftrightarrow> (\<exists>n. ref = ''server/'' @ n \<or> ref = ''client/'' @ n)"

lemma no_such_key:
  assumes "fold_law EqualFold" "res_Kind r \<in> set resource_kinds" "server_ref ref"
  shows "\<not> (resourceKey r = ref \<or> EqualFold (resourceKey r) ref)"
  using assms(2,3) unfolding resourceKey_def server_ref_def resource_kinds_def
  by (auto simp: ascii_lower_def dest!: fold_lawD [OF _ assms(1)])

lemma override_first_None: "\<forall>r \<in> set rs. \<not> hit r \<Longrightarrow> override_first hit upd rs = None"
  by (induction rs) auto

lemma override_first_kinds:
  assumes "override_first hit upd rs = Some rs'" "\<And>r. res_Kind (upd r) = res_Kind r"
  shows "map res_Kind rs' = map res_Kind rs"
  using assms(1)
proof (induction rs arbitrary: rs')
  case (Cons r rs)
  then show ?case by (cases "hit r") (auto simp: assms(2))
qed simp

lemma apply_overrides_server:
  assumes law: "fold_law EqualFold" and "ov \<in> set ovs" "server_ref (ovr_Resource ov)" "ovr_Attribute ov \<noteq> []"
    and "res_Kind ` set rs \<subseteq> set resource_kinds"
  shows "\<exists>e. apply_overrides CH EqualFold env (map lower_override ovs) rs = Inl e"
  using assms(2,5)
proof (induction ovs arbitrary: rs)
  case (Cons o1 ovs)
  let ?hit = "\<lambda>r. resourceKey r = ovr_Resource o1 \<or> EqualFold (resourceKey r) (ovr_Resource o1)"
  let ?upd = "set_attribute CH (ovr_Attribute o1) (ovr_Value o1)"
  have at: "mget [(''resource'', IString (ovr_Resource o1)), (''attribute'', IString (ovr_Attribute o1)),
      (''value'', IString (ovr_Value o1))] = (\<lambda>k. if k = ''resource'' then Some (IString (ovr_Resource o1))
      else if k = ''attribute'' then Some (IString (ovr_Attribute o1)) else if k = ''value'' then Some (IString (ovr_Value o1))
      else None)" by (rule ext) simp
  show ?case
  proof (cases "ovr_Resource o1 = [] \<or> ovr_Attribute o1 = []")
    case True
    then have "o1 \<noteq> ov" using assms(3,4) by (auto simp: server_ref_def)
    with Cons True show ?thesis by (simp add: lower_override_def at as_string_def Let_def)
  next
    case False
    show ?thesis
    proof (cases "override_first ?hit ?upd rs")
      case None
      with False show ?thesis by (simp add: lower_override_def at as_string_def Let_def)
    next
      case (Some rs')
      have "o1 \<noteq> ov"
      proof
        assume "o1 = ov"
        then have "\<forall>r \<in> set rs. \<not> ?hit r" using no_such_key [OF law _ assms(3)] Cons.prems(2) by blast
        with Some override_first_None show False by fastforce
      qed
      moreover have "res_Kind ` set rs' \<subseteq> set resource_kinds"
        using arg_cong [OF override_first_kinds [OF Some], of set] Cons.prems(2)
        by (simp add: set_attribute_def Let_def)
      ultimately show ?thesis using Cons False Some by (simp add: lower_override_def at as_string_def Let_def)
    qed
  qed
qed simp

lemma lowered_environment:
  assumes "distinct (declared_names sts)" "StmtEnvironment e \<in> set sts"
    "r \<in> set (concat (map (lowered CH pkg) sts))" "res_Kind r = ''Environment''" "res_Name r = env_Name e"
  shows "r = lower_environment CH pkg e"
proof -
  let ?rs = "concat (map (lowered CH pkg) sts)"
  have e: "lower_environment CH pkg e \<in> set ?rs"
    using assms(2) by (auto simp: lowered_def intro!: bexI [of _ "StmtEnvironment e"])
  have "distinct (map (\<lambda>r. (res_Kind r, res_Name r)) ?rs)"
    unfolding lowered_all_pairs using assms(1) by (rule distinct_filter)
  then have inj: "inj_on (\<lambda>r. (res_Kind r, res_Name r)) (set ?rs)" by (simp only: distinct_map)
  show ?thesis by (rule inj_onD [OF inj _ assms(3) e]) (simp add: assms(4,5) lower_environment_def)
qed

text \<open>
  C29. An environment that overrides an attribute of an MCP server or client can never be
  applied to the document its file is lowered to. The parser and the validation write the kinds
  as \<open>server\<close> and \<open>client\<close>, the document as \<open>MCPServer\<close> and \<open>MCPClient\<close>, and no comparison up to
  case makes them equal.
\<close>

theorem server_override_never_applies:
  assumes "fold_law EqualFold" "distinct (declared_names (file_Statements f))"
    and "Lower ComputeHash LookupEnv rng f = Some (Inr doc)"
    and "StmtEnvironment e \<in> set (file_Statements f)" "env_Name e \<noteq> []" "ov \<in> set (env_Overrides e)"
    and "ovr_Resource ov = ''server/'' @ n \<or> ovr_Resource ov = ''client/'' @ n" "ovr_Attribute ov \<noteq> []"
  shows "\<exists>err. ApplyEnvironment ComputeHash EqualFold doc (env_Name e) = Inl err"
proof -
  from Lower_resources [OF assms(3)] obtain pkg :: ast_Package where
    rs: "doc_Resources doc = SortResources (concat (map (lowered ComputeHash (apk_Name pkg)) (file_Statements f)))"
    by blast
  show ?thesis
  proof (cases "find (\<lambda>r. res_Kind r = ''Environment'' \<and> res_Name r = env_Name e) (doc_Resources doc)")
    case None
    with assms(5) show ?thesis by (simp add: ApplyEnvironment_def)
  next
    case (Some r)
    then have "r \<in> set (doc_Resources doc)" "res_Kind r = ''Environment''" "res_Name r = env_Name e"
      by (auto dest: find_SomeE)
    then have r: "r = lower_environment ComputeHash (apk_Name pkg) e"
      using lowered_environment [OF assms(2,4)] unfolding rs set_SortResources by blast
    have "res_Kind ` set (doc_Resources doc) \<subseteq> set resource_kinds"
      unfolding rs set_SortResources using lowered_kinds by blast
    moreover have "server_ref (ovr_Resource ov)" using assms(7) by (auto simp: server_ref_def)
    ultimately obtain err where
      "apply_overrides ComputeHash EqualFold (env_Name e) (map lower_override (env_Overrides e)) (doc_Resources doc) = Inl err"
      using apply_overrides_server [OF assms(1,6) _ assms(8)] by blast
    with Some r assms(5) show ?thesis by (simp add: ApplyEnvironment_def lower_environment_def)
  qed
qed

subsection \<open>Instances\<close>

lemma source_lowers:
  "case parseFile (NewParser source_tokens ''f'') of
     Some (f, q) \<Rightarrow> par_errors q = [] \<and>
       (case Lower (\<lambda>_. ''h'') (\<lambda>_. None) (\<lambda>ks. ks) f of
          Some (Inr doc) \<Rightarrow> map res_FQN (doc_Resources doc) = [''p/Type/T'', ''p/Type/U'']
        | _ \<Rightarrow> False)
   | None \<Rightarrow> False"
  by code_simp

theorem Parse_Lower_identities_witness:
  "\<exists>f doc. Parse ascii_letter isDigit sample_source ''f'' = Some (Some f, []) \<and>
     Lower (\<lambda>_. ''h'') (\<lambda>_. None) (\<lambda>ks. ks) f = Some (Inr doc) \<and>
     map res_FQN (doc_Resources doc) = [''p/Type/T'', ''p/Type/U''] \<and>
     map act_FQN (plan_Actions (ComputePlan (doc_Resources doc) [])) = sort [''p/Type/T'', ''p/Type/U'']"
proof -
  from source_lowers obtain f q where q: "parseFile (NewParser source_tokens ''f'') = Some (f, q)" "par_errors q = []"
    and l: "case Lower (\<lambda>_. ''h'') (\<lambda>_. None) (\<lambda>ks. ks) f of
       Some (Inr doc) \<Rightarrow> map res_FQN (doc_Resources doc) = [''p/Type/T'', ''p/Type/U''] | _ \<Rightarrow> False"
    by (auto split: option.split_asm prod.split_asm)
  from l obtain doc where f: "Lower (\<lambda>_. ''h'') (\<lambda>_. None) (\<lambda>ks. ks) f = Some (Inr doc)"
      "map res_FQN (doc_Resources doc) = [''p/Type/T'', ''p/Type/U'']"
    by (auto split: option.split_asm sum.split_asm)
  have parse: "Parse ascii_letter isDigit sample_source ''f'' = Some (Some f, [])"
    by (simp add: Parse_def sample_source_tokens q)
  show ?thesis
    by (intro exI [of _ f] exI [of _ doc] conjI parse f) (simp only: Parse_Lower_identities [OF parse f(1)] f(2))
qed

definition sample_environment :: Environment where
  "sample_environment = (new_Environment zero_Pos)\<lparr>env_Name := ''dev'',
     env_Overrides := [(new_Override zero_Pos)\<lparr>ovr_Resource := ''server/s'', ovr_Attribute := ''url'', ovr_Value := ''u''\<rparr>]\<rparr>"

definition sample_server_file :: File where
  "sample_server_file = \<lparr>file_Path = ''f'',
     file_Package = Some ((new_ast_Package zero_Pos)\<lparr>apk_Name := ''p'', apk_LangVersion := ''3.0''\<rparr>),
     file_Statements =
       [StmtSecret ((new_Secret zero_Pos)\<lparr>sec_Name := ''k''\<rparr>),
        StmtMCPServer ((new_MCPServer zero_Pos)\<lparr>srv_Name := ''s'',
          srv_Auth := Some ((new_Ref zero_Pos)\<lparr>ref_Name := ''k''\<rparr>)\<rparr>),
        StmtEnvironment sample_environment],
     file_StartPos = zero_Pos, file_EndPos = zero_Pos\<rparr>"

definition sample_server_doc :: Document where
  "sample_server_doc =
     (case Lower (\<lambda>_. ''h'') (\<lambda>_. None) (\<lambda>ks. ks) sample_server_file of Some (Inr doc) \<Rightarrow> doc)"

lemma sample_server_lowers:
  "Lower (\<lambda>_. ''h'') (\<lambda>_. None) (\<lambda>ks. ks) sample_server_file = Some (Inr sample_server_doc)"
  by code_simp

theorem Lower_references_resolve_witness:
  "ValidateSemantic sample_server_file = [] \<and>
   map res_References (doc_Resources sample_server_doc) = [[], [''p/Secret/k''], []] \<and>
   (\<exists>r' \<in> set (doc_Resources sample_server_doc). res_FQN r' = ''p/Secret/k'')"
proof (intro conjI)
  show valid: "ValidateSemantic sample_server_file = []" by code_simp
  show refs: "map res_References (doc_Resources sample_server_doc) = [[], [''p/Secret/k''], []]" by code_simp
  then have "[''p/Secret/k''] \<in> set (map res_References (doc_Resources sample_server_doc))" by simp
  then obtain r where r: "r \<in> set (doc_Resources sample_server_doc)" "[''p/Secret/k''] = res_References r"
    by (auto simp del: in_set_conv_nth)
  then have "''p/Secret/k'' \<in> set (res_References r)" by (simp flip: r(2))
  with r(1) Lower_references_resolve [OF valid sample_server_lowers]
  show "\<exists>r' \<in> set (doc_Resources sample_server_doc). res_FQN r' = ''p/Secret/k''" by blast
qed

lemma fold_law_equal: "fold_law (=)"
  by (simp add: fold_law_def)

theorem server_override_never_applies_witness:
  "ValidateSemantic sample_server_file = [] \<and> ValidateEnvironments sample_server_file = [] \<and>
   (\<exists>err. ApplyEnvironment (\<lambda>_. ''h'') (=) sample_server_doc ''dev'' = Inl err)"
proof (intro conjI)
  show "ValidateSemantic sample_server_file = []" by code_simp
  show "ValidateEnvironments sample_server_file = []" by code_simp
  have "\<exists>err. ApplyEnvironment (\<lambda>_. ''h'') (=) sample_server_doc (env_Name sample_environment) = Inl err"
  proof (rule server_override_never_applies [OF fold_law_equal _ sample_server_lowers])
    show "distinct (declared_names (file_Statements sample_server_file))" by code_simp
    show "hd (env_Overrides sample_environment) \<in> set (env_Overrides sample_environment)"
      by (simp add: sample_environment_def)
    show "ovr_Resource (hd (env_Overrides sample_environment)) = ''server/'' @ ''s'' \<or>
        ovr_Resource (hd (env_Overrides sample_environment)) = ''client/'' @ ''s''"
      by (simp add: sample_environment_def)
  qed (simp_all add: sample_environment_def sample_server_file_def)
  then show "\<exists>err. ApplyEnvironment (\<lambda>_. ''h'') (=) sample_server_doc ''dev'' = Inl err"
    by (simp add: sample_environment_def)
qed

end
