(* ===== verification/Validate_Structural.thy ===== *)
theory Validate_Structural
  imports Frontend Pipeline_DAG
begin

text \<open>
  Structural validation (\<open>internal/validate/structural.go\<close>): the required fields and allowed values
  of every kind of statement. A file that passes both validations is lowered to a document whose
  agents are complete, and its pipelines can only fail to be scheduled because of a cycle.
\<close>

subsection \<open>Blocks of an agent\<close>

definition dquote :: "string \<Rightarrow> string" where
  "dquote s = [CHR 0x22] @ s @ [CHR 0x22]"

text \<open>A hint of the form \<open>add 'word "argument"'\<close>.\<close>

definition add_hint :: "string \<Rightarrow> string \<Rightarrow> string" where
  "add_hint word arg = ''add '' @ squote (word @ '' '' @ dquote arg)"

definition validateConfigParams :: "Agent \<Rightarrow> ValidationError list" where
  "validateConfigParams a =
     concat (map (\<lambda>p.
       error_if (cp_Name p = []) (posError (cp_StartPos p) [Lit ''config param name is required''] []) @
       error_if (cp_Type p \<noteq> [] \<and> cp_Type p \<notin> {''string'', ''int'', ''float'', ''bool''})
         (posError (cp_StartPos p) [Lit ''config param '', Q (cp_Name p), Lit '' has invalid type '', Q (cp_Type p)]
           ''valid types: string, int, float, bool'') @
       error_if (cp_Secret p \<and> cp_HasDefault p)
         (posError (cp_StartPos p)
           [Lit ''config param '', Q (cp_Name p), Lit '' is marked secret and cannot have a default value'']
           ''remove the default value or remove the secret modifier'')) (ag_ConfigParams a))"

definition validateValidationRules :: "Agent \<Rightarrow> ValidationError list" where
  "validateValidationRules a =
     concat (map (\<lambda>r.
       error_if (vr_Name r = []) (posError (vr_StartPos r) [Lit ''validation rule name is required''] []) @
       error_if (vr_Severity r \<noteq> [] \<and> vr_Severity r \<notin> {''error'', ''warning''})
         (posError (vr_StartPos r) [Lit ''validation rule '', Q (vr_Name r), Lit '' has invalid severity '', Q (vr_Severity r)]
           ''valid severities: error, warning'') @
       error_if (vr_MaxRetries r < 0)
         (posError (vr_StartPos r) [Lit ''validation rule '', Q (vr_Name r), Lit '' has negative max_retries''] []) @
       error_if (vr_Expression r = [])
         (posError (vr_StartPos r)
           [Lit ''validation rule '', Q (vr_Name r), Lit ('' requires a '' @ squote ''when'' @ '' expression'')]
           (''add '' @ squote ''when <expression>''))) (ag_ValidationRules a))"

definition validateEvalCases :: "Agent \<Rightarrow> ValidationError list" where
  "validateEvalCases a =
     concat (map (\<lambda>c.
       error_if (ec_Name c = []) (posError (ec_StartPos c) [Lit ''eval case name is required''] []) @
       error_if (ec_Input c = [])
         (posError (ec_StartPos c) [Lit ''eval case '', Q (ec_Name c), Lit '' requires an input''] (add_hint ''input'' ''...'')) @
       error_if (ec_Expected c = [])
         (posError (ec_StartPos c) [Lit ''eval case '', Q (ec_Name c), Lit '' requires an expected output'']
           (add_hint ''expect'' ''...'')) @
       error_if (ec_Scoring c \<noteq> [] \<and> ec_Scoring c \<notin> {''exact'', ''contains'', ''semantic'', ''custom''})
         (posError (ec_StartPos c) [Lit ''eval case '', Q (ec_Name c), Lit '' has invalid scoring method '', Q (ec_Scoring c)]
           ''valid methods: exact, contains, semantic, custom'') @
       error_if (ec_Threshold c < 0 \<or> ec_Threshold c > 1)
         (posError (ec_StartPos c)
           [Lit ''eval case '', Q (ec_Name c), Lit '' has threshold '', Fmt ''%g'' (ec_Threshold c), Lit '' out of range [0, 1]'']
           [])) (ag_EvalCases a))"

fun validateOnInputStmt :: "string \<Rightarrow> OnInputStmt \<Rightarrow> ValidationError list"
  and validate_else_if :: "string \<Rightarrow> ElseIfClause \<Rightarrow> ValidationError list" where
  "validateOnInputStmt agentName (UseSkillStmt skill _ pos _) =
     error_if (skill = []) (posError pos [Lit ''use skill requires a skill name''] [])"
| "validateOnInputStmt agentName (DelegateToStmt agent pos _) =
     error_if (agent = []) (posError pos [Lit ''delegate requires an agent name''] [])"
| "validateOnInputStmt agentName (RespondStmt expression pos _) =
     error_if (expression = []) (posError pos [Lit ''respond requires an expression''] [])"
| "validateOnInputStmt agentName (IfBlock condition body elseIfs elseBody pos _) =
     error_if (condition = []) (posError pos [Lit ''if block requires a condition''] []) @
     concat (map (validateOnInputStmt agentName) body) @ concat (map (validate_else_if agentName) elseIfs) @
     concat (map (validateOnInputStmt agentName) elseBody)"
| "validateOnInputStmt agentName (ForEachBlock variable collection body pos _) =
     error_if (variable = []) (posError pos [Lit ''for each requires a variable name''] []) @
     error_if (collection = []) (posError pos [Lit ''for each requires a collection expression''] []) @
     concat (map (validateOnInputStmt agentName) body)"
| "validate_else_if agentName (ElseIfClause condition body pos _) =
     error_if (condition = []) (posError pos [Lit ''else if requires a condition''] []) @
     concat (map (validateOnInputStmt agentName) body)"

definition validateOnInputBlock :: "string \<Rightarrow> OnInputBlock \<Rightarrow> ValidationError list" where
  "validateOnInputBlock agentName block = concat (map (validateOnInputStmt agentName) (oib_Statements block))"

subsection \<open>Statements\<close>

definition validateImport :: "ast_Import \<Rightarrow> ValidationError list" where
  "validateImport imp = error_if (aim_Path imp = []) (posError (aim_StartPos imp) [Lit ''import path is required''] [])"

definition em_dash :: string where
  "em_dash = [CHR 0xE2, CHR 0x80, CHR 0x94]"

definition validateAgent :: "Agent \<Rightarrow> ValidationError list" where
  "validateAgent a =
     (let err = (\<lambda>rest hint. posError (ag_StartPos a) ([Lit ''agent '', Q (ag_Name a)] @ rest) hint) in
      error_if (ag_Name a = []) (posError (ag_StartPos a) [Lit ''agent name is required''] []) @
      error_if (ag_Prompt a = None) (err [Lit '' requires a prompt reference''] (add_hint ''uses prompt'' ''name'')) @
      error_if (ag_Model a = [] \<and> ag_Models a = [])
        (err [Lit '' requires a model or models list'']
          (add_hint ''model'' ''model-name'' @ '' or '' @
           squote (''models ['' @ dquote ''model1'' @ '', '' @ dquote ''model2'' @ '']''))) @
      error_if (ag_Model a \<noteq> [] \<and> ag_Models a \<noteq> [])
        (err [Lit ('' has both '' @ squote ''model'' @ '' and '' @ squote ''models'' @ '' '' @ em_dash @ '' use one or the other'')]
          (''remove either '' @ squote ''model'' @ '' or '' @ squote ''models'')) @
      error_if (ag_BudgetDaily a < 0) (err [Lit '' has negative daily budget''] []) @
      error_if (ag_BudgetMonthly a < 0) (err [Lit '' has negative monthly budget''] []) @
      error_if (ag_Strategy a \<noteq> [] \<and>
          ag_Strategy a \<notin> {''react'', ''plan-and-execute'', ''reflexion'', ''router'', ''map-reduce''})
        (err [Lit '' has invalid strategy '', Q (ag_Strategy a)]
          ''valid strategies: react, plan-and-execute, reflexion, router, map-reduce'') @
      error_if (ag_OnError a \<noteq> [] \<and> ag_OnError a \<notin> {''retry'', ''fail'', ''fallback''})
        (err [Lit '' has invalid on_error '', Q (ag_OnError a)] ''valid values: retry, fail, fallback'') @
      error_if (ag_OnError a = ''fallback'' \<and> ag_Fallback a = [])
        (err [Lit ('' uses on_error '' @ dquote ''fallback'' @ '' but no fallback agent specified'')]
          (add_hint ''fallback'' ''agent-name'')) @
      error_if (ag_HasTemp a \<and> (ag_Temperature a < 0 \<or> ag_Temperature a > 2))
        (err [Lit '' has temperature '', Fmt ''%.1f'' (ag_Temperature a), Lit '' out of range [0, 2]''] []) @
      validateConfigParams a @ validateValidationRules a @ validateEvalCases a @
      (case ag_OnInput a of None \<Rightarrow> [] | Some block \<Rightarrow> validateOnInputBlock (ag_Name a) block))"

definition validatePrompt :: "Prompt \<Rightarrow> ValidationError list" where
  "validatePrompt p =
     error_if (pr_Name p = []) (posError (pr_StartPos p) [Lit ''prompt name is required''] []) @
     error_if (pr_Content p = [])
       (posError (pr_StartPos p) [Lit ''prompt '', Q (pr_Name p), Lit '' requires content''] (add_hint ''content'' ''...''))"

definition validateSkill :: "Skill \<Rightarrow> ValidationError list" where
  "validateSkill s =
     (let err = (\<lambda>rest hint. posError (sk_StartPos s) [Lit ''skill '', Q (sk_Name s), Lit rest] hint) in
      error_if (sk_Name s = []) (posError (sk_StartPos s) [Lit ''skill name is required''] []) @
      error_if (sk_Description s = []) (err '' requires a description'' (add_hint ''description'' ''...'')) @
      error_if (sk_Input s = []) (err '' requires an input schema'' (''add '' @ squote ''input { name type }'')) @
      error_if (sk_Output s = []) (err '' requires an output schema'' (''add '' @ squote ''output { name type }'')) @
      error_if (sk_Execution s = None \<and> sk_ToolConfig s = None)
        (err '' requires an execution or tool block''
          (add_hint ''tool mcp'' ''server/tool'' @ '' or '' @ squote (''execution command '' @ dquote ''...''))) @
      error_if (sk_Execution s \<noteq> None \<and> sk_ToolConfig s \<noteq> None)
        (err '' has both execution and tool blocks''
          (''use only one: '' @ squote ''tool'' @ '' (2.0) or '' @ squote ''execution'' @ '' (1.0)'')) @
      (case sk_ToolConfig s of
         None \<Rightarrow> []
       | Some tc \<Rightarrow>
           error_if (tc_Type tc \<notin> {''mcp'', ''http'', ''command'', ''inline''})
             (posError (tc_StartPos tc) [Lit ''skill '', Q (sk_Name s), Lit '' has invalid tool type '', Q (tc_Type tc)]
               ''valid types: mcp, http, command, inline'')))"

definition validateMCPServer :: "MCPServer \<Rightarrow> ValidationError list" where
  "validateMCPServer s =
     (let err = (\<lambda>rest hint. posError (srv_StartPos s) [Lit ''server '', Q (srv_Name s), Lit rest] hint) in
      error_if (srv_Name s = []) (posError (srv_StartPos s) [Lit ''server name is required''] []) @
      error_if (srv_Transport s = [])
        (err '' requires a transport''
          (add_hint ''transport'' ''stdio'' @ '' or '' @ squote (''transport '' @ dquote ''sse''))) @
      error_if (srv_Transport s = ''stdio'' \<and> srv_Command s = [])
        (err '' with stdio transport requires a command'' (add_hint ''command'' ''...'')) @
      error_if ((srv_Transport s = ''sse'' \<or> srv_Transport s = ''streamable-http'') \<and> srv_URL s = [])
        (err ('' with '' @ srv_Transport s @ '' transport requires a url'') (add_hint ''url'' ''...'')))"

definition validateMCPClient :: "MCPClient \<Rightarrow> ValidationError list" where
  "validateMCPClient c =
     error_if (cli_Name c = []) (posError (cli_StartPos c) [Lit ''client name is required''] []) @
     error_if (cli_Servers c = [])
       (posError (cli_StartPos c) [Lit ''client '', Q (cli_Name c), Lit '' requires at least one server connection'']
         (add_hint ''connects to server'' ''name''))"

definition validateSecret :: "Secret \<Rightarrow> ValidationError list" where
  "validateSecret s =
     error_if (sec_Name s = []) (posError (sec_StartPos s) [Lit ''secret name is required''] []) @
     error_if (sec_Source s = [])
       (posError (sec_StartPos s) [Lit ''secret '', Q (sec_Name s), Lit '' requires a source (env or store)'']
         (''add '' @ squote ''env(KEY)'' @ '' or '' @ squote ''store(path)'')) @
     error_if (sec_Key s = [])
       (posError (sec_StartPos s) [Lit ''secret '', Q (sec_Name s), Lit '' requires a key''] [])"

definition validateBinding :: "ast_Binding \<Rightarrow> ValidationError list" where
  "validateBinding b =
     error_if (abd_Name b = []) (posError (abd_StartPos b) [Lit ''binding name is required''] []) @
     error_if (abd_Adapter b = [])
       (posError (abd_StartPos b) [Lit ''binding '', Q (abd_Name b), Lit '' requires an adapter'']
         (add_hint ''adapter'' ''local-mcp''))"

definition validateDeployTarget :: "ast_DeployTarget \<Rightarrow> ValidationError list" where
  "validateDeployTarget d =
     error_if (adt_Name d = []) (posError (adt_StartPos d) [Lit ''deploy target name is required''] []) @
     error_if (adt_Target d = [])
       (posError (adt_StartPos d) [Lit ''deploy '', Q (adt_Name d), Lit '' requires a target type'']
         (add_hint ''target'' ''process'' @ '', '' @ squote (''target '' @ dquote ''docker'') @ '', or '' @
          squote (''target '' @ dquote ''kubernetes''))) @
     error_if (adt_Target d \<noteq> [] \<and> adt_Target d \<notin> {''process'', ''docker'', ''docker-compose'', ''kubernetes''})
       (posError (adt_StartPos d) [Lit ''deploy '', Q (adt_Name d), Lit '' has invalid target type '', Q (adt_Target d)]
         ''valid targets: process, docker, docker-compose, kubernetes'')"

definition validateTypeDef :: "TypeDef \<Rightarrow> ValidationError list" where
  "validateTypeDef t =
     error_if (td_Name t = []) (posError (td_StartPos t) [Lit ''type name is required''] []) @
     error_if (td_Fields t = [] \<and> td_EnumVals t = [] \<and> td_ListOf t = [])
       (posError (td_StartPos t) [Lit ''type '', Q (td_Name t), Lit '' must have fields, enum values, or list type'']
         ''add fields in a block, enum [...], or list <type>'') @
     concat (map (\<lambda>f.
       error_if (tf_Name f = []) (posError (tf_StartPos f) [Lit ''type field name is required''] []) @
       error_if (tf_Type f = [])
         (posError (tf_StartPos f) [Lit ''type field '', Q (tf_Name f), Lit '' requires a type''] [])) (td_Fields t))"

text \<open>The loop over the steps of a pipeline, with the names seen so far; a step without a name is skipped.\<close>

fun validate_steps :: "string \<Rightarrow> PipelineStep list \<Rightarrow> (string, bool) gomap \<Rightarrow> ValidationError list \<times> (string, bool) gomap" where
  "validate_steps pipeline [] stepNames = ([], stepNames)"
| "validate_steps pipeline (step # rest) stepNames =
     (if pst_Name step = [] then
        let (errs, names) = validate_steps pipeline rest stepNames
        in (posError (pst_StartPos step) [Lit ''step name is required''] [] # errs, names)
      else
        let (errs, names) = validate_steps pipeline rest (mput (pst_Name step) True stepNames)
        in (error_if (mget0 False stepNames (pst_Name step))
              (posError (pst_StartPos step)
                [Lit ''duplicate step name '', Q (pst_Name step), Lit '' in pipeline '', Q pipeline] []) @
            error_if (pst_Agent step = [])
              (posError (pst_StartPos step) [Lit ''step '', Q (pst_Name step), Lit '' requires an agent'']
                (add_hint ''agent'' ''agent-name'')) @ errs, names))"

definition validate_deps :: "(string, bool) gomap \<Rightarrow> PipelineStep \<Rightarrow> ValidationError list" where
  "validate_deps stepNames step =
     concat (map (\<lambda>dep.
       error_if (\<not> mget0 False stepNames dep)
         (posError (pst_StartPos step)
           [Lit ''step '', Q (pst_Name step), Lit '' depends_on unknown step '', Q dep] []) @
       error_if (dep = pst_Name step)
         (posError (pst_StartPos step) [Lit ''step '', Q (pst_Name step), Lit '' cannot depend on itself''] []))
       (pst_DependsOn step))"

definition validatePipeline :: "Pipeline \<Rightarrow> ValidationError list" where
  "validatePipeline p =
     error_if (pl_Name p = []) (posError (pl_StartPos p) [Lit ''pipeline name is required''] []) @
     error_if (pl_Steps p = [])
       (posError (pl_StartPos p) [Lit ''pipeline '', Q (pl_Name p), Lit '' requires at least one step'']
         (''add '' @ squote (''step '' @ dquote ''name'' @ '' { agent '' @ dquote ''...'' @ '' }''))) @
     (let (errs, stepNames) = validate_steps (pl_Name p) (pl_Steps p) []
      in errs @ concat (map (validate_deps stepNames) (pl_Steps p)))"

definition validateUser :: "User \<Rightarrow> ValidationError list" where
  "validateUser u =
     error_if (usr_Name u = []) (posError (usr_StartPos u) [Lit ''user name is required''] []) @
     error_if (usr_KeyRef u = [])
       (posError (usr_StartPos u) [Lit ''user '', Q (usr_Name u), Lit '' requires a key reference'']
         (''add '' @ squote (''key secret('' @ dquote ''ENV_VAR'' @ '')''))) @
     error_if (usr_Role u \<noteq> [] \<and> usr_Role u \<notin> {''invoke'', ''admin''})
       (posError (usr_StartPos u) [Lit ''user '', Q (usr_Name u), Lit '' has invalid role '', Q (usr_Role u)]
         ''valid roles: invoke, admin'')"

definition validateGuardrail :: "Guardrail \<Rightarrow> ValidationError list" where
  "validateGuardrail g =
     (let err = (\<lambda>rest hint. posError (gr_StartPos g) ([Lit ''guardrail '', Q (gr_Name g)] @ rest) hint) in
      error_if (gr_Name g = []) (posError (gr_StartPos g) [Lit ''guardrail name is required''] []) @
      error_if (gr_Mode g = [])
        (err [Lit '' requires a mode''] (add_hint ''mode'' ''warn'' @ '' or '' @ squote (''mode '' @ dquote ''block''))) @
      error_if (gr_Mode g \<noteq> [] \<and> gr_Mode g \<notin> {''warn'', ''block''})
        (err [Lit '' has invalid mode '', Q (gr_Mode g)] ''valid modes: warn, block'') @
      error_if (gr_Keywords g = [] \<and> gr_Patterns g = [])
        (err [Lit '' requires at least one keyword or pattern'']
          (''add '' @ squote ''keywords [...]'' @ '' or '' @ squote ''patterns [...]'')) @
      error_if (gr_Mode g = ''block'' \<and> gr_FallbackMsg g = [])
        (err [Lit '' in block mode requires a fallback message''] (add_hint ''fallback'' ''message'')))"

subsection \<open>Files\<close>

definition structural_statement :: "Statement \<Rightarrow> ValidationError list" where
  "structural_statement stmt =
     (case stmt of
        StmtAgent s \<Rightarrow> validateAgent s
      | StmtPrompt s \<Rightarrow> validatePrompt s
      | StmtSkill s \<Rightarrow> validateSkill s
      | StmtMCPServer s \<Rightarrow> validateMCPServer s
      | StmtMCPClient s \<Rightarrow> validateMCPClient s
      | StmtSecret s \<Rightarrow> validateSecret s
      | StmtBinding s \<Rightarrow> validateBinding s
      | StmtDeployTarget s \<Rightarrow> validateDeployTarget s
      | StmtTypeDef s \<Rightarrow> validateTypeDef s
      | StmtPipeline s \<Rightarrow> validatePipeline s
      | StmtUser s \<Rightarrow> validateUser s
      | StmtGuardrail s \<Rightarrow> validateGuardrail s
      | StmtImport s \<Rightarrow> validateImport s
      | _ \<Rightarrow> [])"

definition ValidateStructural :: "File \<Rightarrow> ValidationError list" where
  "ValidateStructural f =
     (case file_Package f of
        None \<Rightarrow>
          [\<lparr>ve_File = file_Path f, ve_Line = 1, ve_Column = 1, ve_Message = [Lit ''missing package declaration''],
            ve_Hint = [Lit (''add '' @ squote (''package '' @ dquote ''name'' @ '' version '' @ dquote ''x.y.z'' @
              '' lang '' @ dquote ''1.0'') @ '' at the start'')]\<rparr>]
      | Some pkg \<Rightarrow>
          error_if (apk_Name pkg = []) (posError (apk_StartPos pkg) [Lit ''package name is required''] []) @
          error_if (apk_Version pkg = [])
            (posError (apk_StartPos pkg) [Lit ''package version is required''] (''add version '' @ dquote ''x.y.z'')) @
          error_if (apk_LangVersion pkg = [])
            (posError (apk_StartPos pkg) [Lit ''lang version is required''] (''add lang '' @ dquote ''1.0'')) @
          concat (map structural_statement (file_Statements f)))"

subsection \<open>Validated pipelines\<close>

lemma validate_steps_ok:
  assumes "validate_steps pl sts names = ([], names')"
  shows "(\<forall>st \<in> set sts. pst_Name st \<noteq> [] \<and> \<not> mget0 False names (pst_Name st)) \<and> distinct (map pst_Name sts) \<and>
    (\<forall>n. mget0 False names' n \<longleftrightarrow> mget0 False names n \<or> n \<in> set (map pst_Name sts))"
  using assms
proof (induction sts arbitrary: names)
  case (Cons st sts)
  from Cons.prems have ne: "pst_Name st \<noteq> []" by (auto split: if_splits prod.splits)
  with Cons.prems have new: "\<not> mget0 False names (pst_Name st)"
    and run: "validate_steps pl sts (mput (pst_Name st) True names) = ([], names')"
    by (auto split: prod.splits)
  from Cons.IH [OF run] ne new show ?case by (auto split: if_splits)
qed simp

lemma validatePipeline_ok:
  assumes "validatePipeline p = []"
  shows "distinct (map pst_Name (pl_Steps p))"
    "st \<in> set (pl_Steps p) \<Longrightarrow> dep \<in> set (pst_DependsOn st) \<Longrightarrow> dep \<in> set (map pst_Name (pl_Steps p)) \<and> dep \<noteq> pst_Name st"
proof -
  obtain names where run: "validate_steps (pl_Name p) (pl_Steps p) [] = ([], names)"
    and deps: "\<forall>st \<in> set (pl_Steps p). validate_deps names st = []"
    using assms by (auto simp: validatePipeline_def split: prod.splits)
  note ok = validate_steps_ok [OF run]
  from ok show "distinct (map pst_Name (pl_Steps p))" by blast
  show "dep \<in> set (map pst_Name (pl_Steps p)) \<and> dep \<noteq> pst_Name st"
    if "st \<in> set (pl_Steps p)" "dep \<in> set (pst_DependsOn st)"
    using deps that ok by (auto simp: validate_deps_def)
qed

text \<open>
  C13. The steps of a pipeline that passes validation are scheduled exactly when they have no
  cycle of dependencies; the errors for a repeated name, an unknown dependency and a step that
  depends on itself cannot occur any more.
\<close>

theorem validated_pipeline_schedule:
  assumes "range_order rng" "range_order rng'" "validatePipeline p = []"
    and "map (\<lambda>s. (step_Name s, step_DependsOn s)) ss = map (\<lambda>st. (pst_Name st, pst_DependsOn st)) (pl_Steps p)"
  shows "if acyclic (step_edges ss) then \<exists>dag. BuildDAG rng rng' ss = Inr dag else BuildDAG rng rng' ss = Inl CycleDetected"
proof -
  have names: "step_names ss = map pst_Name (pl_Steps p)"
    using arg_cong [OF assms(4), of "map fst"] by (simp add: step_names_def comp_def)
  have step: "\<exists>st \<in> set (pl_Steps p). step_Name s = pst_Name st \<and> step_DependsOn s = pst_DependsOn st"
    if "s \<in> set ss" for s
  proof -
    have "(step_Name s, step_DependsOn s) \<in> set (map (\<lambda>s. (step_Name s, step_DependsOn s)) ss)" using that by simp
    then have "(step_Name s, step_DependsOn s) \<in> set (map (\<lambda>st. (pst_Name st, pst_DependsOn st)) (pl_Steps p))"
      unfolding assms(4) .
    then show ?thesis by auto
  qed
  have d: "distinct (step_names ss)" unfolding names by (rule validatePipeline_ok(1) [OF assms(3)])
  have dep: "dep \<in> set (step_names ss) \<and> dep \<noteq> step_Name s" if "s \<in> set ss" "dep \<in> set (step_DependsOn s)" for s dep
    using step [OF that(1)] validatePipeline_ok(2) [OF assms(3)] that(2) unfolding names by metis
  then have "deps_known ss" "no_self_dep ss" unfolding deps_known_def no_self_dep_def by blast+
  from BuildDAG_ok [OF d assms(1,2) this] show ?thesis by auto
qed

subsection \<open>Validated agents\<close>

lemma agent_attributes:
  "mget (agent_attrs s) ''prompt'' = map_option (\<lambda>r. IString (ref_Name r)) (ag_Prompt s)"
  "mget (agent_attrs s) ''model'' = Some (IString (ag_Model s))"
  "mget (agent_attrs s) ''models'' = (if ag_Models s \<noteq> [] then Some (istrings (ag_Models s)) else None)"
  by (simp_all add: agent_attrs_def Let_def split: option.splits)

lemma validateAgent_ok:
  assumes "validateAgent a = []"
  shows "ag_Name a \<noteq> []" "\<exists>r. ag_Prompt a = Some r" "(ag_Model a \<noteq> []) \<noteq> (ag_Models a \<noteq> [])"
  using assms by (auto simp: validateAgent_def Let_def)

lemma lowered_agent:
  assumes "r \<in> set (lowered CH pkg st)" "res_Kind r = ''Agent''"
  shows "\<exists>a. st = StmtAgent a \<and> r = lower_agent CH pkg a"
  using assms by (cases st) (simp_all add: lowered_def lower_resource_defs Let_def)

text \<open>
  C19. An agent of the document of a file that passes both validations has a name, a prompt that
  is a resource of the document, and either a model or a list of models, never both.
\<close>

theorem validated_agents_complete:
  assumes "ValidateStructural f = []" "ValidateSemantic f = []" "Lower ComputeHash LookupEnv rng f = Some (Inr doc)"
    and "r \<in> set (doc_Resources doc)" "res_Kind r = ''Agent''"
  shows "res_Name r \<noteq> [] \<and>
    (\<exists>r' \<in> set (doc_Resources doc). res_Kind r' = ''Prompt'' \<and>
       mget (res_Attributes r) ''prompt'' = Some (IString (res_Name r'))) \<and>
    (mget (res_Attributes r) ''model'' \<noteq> Some (IString [])) \<noteq> (mget (res_Attributes r) ''models'' \<noteq> None)"
proof -
  from Lower_resources [OF assms(3)] obtain pkg :: ast_Package where pkg: "file_Package f = Some pkg"
    and rs: "doc_Resources doc = SortResources (concat (map (lowered ComputeHash (apk_Name pkg)) (file_Statements f)))"
    by blast
  from assms(4) obtain st where st: "st \<in> set (file_Statements f)" "r \<in> set (lowered ComputeHash (apk_Name pkg) st)"
    unfolding rs by auto
  from lowered_agent [OF st(2) assms(5)] obtain a where a: "st = StmtAgent a"
    "r = lower_agent ComputeHash (apk_Name pkg) a" by blast
  have "structural_statement st = []"
    using assms(1) st(1) by (simp add: ValidateStructural_def pkg)
  then have "validateAgent a = []" by (simp add: structural_statement_def a(1))
  note ok = validateAgent_ok [OF this]
  from ok(2) obtain ref where ref: "ag_Prompt a = Some ref" by blast
  have "semantic_agent (collectNames f) a = []"
    using assms(2) st(1) by (auto simp: ValidateSemantic_def semantic_statement_def a(1))
  then have "has_name (collectNames f) ''Prompt'' (ref_Name ref)" by (simp add: semantic_agent_def ref)
  then have "(''Prompt'', ref_Name ref) \<in> set (filter (\<lambda>(k, _). k \<in> set resource_kinds) (declared_names (file_Statements f)))"
    by (simp add: collectNames_def has_collected resource_kinds_def)
  then obtain r' where r': "r' \<in> set (doc_Resources doc)" "res_Kind r' = ''Prompt''" "res_Name r' = ref_Name ref"
    unfolding rs set_SortResources lowered_all_pairs [of ComputeHash "apk_Name pkg", symmetric] by (auto simp del: set_concat)
  have "res_Name r \<noteq> []" "mget (res_Attributes r) ''prompt'' = Some (IString (res_Name r'))"
    "(mget (res_Attributes r) ''model'' \<noteq> Some (IString [])) \<noteq> (mget (res_Attributes r) ''models'' \<noteq> None)"
    using ok by (simp_all add: a(2) lower_agent_def agent_attributes ref r'(3))
  with r' show ?thesis by blast
qed

subsection \<open>Instances\<close>

definition sample_pipeline :: Pipeline where
  "sample_pipeline = (new_Pipeline zero_Pos)\<lparr>pl_Name := ''p'', pl_Steps :=
     [(new_PipelineStep zero_Pos)\<lparr>pst_Name := ''a'', pst_Agent := ''x'', pst_DependsOn := [''b'']\<rparr>,
      (new_PipelineStep zero_Pos)\<lparr>pst_Name := ''b'', pst_Agent := ''x'', pst_DependsOn := [''a'']\<rparr>]\<rparr>"

theorem validated_pipeline_schedule_witness:
  "validatePipeline sample_pipeline = [] \<and>
   BuildDAG rev (\<lambda>ks. ks) [mk_step ''a'' [''b''], mk_step ''b'' [''a'']] = Inl CycleDetected \<and>
   \<not> acyclic (step_edges [mk_step ''a'' [''b''], mk_step ''b'' [''a'']])"
proof -
  have valid: "validatePipeline sample_pipeline = []" by code_simp
  have run: "BuildDAG rev (\<lambda>ks. ks) [mk_step ''a'' [''b''], mk_step ''b'' [''a'']] = Inl CycleDetected" by code_simp
  have "if acyclic (step_edges [mk_step ''a'' [''b''], mk_step ''b'' [''a'']])
    then \<exists>dag. BuildDAG rev (\<lambda>ks. ks) [mk_step ''a'' [''b''], mk_step ''b'' [''a'']] = Inr dag
    else BuildDAG rev (\<lambda>ks. ks) [mk_step ''a'' [''b''], mk_step ''b'' [''a'']] = Inl CycleDetected"
    by (rule validated_pipeline_schedule [OF _ _ valid])
      (simp_all add: range_order_def sample_pipeline_def mk_step_def)
  with valid run show ?thesis by (simp split: if_splits)
qed

definition sample_agent_file :: File where
  "sample_agent_file = \<lparr>file_Path = ''f'',
     file_Package = Some ((new_ast_Package zero_Pos)\<lparr>apk_Name := ''p'', apk_Version := ''1'', apk_LangVersion := ''3.0''\<rparr>),
     file_Statements =
       [StmtPrompt ((new_Prompt zero_Pos)\<lparr>pr_Name := ''hello'', pr_Content := ''hi''\<rparr>),
        StmtAgent ((new_Agent zero_Pos)\<lparr>ag_Name := ''a'', ag_Model := ''m'',
          ag_Prompt := Some ((new_Ref zero_Pos)\<lparr>ref_Name := ''hello''\<rparr>)\<rparr>)],
     file_StartPos = zero_Pos, file_EndPos = zero_Pos\<rparr>"

definition sample_agent_doc :: Document where
  "sample_agent_doc =
     (case Lower (\<lambda>_. ''h'') (\<lambda>_. None) (\<lambda>ks. ks) sample_agent_file of Some (Inr doc) \<Rightarrow> doc)"

theorem validated_agents_complete_witness:
  "map res_Kind (doc_Resources sample_agent_doc) = [''Agent'', ''Prompt''] \<and>
   (\<exists>r' \<in> set (doc_Resources sample_agent_doc). res_Kind r' = ''Prompt'' \<and>
      mget (res_Attributes (hd (doc_Resources sample_agent_doc))) ''prompt'' = Some (IString (res_Name r')))"
proof (intro conjI)
  have valid: "ValidateStructural sample_agent_file = []" "ValidateSemantic sample_agent_file = []" by code_simp+
  have low: "Lower (\<lambda>_. ''h'') (\<lambda>_. None) (\<lambda>ks. ks) sample_agent_file = Some (Inr sample_agent_doc)" by code_simp
  show kinds: "map res_Kind (doc_Resources sample_agent_doc) = [''Agent'', ''Prompt'']" by code_simp
  then have "hd (doc_Resources sample_agent_doc) \<in> set (doc_Resources sample_agent_doc)"
    "res_Kind (hd (doc_Resources sample_agent_doc)) = ''Agent''" by (cases "doc_Resources sample_agent_doc"; simp)+
  from validated_agents_complete [OF valid low this]
  show "\<exists>r' \<in> set (doc_Resources sample_agent_doc). res_Kind r' = ''Prompt'' \<and>
      mget (res_Attributes (hd (doc_Resources sample_agent_doc))) ''prompt'' = Some (IString (res_Name r'))" by blast
qed

end
