(* ===== verification/Policy_Engine.thy ===== *)
theory Policy_Engine
  imports Frontend
begin

text \<open>
  The policy engine (\<open>internal/policy/policy.go\<close>, \<open>enforce.go\<close>) and the check of
  \<open>cmd/agentspec/apply.go\<close> that runs it: what a rule means for a resource, that every violation is
  reported, and which rules can never be violated by a document made from a source file.
\<close>

subsection \<open>Rules\<close>

datatype EvalMode = ModeEnforce | ModeWarn

record Violation =
  vio_Rule :: Rule
  vio_Resource :: Resource
  vio_Message :: "part list"
  vio_Details :: "part list"

definition matchesPattern :: "string \<Rightarrow> string \<Rightarrow> bool" where
  "matchesPattern pattern kind = (if pattern = ''*'' then True else pattern = kind)"

definition evaluateDeny :: "Rule \<Rightarrow> Resource \<Rightarrow> Violation option" where
  "evaluateDeny rule r =
     (if \<not> matchesPattern (rule_Resource rule) (res_Kind r) then None
      else if HasPrefix (rule_Subject rule) ''command '' then
        let deniedBinary = TrimPrefix (rule_Subject rule) ''command ''
        in if mget (res_Attributes r) ''binary'' = Some (IString deniedBinary)
           then Some \<lparr>vio_Rule = rule, vio_Resource = r,
             vio_Message = [Lit ''denied by policy: command '', Q deniedBinary, Lit '' is blocked''],
             vio_Details = [Lit ''Resource '', Q (res_Name r), Lit '' uses denied command '', Q deniedBinary]\<rparr>
           else None
      else Some \<lparr>vio_Rule = rule, vio_Resource = r,
        vio_Message = [Lit (''denied by policy: '' @ rule_Subject rule)], vio_Details = []\<rparr>)"

definition hasVersionPin :: "string \<Rightarrow> bool" where
  "hasVersionPin ref =
     (case LastIndex ref (CHR ''@'') of
        None \<Rightarrow> False
      | Some atIdx \<Rightarrow>
          let version = drop (atIdx + 1) ref
          in if version = ''latest'' \<or> version = [] then False else True)"

fun pinned_loop :: "string list \<Rightarrow> bool" where
  "pinned_loop [] = True"
| "pinned_loop (ref # refs) = (if \<not> hasVersionPin ref then False else pinned_loop refs)"

definition checkPinnedImports :: "Resource \<Rightarrow> bool" where
  "checkPinnedImports r =
     (if res_References r = [] then True else pinned_loop (res_References r))"

text \<open>The check of signatures logs a warning and succeeds.\<close>

definition checkSignedPackages :: "Resource \<Rightarrow> bool" where
  "checkSignedPackages r = True"

definition checkSecret :: "string \<Rightarrow> Resource \<Rightarrow> bool" where
  "checkSecret secretName r =
     (case mget (res_Metadata r) ''secrets'' of
        Some (IMap secrets) \<Rightarrow> mget secrets secretName \<noteq> None
      | _ \<Rightarrow> False)"

definition checkRequirement :: "string \<Rightarrow> Resource \<Rightarrow> bool" where
  "checkRequirement subject r =
     (if subject = ''pinned imports'' then checkPinnedImports r
      else if subject = ''signed packages'' then checkSignedPackages r
      else if HasPrefix subject ''secret '' then checkSecret (TrimPrefix subject ''secret '') r
      else False)"

definition detailsForRequirement :: "string \<Rightarrow> Resource \<Rightarrow> part list" where
  "detailsForRequirement subject r =
     (if subject = ''pinned imports'' then
        [Lit (''Unpinned imports: '' @ Join (filter (\<lambda>ref. \<not> hasVersionPin ref) (res_References r)) '', '')]
      else if subject = ''signed packages'' then [Lit ''Package signature verification not yet implemented'']
      else if HasPrefix subject ''secret '' then
        [Lit ''Secret '', Q (TrimPrefix subject ''secret ''), Lit '' not found in configured secrets'']
      else [Lit ''Unknown requirement type: '', Q subject])"

definition evaluateRequire :: "Rule \<Rightarrow> Resource \<Rightarrow> Violation option" where
  "evaluateRequire rule r =
     (if \<not> matchesPattern (rule_Resource rule) (res_Kind r) then None
      else if \<not> checkRequirement (rule_Subject rule) r then
        Some \<lparr>vio_Rule = rule, vio_Resource = r,
          vio_Message = [Lit (''requirement not met: '' @ rule_Subject rule)],
          vio_Details = detailsForRequirement (rule_Subject rule) r\<rparr>
      else None)"

definition evaluateRule :: "Rule \<Rightarrow> Resource \<Rightarrow> Violation option" where
  "evaluateRule rule r =
     (if rule_Action rule = ''deny'' then evaluateDeny rule r
      else if rule_Action rule = ''require'' then evaluateRequire rule r
      else None)"

definition Evaluate :: "Policy list \<Rightarrow> Resource list \<Rightarrow> Violation list" where
  "Evaluate policies resources =
     concat (map (\<lambda>policy. concat (map (\<lambda>rule. concat (map (\<lambda>r.
       case evaluateRule rule r of Some v \<Rightarrow> [v] | None \<Rightarrow> []) resources)) (pol_Rules policy))) policies)"

subsection \<open>Reporting\<close>

definition violation_error :: "Violation \<Rightarrow> ValidationError" where
  "violation_error v =
     \<lparr>ve_File = [], ve_Line = 0, ve_Column = 0,
      ve_Message = [Lit (''policy violation on '' @ res_FQN (vio_Resource v) @ '': '')] @ vio_Message v,
      ve_Hint = [Lit (''rule: '' @ rule_Action (vio_Rule v) @ '' '' @ rule_Resource (vio_Rule v) @ '' '' @
        rule_Subject (vio_Rule v))]\<rparr>"

definition Enforce :: "(Policy list \<Rightarrow> Resource list \<Rightarrow> Violation list) \<Rightarrow> Policy list \<Rightarrow> Resource list \<Rightarrow> ValidationError list" where
  "Enforce engine policies resources = map violation_error (engine policies resources)"

fun group_violations ::
  "Violation list \<Rightarrow> (string, Violation list) gomap \<Rightarrow> string list \<Rightarrow> (string, Violation list) gomap \<times> string list"
where
  "group_violations [] grouped order = (grouped, order)"
| "group_violations (v # vs) grouped order =
     (let key = res_Name (vio_Resource v);
          order = (if mget grouped key = None then order @ [key] else order)
      in group_violations vs (mput key (mget0 [] grouped key @ [v]) grouped) order)"

definition line_break :: string where
  "line_break = [CHR 0x0A]"

definition format_violation :: "Violation \<Rightarrow> part list" where
  "format_violation v =
     [Lit (''  ['' @ rule_Action (vio_Rule v) @ ''] '')] @ vio_Message v @ [Lit line_break] @
     (if vio_Details v \<noteq> [] then [Lit ''    ''] @ vio_Details v @ [Lit line_break] else [])"

definition FormatViolations :: "Violation list \<Rightarrow> EvalMode \<Rightarrow> part list" where
  "FormatViolations violations mode =
     (if violations = [] then []
      else let prefix = (if mode = ModeWarn then ''WARNING'' else ''ERROR'');
               (grouped, order) = group_violations violations [] []
           in concat (map (\<lambda>key. [Lit (line_break @ prefix @ '' ['' @ key @ '']:'' @ line_break)] @
                concat (map format_violation (mget0 [] grouped key))) order))"

text \<open>
  The check before a plan is applied: the error that stops the command on the left, the warning
  printed on the right.
\<close>

definition apply_policy_check :: "EvalMode \<Rightarrow> Document \<Rightarrow> part list + part list" where
  "apply_policy_check mode doc =
     (if doc_Policies doc \<noteq> [] then
        let violations = Evaluate (doc_Policies doc) (doc_Resources doc)
        in if violations \<noteq> [] then
             let output = FormatViolations violations mode
             in if mode = ModeEnforce then Inl ([Lit ''policy violations found:''] @ output)
                else Inr ([Lit ''Policy warnings:''] @ output @ [Lit line_break])
           else Inr []
      else Inr [])"

subsection \<open>What a rule means\<close>

text \<open>A pinned reference ends in a version behind its last \<open>@\<close>.\<close>

definition pinned :: "string \<Rightarrow> bool" where
  "pinned ref \<longleftrightarrow> (\<exists>a v. ref = a @ ''@'' @ v \<and> CHR ''@'' \<notin> set v \<and> v \<noteq> [] \<and> v \<noteq> ''latest'')"

definition meets :: "string \<Rightarrow> Resource \<Rightarrow> bool" where
  "meets subject r \<longleftrightarrow>
     subject = ''signed packages'' \<or>
     subject = ''pinned imports'' \<and> (\<forall>ref \<in> set (res_References r). pinned ref) \<or>
     (\<exists>n secrets. subject = ''secret '' @ n \<and> mget (res_Metadata r) ''secrets'' = Some (IMap secrets) \<and>
        mget secrets n \<noteq> None)"

definition violates :: "Rule \<Rightarrow> Resource \<Rightarrow> bool" where
  "violates rule r \<longleftrightarrow>
     (rule_Resource rule = ''*'' \<or> rule_Resource rule = res_Kind r) \<and>
     (rule_Action rule = ''deny'' \<and>
        (\<forall>b. rule_Subject rule = ''command '' @ b \<longrightarrow> mget (res_Attributes r) ''binary'' = Some (IString b)) \<or>
      rule_Action rule = ''require'' \<and> \<not> meets (rule_Subject rule) r)"

lemma hasVersionPin_iff: "hasVersionPin ref \<longleftrightarrow> pinned ref"
proof (cases "CHR ''@'' \<in> set ref")
  case True
  from split_list_last [OF this] obtain a v where ref: "ref = a @ CHR ''@'' # v" and v: "CHR ''@'' \<notin> set v" by blast
  have "pinned ref \<longleftrightarrow> v \<noteq> [] \<and> v \<noteq> ''latest''"
  proof
    assume "pinned ref"
    then obtain a' v' where v': "ref = a' @ CHR ''@'' # v'" "CHR ''@'' \<notin> set v'" "v' \<noteq> [] \<and> v' \<noteq> ''latest''"
      by (auto simp: pinned_def)
    have "length a' = length a"
      using LastIndex_append [OF v'(2), of a'] LastIndex_append [OF v, of a] unfolding v'(1) [symmetric] ref [symmetric]
      by simp
    then show "v \<noteq> [] \<and> v \<noteq> ''latest''" using v'(1,3) ref by simp
  next
    assume "v \<noteq> [] \<and> v \<noteq> ''latest''"
    then show "pinned ref" unfolding pinned_def using ref v by (intro exI [of _ a] exI [of _ v]) simp
  qed
  moreover have "hasVersionPin ref \<longleftrightarrow> v \<noteq> [] \<and> v \<noteq> ''latest''"
    unfolding ref hasVersionPin_def LastIndex_append [OF v] by simp
  ultimately show ?thesis by simp
next
  case False
  then have "LastIndex ref (CHR ''@'') = None" by (simp add: LastIndex_None)
  then have "\<not> hasVersionPin ref" by (simp add: hasVersionPin_def)
  moreover have "\<not> pinned ref" using False by (auto simp: pinned_def)
  ultimately show ?thesis by simp
qed

lemma pinned_loop_iff: "pinned_loop refs \<longleftrightarrow> (\<forall>ref \<in> set refs. hasVersionPin ref)"
  by (induction refs) auto

lemma checkRequirement_iff: "checkRequirement subject r \<longleftrightarrow> meets subject r"
proof (cases "HasPrefix subject ''secret ''")
  case True
  then obtain n where n: "subject = ''secret '' @ n" by (auto simp only: HasPrefix_iff)
  have "checkRequirement subject r = checkSecret n r"
    unfolding n checkRequirement_def TrimPrefix_append by (simp add: HasPrefix_def)
  then show ?thesis
    by (auto simp: n meets_def checkSecret_def split: option.splits ivalue.splits)
next
  case False
  then have "\<not> (\<exists>n. subject = ''secret '' @ n)" by (simp only: HasPrefix_iff) blast
  with False show ?thesis
    by (auto simp: meets_def checkRequirement_def checkSignedPackages_def checkPinnedImports_def pinned_loop_iff
      hasVersionPin_iff)
qed

lemma evaluateRule_iff: "evaluateRule rule r \<noteq> None \<longleftrightarrow> violates rule r"
proof -
  have pat: "matchesPattern (rule_Resource rule) (res_Kind r) \<longleftrightarrow>
      rule_Resource rule = ''*'' \<or> rule_Resource rule = res_Kind r" by (simp add: matchesPattern_def)
  have deny: "evaluateDeny rule r \<noteq> None \<longleftrightarrow> matchesPattern (rule_Resource rule) (res_Kind r) \<and>
      (\<forall>b. rule_Subject rule = ''command '' @ b \<longrightarrow> mget (res_Attributes r) ''binary'' = Some (IString b))"
  proof (cases "HasPrefix (rule_Subject rule) ''command ''")
    case True
    then obtain b where b: "rule_Subject rule = ''command '' @ b" by (auto simp only: HasPrefix_iff)
    show ?thesis unfolding evaluateDeny_def b TrimPrefix_append by (simp add: HasPrefix_def)
  next
    case False
    then have "\<not> (\<exists>b. rule_Subject rule = ''command '' @ b)" by (simp only: HasPrefix_iff) blast
    with False show ?thesis unfolding evaluateDeny_def by auto
  qed
  have require: "evaluateRequire rule r \<noteq> None \<longleftrightarrow> matchesPattern (rule_Resource rule) (res_Kind r) \<and>
      \<not> meets (rule_Subject rule) r" by (simp add: evaluateRequire_def checkRequirement_iff)
  show ?thesis
    using deny require unfolding evaluateRule_def violates_def pat by auto
qed

lemma evaluateRule_Some: "evaluateRule rule r = Some v \<Longrightarrow> vio_Rule v = rule \<and> vio_Resource v = r"
  by (auto simp: evaluateRule_def evaluateDeny_def evaluateRequire_def Let_def split: if_splits)

subsection \<open>The engine\<close>

text \<open>
  What \<open>Enforce\<close> relies on in an engine: the violations it returns are violations of the given
  rules by the given resources, and none of these is left out.
\<close>

locale policy_engine =
  fixes engine :: "Policy list \<Rightarrow> Resource list \<Rightarrow> Violation list"
  assumes sound: "v \<in> set (engine ps rs) \<Longrightarrow>
      (\<exists>p \<in> set ps. vio_Rule v \<in> set (pol_Rules p)) \<and> vio_Resource v \<in> set rs \<and> violates (vio_Rule v) (vio_Resource v)"
    and complete: "p \<in> set ps \<Longrightarrow> rule \<in> set (pol_Rules p) \<Longrightarrow> r \<in> set rs \<Longrightarrow> violates rule r \<Longrightarrow>
      \<exists>v \<in> set (engine ps rs). vio_Rule v = rule \<and> vio_Resource v = r"
begin

lemma engine_Nil:
  "engine ps rs = [] \<longleftrightarrow> (\<forall>p \<in> set ps. \<forall>rule \<in> set (pol_Rules p). \<forall>r \<in> set rs. \<not> violates rule r)"
proof
  assume "engine ps rs = []"
  then show "\<forall>p \<in> set ps. \<forall>rule \<in> set (pol_Rules p). \<forall>r \<in> set rs. \<not> violates rule r"
    using complete [of _ ps _ _ rs] by fastforce
next
  assume none: "\<forall>p \<in> set ps. \<forall>rule \<in> set (pol_Rules p). \<forall>r \<in> set rs. \<not> violates rule r"
  show "engine ps rs = []"
  proof (cases "engine ps rs")
    case (Cons v vs)
    then show ?thesis using sound [of v ps rs] none by auto
  qed
qed

lemma Enforce_Nil:
  "Enforce engine ps rs = [] \<longleftrightarrow> (\<forall>p \<in> set ps. \<forall>rule \<in> set (pol_Rules p). \<forall>r \<in> set rs. \<not> violates rule r)"
  by (simp add: Enforce_def engine_Nil)

end

lemma set_case_option: "set (case x of Some v \<Rightarrow> [v] | None \<Rightarrow> []) = set_option x"
  by (cases x) auto

lemma Evaluate_iff:
  "v \<in> set (Evaluate ps rs) \<longleftrightarrow> (\<exists>p \<in> set ps. \<exists>rule \<in> set (pol_Rules p). \<exists>r \<in> set rs. evaluateRule rule r = Some v)"
  unfolding Evaluate_def set_concat set_map set_case_option by (simp add: elem_set eq_commute [of "Some v"])

interpretation default_engine: policy_engine Evaluate
proof
  fix v :: Violation and ps :: "Policy list" and rs :: "Resource list"
  assume "v \<in> set (Evaluate ps rs)"
  then obtain p rule r where in_ps: "p \<in> set ps" "rule \<in> set (pol_Rules p)" "r \<in> set rs"
    and v: "evaluateRule rule r = Some v"
    unfolding Evaluate_iff by blast
  have "violates rule r" using evaluateRule_iff [of rule r] v by simp
  with in_ps evaluateRule_Some [OF v]
  show "(\<exists>p \<in> set ps. vio_Rule v \<in> set (pol_Rules p)) \<and> vio_Resource v \<in> set rs \<and>
      violates (vio_Rule v) (vio_Resource v)"
    by (intro conjI bexI [of _ p]) simp_all
next
  fix p :: Policy and ps :: "Policy list" and rule :: Rule and r :: Resource and rs :: "Resource list"
  assume in_ps: "p \<in> set ps" "rule \<in> set (pol_Rules p)" "r \<in> set rs" and "violates rule r"
  then obtain v where v: "evaluateRule rule r = Some v" using evaluateRule_iff [of rule r] by auto
  have "v \<in> set (Evaluate ps rs)" unfolding Evaluate_iff using in_ps v by (intro bexI)
  with evaluateRule_Some [OF v] show "\<exists>v \<in> set (Evaluate ps rs). vio_Rule v = rule \<and> vio_Resource v = r"
    by (intro bexI [of _ v])
qed


text \<open>The report groups the violations by resource and loses none.\<close>

lemma group_violations_mset:
  assumes "group_violations vs grouped order = (grouped', order')" "set order = {k. mget grouped k \<noteq> None}" "distinct order"
  shows "set order' = {k. mget grouped' k \<noteq> None} \<and> distinct order' \<and>
    mset (concat (map (mget0 [] grouped') order')) = mset (concat (map (mget0 [] grouped) order)) + mset vs"
  using assms
proof (induction vs arbitrary: grouped order)
  case (Cons v vs)
  let ?key = "res_Name (vio_Resource v)"
  let ?g = "mput ?key (mget0 [] grouped ?key @ [v]) grouped"
  let ?o = "if mget grouped ?key = None then order @ [?key] else order"
  have o: "set ?o = {k. mget ?g k \<noteq> None}" "distinct ?o" using Cons.prems(2,3) by auto
  have other: "?key \<notin> set ks \<Longrightarrow> map (mget0 [] ?g) ks = map (mget0 [] grouped) ks" for ks by auto
  have step: "mset (concat (map (mget0 [] ?g) ?o)) = mset (concat (map (mget0 [] grouped) order)) + {#v#}"
  proof (cases "mget grouped ?key")
    case None
    then have "?key \<notin> set order" using Cons.prems(2) by auto
    then have "map (mget0 [] ?g) order = map (mget0 [] grouped) order" by (rule other)
    then have "concat (map (mget0 [] ?g) (order @ [?key])) = concat (map (mget0 [] grouped) order) @ mget0 [] ?g ?key"
      by (simp only: map_append concat_append list.map concat.simps append_Nil2)
    with None show ?thesis by (simp add: mget0_def)
  next
    case (Some xs)
    then have "?key \<in> set order" using Cons.prems(2) by auto
    then obtain as bs where ab: "order = as @ ?key # bs" by (meson split_list)
    with Cons.prems(3) have "?key \<notin> set as" "?key \<notin> set bs" by auto
    with Some ab show ?thesis by (simp add: other)
  qed
  have run: "group_violations vs ?g ?o = (grouped', order')"
    using Cons.prems(1) by (simp only: group_violations.simps Let_def)
  note IH = Cons.IH [OF run o]
  have "mset (concat (map (mget0 [] grouped') order')) =
      mset (concat (map (mget0 [] grouped) order)) + {#v#} + mset vs"
    using IH unfolding step by (rule conjunct2 [THEN conjunct2])
  then have "mset (concat (map (mget0 [] grouped') order')) =
      mset (concat (map (mget0 [] grouped) order)) + mset (v # vs)" by simp
  with IH show ?case by blast
qed simp

text \<open>So nothing is lost in the report.\<close>

lemma group_violations_complete:
  "group_violations vs [] [] = (grouped, order) \<Longrightarrow> mset (concat (map (mget0 [] grouped) order)) = mset vs"
  using group_violations_mset [of vs "[]" "[]" grouped order] by simp

subsection \<open>Policies of a source file\<close>

definition lowered_policy :: "Statement \<Rightarrow> Policy list" where
  "lowered_policy st = (case st of StmtPolicy p \<Rightarrow> [lower_policy p] | _ \<Rightarrow> [])"

lemma lower_state_policies:
  "lower_state env rng s doc = Some (Inr doc') \<Longrightarrow> doc_Policies doc' = doc_Policies doc"
  by (auto simp: lower_state_def split: if_splits bind_splits sum.splits)

lemma lower_statement_policies:
  "lower_statement CH env rng pkg st doc = Some (Inr doc') \<Longrightarrow>
     doc_Policies doc' = doc_Policies doc @ lowered_policy st"
  by (cases st) (auto simp: lower_statement_def lowered_policy_def add_resource_def dest: lower_state_policies)

lemma lower_statements_policies:
  "lower_statements CH env rng pkg sts doc = Some (Inr doc') \<Longrightarrow>
     doc_Policies doc' = doc_Policies doc @ concat (map lowered_policy sts)"
  by (induction sts arbitrary: doc)
    (auto dest!: lower_statement_policies split: bind_splits sum.splits)

lemma Lower_policies:
  "Lower CH env rng f = Some (Inr doc) \<Longrightarrow> doc_Policies doc = concat (map lowered_policy (file_Statements f))"
  by (auto simp: Lower_def dest: lower_statements_policies split: option.splits bind_splits sum.splits)

text \<open>The binary of a command tool is an entry of the attribute \<open>tool\<close>, not an attribute.\<close>

lemma lowered_no_binary: "r \<in> set (lowered CH pkg st) \<Longrightarrow> mget (res_Attributes r) ''binary'' = None"
  by (cases st) (simp_all add: lowered_def lower_resource_defs agent_attrs_def Let_def split: option.splits)

text \<open>
  C34. A policy whose rules begin with a word that is neither \<open>*\<close> nor the kind of a resource, such
  as \<open>model\<close>, \<open>skill\<close> or \<open>secret\<close>, or deny a command, is never violated by the document of its file:
  the check before a plan is applied passes without a warning. The first word of a rule is compared
  with the kinds of resources, letter by letter, and no resource has an attribute \<open>binary\<close>.
\<close>

theorem documented_rules_never_block:
  assumes "Lower ComputeHash LookupEnv rng f = Some (Inr doc)"
    and "\<And>p rule. StmtPolicy p \<in> set (file_Statements f) \<Longrightarrow> rule \<in> set (apl_Rules p) \<Longrightarrow>
      rul_Resource rule \<notin> set (''*'' # resource_kinds) \<or>
      rul_Action rule = ''deny'' \<and> HasPrefix (rul_Subject rule) ''command ''"
  shows "apply_policy_check mode doc = Inr []"
proof -
  have "\<not> violates rule r"
    if p: "p \<in> set (doc_Policies doc)" "rule \<in> set (pol_Rules p)" and r: "r \<in> set (doc_Resources doc)" for p rule r
  proof -
    from Lower_resources [OF assms(1)] r obtain st pkg where st: "r \<in> set (lowered ComputeHash pkg st)" by auto
    from p obtain ap ar where ap: "StmtPolicy ap \<in> set (file_Statements f)" "ar \<in> set (apl_Rules ap)"
      "rule = lower_rule ar"
      by (auto simp: Lower_policies [OF assms(1)] lowered_policy_def lower_policy_def split: Statement.splits)
    from assms(2) [OF ap(1,2)] show ?thesis
    proof
      assume "rul_Resource ar \<notin> set (''*'' # resource_kinds)"
      then show ?thesis using lowered_identity(4) [OF st] by (auto simp: violates_def ap(3) lower_rule_def)
    next
      assume "rul_Action ar = ''deny'' \<and> HasPrefix (rul_Subject ar) ''command ''"
      moreover from this obtain b where "rul_Subject ar = ''command '' @ b" unfolding HasPrefix_iff by blast
      ultimately show ?thesis using lowered_no_binary [OF st] by (simp add: violates_def ap(3) lower_rule_def)
    qed
  qed
  then have "Evaluate (doc_Policies doc) (doc_Resources doc) = []" by (simp add: default_engine.engine_Nil)
  then show ?thesis by (simp add: apply_policy_check_def)
qed

subsection \<open>Instances\<close>




definition sample_policy_file :: File where
  "sample_policy_file = \<lparr>file_Path = ''f'',
     file_Package = Some ((new_ast_Package zero_Pos)\<lparr>apk_Name := ''p'', apk_LangVersion := ''3.0''\<rparr>),
     file_Statements =
       [StmtAgent ((new_Agent zero_Pos)\<lparr>ag_Name := ''a'', ag_Model := ''small''\<rparr>),
        StmtPolicy ((new_ast_Policy zero_Pos)\<lparr>apl_Name := ''q'',
          apl_Rules := [(new_ast_Rule zero_Pos)\<lparr>rul_Action := ''deny'', rul_Resource := ''model'', rul_Subject := ''small''\<rparr>]\<rparr>)],
     file_StartPos = zero_Pos, file_EndPos = zero_Pos\<rparr>"

definition sample_policy_doc :: Document where
  "sample_policy_doc =
     (case Lower (\<lambda>_. ''h'') (\<lambda>_. None) (\<lambda>ks. ks) sample_policy_file of Some (Inr doc) \<Rightarrow> doc)"

lemma sample_policy_lowers:
  "Lower (\<lambda>_. ''h'') (\<lambda>_. None) (\<lambda>ks. ks) sample_policy_file = Some (Inr sample_policy_doc)"
  by code_simp

theorem documented_rules_never_block_witness:
  "apply_policy_check ModeEnforce sample_policy_doc = Inr []"
proof (rule documented_rules_never_block [OF sample_policy_lowers])
  fix p rule
  assume "StmtPolicy p \<in> set (file_Statements sample_policy_file)" "rule \<in> set (apl_Rules p)"
  then show "rul_Resource rule \<notin> set (''*'' # resource_kinds) \<or>
      rul_Action rule = ''deny'' \<and> HasPrefix (rul_Subject rule) ''command ''"
    by (auto simp: sample_policy_file_def resource_kinds_def)
qed

end
