(* ===== verification/Conversation_Memory.thy ===== *)
theory Conversation_Memory
  imports IR
begin

text \<open>
  The conversation memory of \<open>internal/memory\<close>: the tracker of recently used sessions (\<open>lru.go\<close>),
  the sliding window (\<open>sliding.go\<close>) and the store that summarizes old messages (\<open>summary.go\<close>). Both
  stores implement the interface of \<open>memory.go\<close>, which is a locale here: as long as the sessions
  in use fit, a store returns what its retention rule keeps of the messages saved.
\<close>

subsection \<open>Messages\<close>

record ToolCall =
  tcall_ID :: string
  tcall_Name :: string
  tcall_Input :: "(string, ivalue) gomap"

record ToolResult =
  tres_ToolUseID :: string
  tres_Content :: string
  tres_IsError :: bool

record Message =
  msg_Role :: string
  msg_Content :: string
  msg_ToolCalls :: "ToolCall list"
  msg_ToolResult :: "ToolResult option"

definition RoleUser :: string where "RoleUser = ''user''"

definition RoleAssistant :: string where "RoleAssistant = ''assistant''"

definition text_message :: "string \<Rightarrow> string \<Rightarrow> Message" where
  "text_message role content =
     \<lparr>msg_Role = role, msg_Content = content, msg_ToolCalls = [], msg_ToolResult = None\<rparr>"

type_synonym sessions = "(string, Message list) gomap"

subsection \<open>Recently used sessions\<close>

text \<open>
  The list has the most recent session at its front. A session occurs in it at most once, so an
  element of the list is named by its value.
\<close>

record LRU =
  lru_order :: "string list"
  lru_elements :: "(string, string) gomap"

definition NewLRU :: LRU where
  "NewLRU = \<lparr>lru_order = [], lru_elements = []\<rparr>"

definition Promote :: "string \<Rightarrow> LRU \<Rightarrow> LRU" where
  "Promote sessionID l =
     (case mget (lru_elements l) sessionID of
        Some elem \<Rightarrow> l\<lparr>lru_order := elem # remove1 elem (lru_order l)\<rparr>
      | None \<Rightarrow> \<lparr>lru_order = sessionID # lru_order l, lru_elements = mput sessionID sessionID (lru_elements l)\<rparr>)"

definition Evict :: "LRU \<Rightarrow> string \<times> LRU" where
  "Evict l =
     (if lru_order l = [] then ([], l)
      else let sessionID = last (lru_order l)
           in (sessionID, \<lparr>lru_order = butlast (lru_order l), lru_elements = mdel sessionID (lru_elements l)\<rparr>))"

definition LRU_Remove :: "string \<Rightarrow> LRU \<Rightarrow> LRU" where
  "LRU_Remove sessionID l =
     (case mget (lru_elements l) sessionID of
        Some elem \<Rightarrow> \<lparr>lru_order = remove1 elem (lru_order l), lru_elements = mdel sessionID (lru_elements l)\<rparr>
      | None \<Rightarrow> l)"

definition LRU_Len :: "LRU \<Rightarrow> int" where
  "LRU_Len l = int (length (lru_order l))"

text \<open>The loop of both stores that removes the sessions beyond the limit.\<close>

function evict_sessions :: "int \<Rightarrow> LRU \<Rightarrow> sessions \<Rightarrow> LRU \<times> sessions" where
  "evict_sessions maxSessions l sessions =
     (if LRU_Len l > maxSessions then
        let (victim, l) = Evict l
        in if victim = [] then (l, sessions) else evict_sessions maxSessions l (mdel victim sessions)
      else (l, sessions))"
  by pat_completeness auto

termination evict_sessions
  by (relation "measure (\<lambda>(_, l, _). length (lru_order l))") (auto simp: Evict_def Let_def split: if_splits)

declare evict_sessions.simps [simp del]

subsection \<open>The sliding window\<close>

record SlidingWindow =
  sw_maxMessages :: int
  sw_maxSessions :: int
  sw_sessions :: sessions
  sw_lru :: LRU

definition WithMaxSessions :: "int \<Rightarrow> SlidingWindow \<Rightarrow> SlidingWindow" where
  "WithMaxSessions n s = (if n > 0 then s\<lparr>sw_maxSessions := n\<rparr> else s)"

definition NewSlidingWindow :: "int \<Rightarrow> (SlidingWindow \<Rightarrow> SlidingWindow) list \<Rightarrow> SlidingWindow" where
  "NewSlidingWindow maxMessages opts =
     (let maxMessages = (if maxMessages \<le> 0 then 50 else maxMessages)
      in fold (\<lambda>opt s. opt s) opts
           \<lparr>sw_maxMessages = maxMessages, sw_maxSessions = 10000, sw_sessions = [], sw_lru = NewLRU\<rparr>)"

definition Window_Load :: "SlidingWindow \<Rightarrow> string \<Rightarrow> Message list \<times> SlidingWindow" where
  "Window_Load s sessionID =
     (mget0 [] (sw_sessions s) sessionID, s\<lparr>sw_lru := Promote sessionID (sw_lru s)\<rparr>)"

definition Window_Save :: "SlidingWindow \<Rightarrow> string \<Rightarrow> Message list \<Rightarrow> SlidingWindow" where
  "Window_Save s sessionID messages =
     (let existing = mget0 [] (sw_sessions s) sessionID @ messages;
          existing = (if int (length existing) > sw_maxMessages s
                      then drop (length existing - nat (sw_maxMessages s)) existing else existing);
          (l, sessions) = evict_sessions (sw_maxSessions s) (Promote sessionID (sw_lru s))
                            (mput sessionID existing (sw_sessions s))
      in s\<lparr>sw_sessions := sessions, sw_lru := l\<rparr>)"

definition Window_Clear :: "SlidingWindow \<Rightarrow> string \<Rightarrow> SlidingWindow" where
  "Window_Clear s sessionID =
     s\<lparr>sw_sessions := mdel sessionID (sw_sessions s), sw_lru := LRU_Remove sessionID (sw_lru s)\<rparr>"

subsection \<open>Summaries\<close>

text \<open>
  The language model is an argument: it maps the prompt to the text of its answer, or to no
  answer. \<open>Summary_Save\<close> returns whether it succeeded.
\<close>

record Summary =
  sum_threshold :: int
  sum_maxSessions :: int
  sum_sessions :: sessions
  sum_lru :: LRU

definition WithSummaryMaxSessions :: "int \<Rightarrow> Summary \<Rightarrow> Summary" where
  "WithSummaryMaxSessions n s = (if n > 0 then s\<lparr>sum_maxSessions := n\<rparr> else s)"

definition NewSummary :: "int \<Rightarrow> (Summary \<Rightarrow> Summary) list \<Rightarrow> Summary" where
  "NewSummary threshold opts =
     (let threshold = (if threshold \<le> 0 then 20 else threshold)
      in fold (\<lambda>opt s. opt s) opts
           \<lparr>sum_threshold = threshold, sum_maxSessions = 10000, sum_sessions = [], sum_lru = NewLRU\<rparr>)"

definition Summary_Load :: "Summary \<Rightarrow> string \<Rightarrow> Message list \<times> Summary" where
  "Summary_Load s sessionID =
     (mget0 [] (sum_sessions s) sessionID, s\<lparr>sum_lru := Promote sessionID (sum_lru s)\<rparr>)"

definition summary_prompt :: "Message list \<Rightarrow> string" where
  "summary_prompt toSummarize =
     ''Summarize this conversation concisely, preserving key facts and decisions:'' @ [CHR 0x0A, CHR 0x0A] @
     concat (map (\<lambda>m. msg_Role m @ '': '' @ msg_Content m @ [CHR 0x0A]) toSummarize)"

definition summarize :: "(string \<Rightarrow> string option) \<Rightarrow> Summary \<Rightarrow> string \<Rightarrow> bool \<times> Summary" where
  "summarize Chat s sessionID =
     (let msgs = mget0 [] (sum_sessions s) sessionID in
      if int (length msgs) \<le> sum_threshold s then (True, s)
      else
        let keepCount = nat (sum_threshold s div 2);
            toSummarize = take (length msgs - keepCount) msgs;
            toKeep = drop (length msgs - keepCount) msgs
        in case Chat (summary_prompt toSummarize) of
             None \<Rightarrow> (False, s)
           | Some content \<Rightarrow>
               let summarized = text_message RoleAssistant (''[Previous conversation summary: '' @ content @ '']'') # toKeep
               in (True, s\<lparr>sum_sessions := mput sessionID summarized (sum_sessions s)\<rparr>))"

definition Summary_Save :: "(string \<Rightarrow> string option) \<Rightarrow> Summary \<Rightarrow> string \<Rightarrow> Message list \<Rightarrow> bool \<times> Summary" where
  "Summary_Save Chat s sessionID messages =
     (let existing = mget0 [] (sum_sessions s) sessionID @ messages;
          needsSummary = (int (length existing) > sum_threshold s);
          (l, sessions) = evict_sessions (sum_maxSessions s) (Promote sessionID (sum_lru s))
                            (mput sessionID existing (sum_sessions s));
          s = s\<lparr>sum_sessions := sessions, sum_lru := l\<rparr>
      in if needsSummary then summarize Chat s sessionID else (True, s))"

definition Summary_Clear :: "Summary \<Rightarrow> string \<Rightarrow> Summary" where
  "Summary_Clear s sessionID =
     s\<lparr>sum_sessions := mdel sessionID (sum_sessions s), sum_lru := LRU_Remove sessionID (sum_lru s)\<rparr>"

subsection \<open>The tracker\<close>

definition lru_ok :: "LRU \<Rightarrow> bool" where
  "lru_ok l \<longleftrightarrow> distinct (lru_order l) \<and>
     (\<forall>k. mget (lru_elements l) k = (if k \<in> set (lru_order l) then Some k else None))"

lemma NewLRU_ok [simp]: "lru_ok NewLRU"
  by (simp add: lru_ok_def NewLRU_def)

lemma Promote_order:
  assumes "lru_ok l"
  shows "lru_order (Promote k l) = k # remove1 k (lru_order l)"
  using assms by (auto simp: lru_ok_def Promote_def remove1_idem)

lemma Promote_ok [simp]:
  assumes "lru_ok l"
  shows "lru_ok (Promote k l)" "set (lru_order (Promote k l)) = insert k (set (lru_order l))"
  using assms by (auto simp: lru_ok_def Promote_def remove1_idem)

lemma LRU_Remove_ok [simp]:
  assumes "lru_ok l"
  shows "lru_ok (LRU_Remove k l)" "set (lru_order (LRU_Remove k l)) = set (lru_order l) - {k}"
  using assms by (auto simp: lru_ok_def LRU_Remove_def)

lemma Evict_ok:
  assumes "lru_ok l" "lru_order l = xs @ [x]"
  shows "Evict l = (x, \<lparr>lru_order = xs, lru_elements = mdel x (lru_elements l)\<rparr>)" "lru_ok (snd (Evict l))"
  using assms by (auto simp: lru_ok_def Evict_def Let_def)

text \<open>Eviction takes sessions from the back of the list, and never its front.\<close>

lemma evict_sessions_front:
  assumes "lru_ok l" "lru_order l = k # ks" "0 < maxSessions"
  shows "case evict_sessions maxSessions l sessions of (l', sessions') \<Rightarrow>
    lru_ok l' \<and> set (lru_order l') \<subseteq> set (lru_order l) \<and> mget sessions' k = mget sessions k"
  using assms
proof (induction maxSessions l sessions arbitrary: ks rule: evict_sessions.induct)
  case (1 maxSessions l sessions)
  show ?case
  proof (cases "LRU_Len l > maxSessions")
    case False
    then show ?thesis using 1 by (simp add: evict_sessions.simps [of maxSessions l])
  next
    case True
    then have "ks \<noteq> []" using 1(3,4) by (auto simp: LRU_Len_def)
    then obtain ys y where ks: "ks = ys @ [y]" by (metis rev_exhaust)
    have ev: "Evict l = (y, \<lparr>lru_order = k # ys, lru_elements = mdel y (lru_elements l)\<rparr>)"
      "lru_ok \<lparr>lru_order = k # ys, lru_elements = mdel y (lru_elements l)\<rparr>"
      using Evict_ok [OF 1(2), of "k # ys" y] 1(3) by (simp_all add: ks)
    have "y \<noteq> k" using 1(2,3) by (auto simp: lru_ok_def ks)
    show ?thesis
    proof (cases "y = []")
      case True
      then show ?thesis using \<open>LRU_Len l > maxSessions\<close> ev 1(3)
        by (auto simp: evict_sessions.simps [of maxSessions l] ks)
    next
      case False
      have "case evict_sessions maxSessions \<lparr>lru_order = k # ys, lru_elements = mdel y (lru_elements l)\<rparr> (mdel y sessions) of
          (l', sessions') \<Rightarrow> lru_ok l' \<and> set (lru_order l') \<subseteq> insert k (set ys) \<and> mget sessions' k = mget (mdel y sessions) k"
        using 1(1) [OF True ev(1) [symmetric] refl False, of ys] ev(2) 1(4) by simp
      with \<open>y \<noteq> k\<close> False \<open>LRU_Len l > maxSessions\<close> ev(1) 1(3) show ?thesis
        by (auto simp: evict_sessions.simps [of maxSessions l] ks split: prod.splits)
    qed
  qed
qed

lemma evict_sessions_fits: "LRU_Len l \<le> maxSessions \<Longrightarrow> evict_sessions maxSessions l sessions = (l, sessions)"
  by (simp add: evict_sessions.simps)

lemma Promote_fits:
  assumes "lru_ok l" "int (card (insert k (set (lru_order l)))) \<le> maxSessions"
  shows "LRU_Len (Promote k l) \<le> maxSessions"
proof -
  have "distinct (lru_order (Promote k l))" using assms(1) Promote_ok(1) unfolding lru_ok_def by blast
  then show ?thesis using assms distinct_card [of "lru_order (Promote k l)"] by (simp add: LRU_Len_def)
qed

subsection \<open>The interface of a store\<close>

datatype memory_op = LoadOp string | SaveOp string "Message list" | ClearOp string

fun op_session :: "memory_op \<Rightarrow> string" where
  "op_session (LoadOp k) = k"
| "op_session (SaveOp k ms) = k"
| "op_session (ClearOp k) = k"

fun run_memory ::
  "('s \<Rightarrow> string \<Rightarrow> Message list \<times> 's) \<Rightarrow> ('s \<Rightarrow> string \<Rightarrow> Message list \<Rightarrow> 's) \<Rightarrow> ('s \<Rightarrow> string \<Rightarrow> 's)
    \<Rightarrow> memory_op list \<Rightarrow> 's \<Rightarrow> 's"
where
  "run_memory load save clear [] s = s"
| "run_memory load save clear (LoadOp k # ops) s = run_memory load save clear ops (snd (load s k))"
| "run_memory load save clear (SaveOp k ms # ops) s = run_memory load save clear ops (save s k ms)"
| "run_memory load save clear (ClearOp k # ops) s = run_memory load save clear ops (clear s k)"

text \<open>What a retention rule keeps of the messages of one session, operation by operation.\<close>

fun kept :: "(Message list \<Rightarrow> Message list) \<Rightarrow> string \<Rightarrow> memory_op list \<Rightarrow> Message list \<Rightarrow> Message list" where
  "kept retain k [] h = h"
| "kept retain k (LoadOp k' # ops) h = kept retain k ops h"
| "kept retain k (SaveOp k' ms # ops) h = kept retain k ops (if k' = k then retain (h @ ms) else h)"
| "kept retain k (ClearOp k' # ops) h = kept retain k ops (if k' = k then [] else h)"

locale memory_store =
  fixes contents :: "'s \<Rightarrow> string \<Rightarrow> Message list"
    and load :: "'s \<Rightarrow> string \<Rightarrow> Message list \<times> 's"
    and save :: "'s \<Rightarrow> string \<Rightarrow> Message list \<Rightarrow> 's"
    and clear :: "'s \<Rightarrow> string \<Rightarrow> 's"
    and inv :: "'s \<Rightarrow> bool"
    and tracked :: "'s \<Rightarrow> string set"
    and room :: int
    and retain :: "Message list \<Rightarrow> Message list"
  assumes tracked_finite: "finite (tracked s)"
    and load_result: "inv s \<Longrightarrow> fst (load s k) = contents s k"
    and load_keeps: "inv s \<Longrightarrow> inv (snd (load s k)) \<and> contents (snd (load s k)) = contents s \<and>
      tracked (snd (load s k)) \<subseteq> insert k (tracked s)"
    and save_keeps: "inv s \<Longrightarrow> inv (save s k ms) \<and> tracked (save s k ms) \<subseteq> insert k (tracked s)"
    and save_same: "inv s \<Longrightarrow> contents (save s k ms) k = retain (contents s k @ ms)"
    and save_other: "inv s \<Longrightarrow> k' \<noteq> k \<Longrightarrow> int (card (insert k (tracked s))) \<le> room \<Longrightarrow>
      contents (save s k ms) k' = contents s k'"
    and clear_keeps: "inv s \<Longrightarrow> inv (clear s k) \<and> contents (clear s k) = (contents s)(k := []) \<and>
      tracked (clear s k) \<subseteq> tracked s"
begin

lemma run_contents:
  assumes "inv s" "int (card (tracked s \<union> op_session ` set ops)) \<le> room"
  shows "fst (load (run_memory load save clear ops s) k) = kept retain k ops (contents s k)"
  using assms
proof (induction ops arbitrary: s)
  case Nil
  then show ?case by (simp add: load_result)
next
  case (Cons oper ops)
  have fits: "int (card (tracked s' \<union> op_session ` set ops)) \<le> room" if "tracked s' \<subseteq> insert (op_session oper) (tracked s)" for s'
  proof -
    have "card (tracked s' \<union> op_session ` set ops) \<le> card (tracked s \<union> op_session ` set (oper # ops))"
      using that by (intro card_mono) (auto simp: tracked_finite)
    with Cons.prems(2) show ?thesis by simp
  qed
  have here: "int (card (insert (op_session oper) (tracked s))) \<le> room"
  proof -
    have "card (insert (op_session oper) (tracked s)) \<le> card (tracked s \<union> op_session ` set (oper # ops))"
      by (intro card_mono) (auto simp: tracked_finite)
    with Cons.prems(2) show ?thesis by simp
  qed
  show ?case
  proof (cases oper)
    case (LoadOp k')
    then show ?thesis using Cons.IH [of "snd (load s k')"] load_keeps [OF Cons.prems(1), of k'] fits by simp
  next
    case (SaveOp k' ms)
    have "contents (save s k' ms) k = (if k' = k then retain (contents s k @ ms) else contents s k)"
      using save_same [OF Cons.prems(1), of k' ms] save_other [OF Cons.prems(1), of k k' ms] here
      by (cases "k' = k") (auto simp: SaveOp)
    then show ?thesis
      using Cons.IH [of "save s k' ms"] save_keeps [OF Cons.prems(1), of k' ms] fits by (simp add: SaveOp)
  next
    case (ClearOp k')
    have "tracked (clear s k') \<subseteq> insert (op_session oper) (tracked s)" using clear_keeps [OF Cons.prems(1), of k'] by blast
    then show ?thesis
      using Cons.IH [of "clear s k'"] clear_keeps [OF Cons.prems(1), of k'] fits by (simp add: ClearOp eq_commute)
  qed
qed

end

subsection \<open>Both stores implement it\<close>

definition last_n :: "int \<Rightarrow> 'a list \<Rightarrow> 'a list" where
  "last_n n xs = drop (length xs - nat n) xs"

definition window_inv :: "int \<Rightarrow> int \<Rightarrow> SlidingWindow \<Rightarrow> bool" where
  "window_inv n m s \<longleftrightarrow> sw_maxMessages s = n \<and> sw_maxSessions s = m \<and> 0 < n \<and> 0 < m \<and> lru_ok (sw_lru s)"

definition window_contents :: "SlidingWindow \<Rightarrow> string \<Rightarrow> Message list" where
  "window_contents s = mget0 [] (sw_sessions s)"

definition window_tracked :: "SlidingWindow \<Rightarrow> string set" where
  "window_tracked s = set (lru_order (sw_lru s))"

lemma evict_after_promote:
  assumes "lru_ok l" "0 < maxSessions" "evict_sessions maxSessions (Promote k l) sessions = (l', sessions')"
  shows "lru_ok l'" "set (lru_order l') \<subseteq> insert k (set (lru_order l))" "mget sessions' k = mget sessions k"
  using evict_sessions_front [OF Promote_ok(1) [OF assms(1), of k] Promote_order [OF assms(1)] assms(2),
      where sessions = sessions] assms by simp_all

lemma evict_after_promote_fits:
  assumes "lru_ok l" "int (card (insert k (set (lru_order l)))) \<le> maxSessions"
    "evict_sessions maxSessions (Promote k l) sessions = (l', sessions')"
  shows "sessions' = sessions"
  using evict_sessions_fits [OF Promote_fits [OF assms(1,2)], of sessions] assms(3) by simp

interpretation window: memory_store window_contents Window_Load Window_Save Window_Clear "window_inv n m"
  window_tracked m "last_n n" for n m :: int
proof
  fix s k k' and ms :: "Message list"
  show "finite (window_tracked s)" by (simp add: window_tracked_def)
  assume inv: "window_inv n m s"
  then have ok: "lru_ok (sw_lru s)" "0 < m" "sw_maxSessions s = m" "sw_maxMessages s = n" "0 < n"
    by (auto simp: window_inv_def)
  show "fst (Window_Load s k) = window_contents s k" by (simp add: Window_Load_def window_contents_def)
  show "window_inv n m (snd (Window_Load s k)) \<and> window_contents (snd (Window_Load s k)) = window_contents s \<and>
      window_tracked (snd (Window_Load s k)) \<subseteq> insert k (window_tracked s)"
    using inv ok(1) by (simp add: Window_Load_def window_inv_def window_contents_def window_tracked_def)
  show "window_inv n m (Window_Clear s k) \<and> window_contents (Window_Clear s k) = (window_contents s)(k := []) \<and>
      window_tracked (Window_Clear s k) \<subseteq> window_tracked s"
    using inv ok(1) by (auto simp: Window_Clear_def window_inv_def window_contents_def window_tracked_def mget0_def fun_eq_iff)
  let ?ex = "last_n n (mget0 [] (sw_sessions s) k @ ms)"
  obtain l' ss' where ev: "evict_sessions m (Promote k (sw_lru s)) (mput k ?ex (sw_sessions s)) = (l', ss')" by fastforce
  have save: "Window_Save s k ms = s\<lparr>sw_sessions := ss', sw_lru := l'\<rparr>"
  proof -
    have "(if int (length xs) > n then drop (length xs - nat n) xs else xs) = last_n n xs" for xs :: "Message list"
      using ok(5) by (auto simp: last_n_def)
    then show ?thesis unfolding Window_Save_def Let_def ok(3,4) by (simp only: ev prod.case)
  qed
  note after = evict_after_promote [OF ok(1,2) ev]
  show "window_inv n m (Window_Save s k ms) \<and> window_tracked (Window_Save s k ms) \<subseteq> insert k (window_tracked s)"
    using inv after by (simp add: save window_inv_def window_tracked_def)
  show "window_contents (Window_Save s k ms) k = last_n n (window_contents s k @ ms)"
    using after(3) by (simp add: save window_contents_def mget0_def)
  show "window_contents (Window_Save s k ms) k' = window_contents s k'"
    if "k' \<noteq> k" "int (card (insert k (window_tracked s))) \<le> m"
    using evict_after_promote_fits [OF ok(1) _ ev] that by (simp add: save window_contents_def window_tracked_def)
qed

definition summary_inv :: "int \<Rightarrow> int \<Rightarrow> Summary \<Rightarrow> bool" where
  "summary_inv n m s \<longleftrightarrow> sum_threshold s = n \<and> sum_maxSessions s = m \<and> 0 < n \<and> 0 < m \<and> lru_ok (sum_lru s)"

definition summary_contents :: "Summary \<Rightarrow> string \<Rightarrow> Message list" where
  "summary_contents s = mget0 [] (sum_sessions s)"

definition summary_tracked :: "Summary \<Rightarrow> string set" where
  "summary_tracked s = set (lru_order (sum_lru s))"

text \<open>Up to the threshold all messages are kept; beyond it the older ones become one message, if the model answers.\<close>

definition summarized :: "(string \<Rightarrow> string option) \<Rightarrow> int \<Rightarrow> Message list \<Rightarrow> Message list" where
  "summarized Chat n xs =
     (if int (length xs) \<le> n then xs
      else case Chat (summary_prompt (take (length xs - nat (n div 2)) xs)) of
             None \<Rightarrow> xs
           | Some c \<Rightarrow> text_message RoleAssistant (''[Previous conversation summary: '' @ c @ '']'') # last_n (n div 2) xs)"

lemma summarize_sessions:
  assumes "mget0 [] (sum_sessions s) k = xs"
  shows "\<exists>ss. snd (summarize Chat s k) = s\<lparr>sum_sessions := ss\<rparr> \<and>
    mget0 [] ss k = summarized Chat (sum_threshold s) xs \<and> (\<forall>k'. k' \<noteq> k \<longrightarrow> mget0 [] ss k' = mget0 [] (sum_sessions s) k')"
proof (cases "int (length xs) \<le> sum_threshold s \<or> Chat (summary_prompt (take (length xs - nat (sum_threshold s div 2)) xs)) = None")
  case True
  then show ?thesis using assms
    by (intro exI [of _ "sum_sessions s"]) (auto simp: summarize_def summarized_def Let_def)
next
  case False
  then show ?thesis using assms
    by (auto simp: summarize_def summarized_def Let_def last_n_def
      intro!: exI [of _ "mput k (summarized Chat (sum_threshold s) xs) (sum_sessions s)"])
qed

interpretation summary: memory_store summary_contents Summary_Load "\<lambda>s k ms. snd (Summary_Save Chat s k ms)" Summary_Clear
  "summary_inv n m" summary_tracked m "summarized Chat n" for Chat :: "string \<Rightarrow> string option" and n m :: int
proof
  fix s k k' and ms :: "Message list"
  show "finite (summary_tracked s)" by (simp add: summary_tracked_def)
  assume inv: "summary_inv n m s"
  then have ok: "lru_ok (sum_lru s)" "0 < m" "sum_maxSessions s = m" "sum_threshold s = n" "0 < n"
    by (auto simp: summary_inv_def)
  show "fst (Summary_Load s k) = summary_contents s k" by (simp add: Summary_Load_def summary_contents_def)
  show "summary_inv n m (snd (Summary_Load s k)) \<and> summary_contents (snd (Summary_Load s k)) = summary_contents s \<and>
      summary_tracked (snd (Summary_Load s k)) \<subseteq> insert k (summary_tracked s)"
    using inv ok(1) by (simp add: Summary_Load_def summary_inv_def summary_contents_def summary_tracked_def)
  show "summary_inv n m (Summary_Clear s k) \<and> summary_contents (Summary_Clear s k) = (summary_contents s)(k := []) \<and>
      summary_tracked (Summary_Clear s k) \<subseteq> summary_tracked s"
    using inv ok(1)
    by (auto simp: Summary_Clear_def summary_inv_def summary_contents_def summary_tracked_def mget0_def fun_eq_iff)
  let ?ex = "mget0 [] (sum_sessions s) k @ ms"
  obtain l' ss' where ev: "evict_sessions m (Promote k (sum_lru s)) (mput k ?ex (sum_sessions s)) = (l', ss')" by fastforce
  note after = evict_after_promote [OF ok(1,2) ev]
  have "mget0 [] ss' k = ?ex" using after(3) by (simp add: mget0_def)
  then have ex: "mget0 [] (sum_sessions (s\<lparr>sum_sessions := ss', sum_lru := l'\<rparr>)) k = ?ex" by simp
  have run: "snd (Summary_Save Chat s k ms) =
      (if int (length ?ex) > n then snd (summarize Chat (s\<lparr>sum_sessions := ss', sum_lru := l'\<rparr>) k)
       else s\<lparr>sum_sessions := ss', sum_lru := l'\<rparr>)"
    unfolding Summary_Save_def Let_def ok(3,4) ev prod.case by (simp only: if_distrib [of snd] snd_conv)
  obtain ss'' where save: "snd (Summary_Save Chat s k ms) = s\<lparr>sum_sessions := ss'', sum_lru := l'\<rparr>"
    and ss'': "mget0 [] ss'' k = summarized Chat n ?ex" "\<And>k'. k' \<noteq> k \<Longrightarrow> mget0 [] ss'' k' = mget0 [] ss' k'"
  proof (cases "int (length ?ex) > n")
    case True
    from summarize_sessions [OF ex, of Chat] obtain ss where
      a: "snd (summarize Chat (s\<lparr>sum_sessions := ss', sum_lru := l'\<rparr>) k) = s\<lparr>sum_sessions := ss', sum_lru := l', sum_sessions := ss\<rparr>"
      and b: "mget0 [] ss k = summarized Chat (sum_threshold (s\<lparr>sum_sessions := ss', sum_lru := l'\<rparr>)) ?ex"
      and c: "\<forall>k'. k' \<noteq> k \<longrightarrow> mget0 [] ss k' = mget0 [] (sum_sessions (s\<lparr>sum_sessions := ss', sum_lru := l'\<rparr>)) k'"
      by blast
    show ?thesis
    proof (rule that [of ss])
      show "snd (Summary_Save Chat s k ms) = s\<lparr>sum_sessions := ss, sum_lru := l'\<rparr>" unfolding run a using True by simp
      show "mget0 [] ss k = summarized Chat n ?ex" using b by (simp add: ok(4))
      show "mget0 [] ss k' = mget0 [] ss' k'" if "k' \<noteq> k" for k' using c that by simp
    qed
  next
    case False
    then have "summarized Chat n ?ex = ?ex" by (simp add: summarized_def)
    with False run that [of ss'] ex show ?thesis by simp
  qed
  show "summary_inv n m (snd (Summary_Save Chat s k ms)) \<and>
      summary_tracked (snd (Summary_Save Chat s k ms)) \<subseteq> insert k (summary_tracked s)"
    using inv after by (simp add: save summary_inv_def summary_tracked_def)
  show "summary_contents (snd (Summary_Save Chat s k ms)) k = summarized Chat n (summary_contents s k @ ms)"
    using ss''(1) by (simp add: save summary_contents_def)
  show "summary_contents (snd (Summary_Save Chat s k ms)) k' = summary_contents s k'"
    if "k' \<noteq> k" "int (card (insert k (summary_tracked s))) \<le> m"
    using evict_after_promote_fits [OF ok(1) _ ev] that ss''(2)
    by (simp add: save summary_contents_def summary_tracked_def)
qed

subsection \<open>Histories\<close>

text \<open>The messages saved for a session since it was last cleared.\<close>

definition saved :: "string \<Rightarrow> memory_op list \<Rightarrow> Message list" where
  "saved k ops = kept (\<lambda>xs. xs) k ops []"

lemma last_n_append: "last_n n (last_n n h @ ms) = last_n n (h @ ms)"
  by (cases "nat n \<le> length h") (simp_all add: last_n_def add.commute)

lemma kept_last_n: "kept (last_n n) k ops (last_n n h) = last_n n (kept (\<lambda>xs. xs) k ops h)"
proof (induction ops arbitrary: h)
  case (Cons oper ops)
  have "last_n n [] = ([] :: Message list)" by (simp add: last_n_def)
  with Cons.IH [of "[]"] Cons.IH show ?case by (cases oper) (auto simp: last_n_append)
qed simp

lemma NewSlidingWindow_inv:
  assumes "0 < n" "0 < m"
  shows "window_inv n m (NewSlidingWindow n [WithMaxSessions m])"
    "window_contents (NewSlidingWindow n [WithMaxSessions m]) k = []"
    "window_tracked (NewSlidingWindow n [WithMaxSessions m]) = {}"
  using assms by (simp_all add: NewSlidingWindow_def WithMaxSessions_def window_inv_def window_contents_def
    window_tracked_def NewLRU_def lru_ok_def)

text \<open>
  C25. After any sequence of loads, saves and clears on at most as many sessions as the store may
  track, loading a session from a sliding window returns the last messages saved for it since it
  was cleared, as many as the window holds, in the order in which they were saved.
\<close>

theorem SlidingWindow_history:
  assumes "0 < n" "0 < m" "int (card (op_session ` set ops)) \<le> m"
  shows "fst (Window_Load (run_memory Window_Load Window_Save Window_Clear ops
      (NewSlidingWindow n [WithMaxSessions m])) k) = last_n n (saved k ops)"
proof -
  note new = NewSlidingWindow_inv [OF assms(1,2)]
  have "last_n n [] = ([] :: Message list)" by (simp add: last_n_def)
  with window.run_contents [OF new(1), of ops k] assms(3) kept_last_n [of n k ops "[]"] show ?thesis
    by (simp add: new(2,3) saved_def)
qed

definition sample_memory_ops :: "memory_op list" where
  "sample_memory_ops =
     [SaveOp ''s'' [text_message RoleUser ''1'', text_message RoleUser ''2''], LoadOp ''t'',
      SaveOp ''s'' [text_message RoleUser ''3'']]"

theorem SlidingWindow_history_witness:
  "fst (Window_Load (run_memory Window_Load Window_Save Window_Clear sample_memory_ops
      (NewSlidingWindow 2 [WithMaxSessions 2])) ''s'') = [text_message RoleUser ''2'', text_message RoleUser ''3'']"
proof -
  have "last_n 2 (saved ''s'' sample_memory_ops) = [text_message RoleUser ''2'', text_message RoleUser ''3'']"
    by (simp add: last_n_def saved_def sample_memory_ops_def)
  with SlidingWindow_history [of 2 2 sample_memory_ops "''s''"] show ?thesis
    by (simp add: sample_memory_ops_def card_insert_if)
qed

end
