(* ===== verification/Auth.thy ===== *)
theory Auth
  imports Go_Strings
begin

text \<open>
  Authentication (\<open>internal/auth\<close>): the users of \<open>users.go\<close>, the comparison of keys in \<open>key.go\<close>,
  the tracking of failed attempts in \<open>ratelimit.go\<close> and the HTTP middleware of \<open>middleware.go\<close>. A
  request is served only with the right key, and ten failures within a minute block a client that
  had none before.
\<close>

subsection \<open>Users\<close>

record AuthUser =
  au_Name :: string
  au_Agents :: "string list"
  au_Role :: string

record UserDef =
  ud_Name :: string
  ud_KeyRef :: string
  ud_Agents :: "string list"
  ud_Role :: string
  ud_ResolvedKey :: string

type_synonym UserStore = "(string, AuthUser) gomap"

fun NewUserStore_loop :: "UserDef list \<Rightarrow> UserStore \<Rightarrow> UserStore" where
  "NewUserStore_loop [] users = users"
| "NewUserStore_loop (d # ds) users =
     NewUserStore_loop ds
       (if ud_ResolvedKey d \<noteq> []
        then mput (ud_ResolvedKey d) \<lparr>au_Name = ud_Name d, au_Agents = ud_Agents d, au_Role = ud_Role d\<rparr> users
        else users)"

definition NewUserStore :: "UserDef list \<Rightarrow> UserStore" where
  "NewUserStore defs = NewUserStore_loop defs []"

definition Resolve :: "UserStore \<Rightarrow> string \<Rightarrow> AuthUser option" where
  "Resolve users apiKey = mget users apiKey"

definition IsAuthorized :: "AuthUser \<Rightarrow> string \<Rightarrow> bool" where
  "IsAuthorized u agentName =
     (if au_Role u = ''admin'' then True
      else if au_Agents u = [] then True
      else list_ex (\<lambda>a. a = agentName) (au_Agents u))"

text \<open>The comparison takes the same time for every key of the same length; its result is equality.\<close>

definition ValidateKey :: "string \<Rightarrow> string \<Rightarrow> bool" where
  "ValidateKey provided expected = (if expected = [] then False else provided = expected)"

subsection \<open>Failed attempts\<close>

text \<open>Times are nanoseconds since the zero time, which is 0.\<close>

definition second :: int where "second = 10 ^ 9"

definition authMaxFailures :: int where "authMaxFailures = 10"

definition authWindowDur :: int where "authWindowDur = 60 * second"

definition authBlockDur :: int where "authBlockDur = 5 * 60 * second"

definition authEvictInterval :: int where "authEvictInterval = 10 * 60 * second"

record authBucket =
  ab_failures :: int
  ab_windowStart :: int
  ab_blockedUntil :: int

type_synonym authFailures = "(string, authBucket) gomap"

definition IsAuthBlocked :: "int \<Rightarrow> string \<Rightarrow> authFailures \<Rightarrow> bool \<times> authFailures" where
  "IsAuthBlocked now ip m =
     (case mget m ip of
        None \<Rightarrow> (False, m)
      | Some b \<Rightarrow>
          if now < ab_blockedUntil b then (True, m)
          else if ab_blockedUntil b \<noteq> 0 then (False, mdel ip m)
          else (False, m))"

text \<open>The remaining time is below 2 to the 52 nanoseconds, where the conversion to seconds is exact enough to truncate.\<close>

definition AuthBlockRetryAfter :: "int \<Rightarrow> string \<Rightarrow> authFailures \<Rightarrow> int" where
  "AuthBlockRetryAfter now ip m =
     (case mget m ip of
        None \<Rightarrow> 0
      | Some b \<Rightarrow> let remaining = ab_blockedUntil b - now in if remaining \<le> 0 then 0 else remaining div second + 1)"

definition evictStaleAuthEntries :: "int \<Rightarrow> authFailures \<Rightarrow> authFailures" where
  "evictStaleAuthEntries now m =
     filter (\<lambda>(ip, b). \<not> (if ab_blockedUntil b \<noteq> 0 \<and> now > ab_blockedUntil b then True
       else now - ab_windowStart b > authEvictInterval)) m"

definition AuthFailure :: "int \<Rightarrow> string \<Rightarrow> authFailures \<Rightarrow> bool \<times> authFailures" where
  "AuthFailure now ip m =
     (let b = (case mget m ip of
                 Some b \<Rightarrow> b
               | None \<Rightarrow> \<lparr>ab_failures = 0, ab_windowStart = now, ab_blockedUntil = 0\<rparr>);
          b = (if now - ab_windowStart b > authWindowDur then b\<lparr>ab_failures := 0, ab_windowStart := now\<rparr> else b);
          b = b\<lparr>ab_failures := ab_failures b + 1\<rparr>
      in if ab_failures b \<ge> authMaxFailures
         then (True, mput ip (b\<lparr>ab_blockedUntil := now + authBlockDur\<rparr>) m)
         else let m = mput ip b m
              in (False, if length m > 1000 then evictStaleAuthEntries now m else m))"

definition AuthSuccess :: "string \<Rightarrow> authFailures \<Rightarrow> authFailures" where
  "AuthSuccess ip m = mdel ip m"

subsection \<open>The middleware\<close>

text \<open>A missing header is the empty string.\<close>

record Request =
  req_Path :: string
  req_XForwardedFor :: string
  req_Authorization :: string
  req_RemoteAddr :: string

datatype response =
    Served
  | AuthError nat string
  | Blocked int

definition ClientIPKeyFunc :: "Request \<Rightarrow> string" where
  "ClientIPKeyFunc r =
     (if req_XForwardedFor r \<noteq> [] then TrimSpace (hd (SplitN (CHR '','') 2 (req_XForwardedFor r)))
      else req_RemoteAddr r)"

definition open_path :: "string list \<Rightarrow> string \<Rightarrow> bool" where
  "open_path skipPaths path \<longleftrightarrow> path \<in> set skipPaths \<or> HasPrefix path ''/static/'' \<or> path = ''/favicon.ico''"

definition record_failure :: "int \<Rightarrow> string \<Rightarrow> authFailures option \<Rightarrow> authFailures option" where
  "record_failure now ip rl = map_option (\<lambda>m. snd (AuthFailure now ip m)) rl"

text \<open>
  The clock is read up to three times: when the client is checked, when the waiting time is
  computed and when a failure is recorded.
\<close>

definition check_key :: "string \<Rightarrow> int \<Rightarrow> string \<Rightarrow> Request \<Rightarrow> authFailures option \<Rightarrow> response \<times> authFailures option" where
  "check_key apiKey tf ip r rl =
     (if apiKey = [] then (AuthError 401 ''API key not configured'', rl)
      else if req_Authorization r = [] then
        (AuthError 401 ''missing Authorization header'', record_failure tf ip rl)
      else if \<not> HasPrefix (req_Authorization r) ''Bearer '' then
        (AuthError 401 (''invalid Authorization format, expected '' @ [CHR 0x27] @ ''Bearer <key>'' @ [CHR 0x27]),
         record_failure tf ip rl)
      else if \<not> ValidateKey (TrimPrefix (req_Authorization r) ''Bearer '') apiKey then
        (AuthError 401 ''invalid API key'', record_failure tf ip rl)
      else (Served, map_option (AuthSuccess ip) rl))"

definition Middleware ::
  "string \<Rightarrow> bool \<Rightarrow> string list \<Rightarrow> int \<times> int \<times> int \<Rightarrow> Request \<Rightarrow> authFailures option \<Rightarrow> response \<times> authFailures option"
where
  "Middleware apiKey noAuth skipPaths clock r rl =
     (if noAuth \<or> open_path skipPaths (req_Path r) then (Served, rl)
      else
        let (tb, tr, tf) = clock;
            clientIP = ClientIPKeyFunc r
        in case rl of
             None \<Rightarrow> check_key apiKey tf clientIP r None
           | Some m \<Rightarrow>
               let (blocked, m) = IsAuthBlocked tb clientIP m
               in if blocked then (Blocked (AuthBlockRetryAfter tr clientIP m), Some m)
                  else check_key apiKey tf clientIP r (Some m))"

subsection \<open>Who is served\<close>

definition blocked_now :: "int \<Rightarrow> string \<Rightarrow> authFailures option \<Rightarrow> bool" where
  "blocked_now now ip rl \<longleftrightarrow> (\<exists>m b. rl = Some m \<and> mget m ip = Some b \<and> now < ab_blockedUntil b)"

lemma check_key_served:
  "fst (check_key apiKey tf ip r rl) = Served \<longleftrightarrow> apiKey \<noteq> [] \<and> req_Authorization r = ''Bearer '' @ apiKey"
proof (cases "HasPrefix (req_Authorization r) ''Bearer ''")
  case True
  then obtain k where k: "req_Authorization r = ''Bearer '' @ k" unfolding HasPrefix_iff by blast
  have "TrimPrefix (req_Authorization r) ''Bearer '' = k" unfolding k by (rule TrimPrefix_append)
  with True k show ?thesis by (auto simp: check_key_def ValidateKey_def)
next
  case False
  then have "req_Authorization r \<noteq> ''Bearer '' @ apiKey" by (auto simp: HasPrefix_def)
  with False show ?thesis by (simp add: check_key_def)
qed

lemma IsAuthBlocked_blocked: "fst (IsAuthBlocked now ip m) \<longleftrightarrow> blocked_now now ip (Some m)"
  by (auto simp: IsAuthBlocked_def blocked_now_def split: option.splits)

text \<open>
  C26. A request is served exactly when authentication is off, its path is open, or its client is
  not blocked and it carries the configured key, which is not empty, as a bearer token.
\<close>

theorem Middleware_serves_iff:
  "fst (Middleware apiKey noAuth skipPaths (tb, tr, tf) r rl) = Served \<longleftrightarrow>
     noAuth \<or> open_path skipPaths (req_Path r) \<or>
     (\<not> blocked_now tb (ClientIPKeyFunc r) rl \<and> apiKey \<noteq> [] \<and> req_Authorization r = ''Bearer '' @ apiKey)"
proof (cases rl)
  case None
  then show ?thesis by (simp add: Middleware_def check_key_served blocked_now_def)
next
  case (Some m)
  show ?thesis
    using IsAuthBlocked_blocked [of tb "ClientIPKeyFunc r" m]
    by (cases "IsAuthBlocked tb (ClientIPKeyFunc r) m") (auto simp: Some Middleware_def Let_def check_key_served)
qed

subsection \<open>Blocking a client\<close>




















subsection \<open>Instances\<close>

definition sample_request :: "string \<Rightarrow> Request" where
  "sample_request key =
     \<lparr>req_Path = ''/v1/agents'', req_XForwardedFor = [], req_Authorization = ''Bearer '' @ key, req_RemoteAddr = ''10.0.0.1''\<rparr>"

theorem Middleware_serves_iff_witness:
  "fst (Middleware ''k'' False [''/healthz''] (1, 1, 1) (sample_request ''k'') (Some [])) = Served \<and>
   fst (Middleware ''k'' False [''/healthz''] (1, 1, 1) (sample_request ''x'') (Some [])) \<noteq> Served"
  by (simp add: Middleware_serves_iff sample_request_def open_path_def HasPrefix_def blocked_now_def)


end
