(* ===== verification/Spec2Isabelle.thy ===== *)
theory Spec2Isabelle
  imports Pipeline_Exec Apply Imports_MVS Lexer_Roundtrip Validate_Structural Policy_Engine Conversation_Memory Auth
begin

text \<open>
  AgentSpec reads specifications of agents written in IntentLang, turns them into a document of
  resources, and deploys the difference between that document and the stored state. This library
  models that path, from the bytes of a source file to the state file, and components beside it:
  policies, the execution of pipelines, the selection of import versions, and the conversation
  memory and authentication of the runtime.

  \<^bold>\<open>Parts and theories.\<close> The order is that of the data flow.

  \<^item> Text to tokens. \<open>Lexer_Tokens\<close> has the token types and the keyword table of
    \<open>internal/parser/token.go\<close>, \<open>Lexer\<close> one definition for each method of \<open>lexer.go\<close>, on bytes
    (\<open>Go_UTF8\<close> decodes runes). The lexer ends on every input with tokens in source order and one
    end-of-file token (\<open>Tokenize_ordered\<close>). \<open>Lexer_Roundtrip\<close> prints lexemes and shows that the
    text is read back as the same lexemes, string escapes included.
  \<^item> Tokens to a syntax tree. \<open>AST\<close> has the nodes of \<open>internal/ast/ast.go\<close> as records.
    \<open>Parser_Base\<close>, \<open>Parser_Blocks\<close>, \<open>Parser_OnInput\<close>, \<open>Parser_Stmts\<close> and \<open>Parser_Files\<close> hold the
    whole of \<open>parser.go\<close>: navigation, inner blocks, nested statements, one function for each kind
    of statement, and \<open>Parse\<close>; \<open>Go_Float\<close> reads decimal numbers. \<open>Parse\<close> returns on every input, a
    clean parse has a package header and declares no name twice, and errors come in source order
    as long as the parser has not stepped over the end of the file.
  \<^item> Validation. \<open>Validate_Names\<close> and \<open>Validate_Semantic\<close> model \<open>semantic.go\<close> and
    \<open>environment.go\<close> of \<open>internal/validate\<close>, \<open>Validate_Structural\<close> the checks of \<open>structural.go\<close>. The
    edit distance behind the suggestions is the least number of edits. What the validations promise
    is shown for what follows them: agents of the document are complete, and a pipeline fails to be
    scheduled only because of a cycle.
  \<^item> The document. \<open>IR\<close> has the types of \<open>internal/ir/ir.go\<close> and \<open>ApplyEnvironment\<close>; \<open>Lower\<close> has
    every case of \<open>lower.go\<close>. \<open>Frontend\<close> composes parser, validation, lowering and planning:
    resources of a parsed file have distinct names and one planned action each, and in a validated
    file every reference resolves.
  \<^item> Policies. \<open>Policy_Engine\<close> has \<open>internal/policy\<close> and the check of the apply command. The engine
    is a locale interpreted on \<open>Evaluate\<close>; enforcement accepts exactly when no rule is violated, and
    rules of the documented form are never violated by a document made from a source file.
  \<^item> Planning and applying. \<open>Plan\<close> (\<open>internal/plan\<close>) classifies the changes and detects drift.
    \<open>State_Backend\<close> (\<open>internal/state/local.go\<close>) has the state file with its backup, cache and
    index over a file system with failing operations. \<open>Save\<close> is the list of the calls it makes on
    the disk, so a crash is a prefix of that list. \<open>Apply\<close> (\<open>internal/apply\<close> and
    the adapter interface) is proved over the interfaces \<open>state_backend\<close> and \<open>adapter\<close>, which are
    locales interpreted on the local backend and the local adapter.
  \<^item> Pipelines. \<open>Pipeline_DAG\<close> and \<open>Pipeline_Exec\<close> (\<open>internal/pipeline\<close>): the layered
    topological sort against a reference layering, and the executor with the context that a failed
    step cancels for its siblings. The order in which goroutines finish decides nothing in a run
    without a failure, and in a failed run only what the cancelled siblings return.
  \<^item> Imports. \<open>Imports_MVS\<close> (\<open>internal/imports/mvs.go\<close>): minimal version selection and the
    validation of constraints.
  \<^item> Runtime. \<open>Conversation_Memory\<close> (\<open>internal/memory\<close>): the interface of a store is a locale
    interpreted on the sliding window and on the summarizing store; a window returns the last
    messages saved. \<open>Auth\<close> (\<open>internal/auth\<close>): who is served by the middleware, and when a client is
    blocked.

  \<^bold>\<open>How the code is represented.\<close> \<open>Prelude\<close> and \<open>Go_Strings\<close> hold the shared vocabulary. A Go
  string is a list of bytes, a struct a record whose fields have a short prefix, a map an
  association list, an error the left side of a sum. The order in which \<open>range\<close> visits a map is an
  argument, any rearrangement of the keys (\<open>range_order\<close>). Integers that are counters or positions
  are unbounded; token counts are 64-bit words, \<open>Atoi\<close> has the range of 64 bits, and \<open>float64\<close> is a
  rational rounded to 53 bits. \<open>sort.Slice\<close>, which leaves the order of equal elements open, is the
  stable sort: the theorems use it on elements with distinct keys, or do not depend on that order.

  \<^bold>\<open>Loops and bounds.\<close> The loops of the parser and of \<open>resolveEnvVars\<close> are partial functions
  with result \<open>None\<close> when they do not return. The parser is shown to return always;
  \<open>resolveEnvVars\<close> returns when no variable has a value with a dollar sign in it, and does not when a
  variable refers to itself. The nesting of on-input statements is bounded by one more than the
  number of tokens, which is enough because each level reads a token. The topological sort, the
  lexer and the eviction of sessions are total functions with a decreasing measure.

  \<^bold>\<open>Parameters.\<close> Code outside the repository is an argument: the Unicode letter and digit tables,
  \<open>strings.EqualFold\<close>, the hash of the attributes, environment variables, file system
  failures, the clock, the agent invoker, the language model and the adapters. Their laws
  are hypotheses, and each theorem with hypotheses has an instance with concrete functions.

  \<^bold>\<open>Not modelled.\<close> The formatter, the import graph, lock file and resolver, and the cost tables are
  outside the present library, as are the token bucket of the rate limiter, which counts in floating
  point, and the audit log. The state backends on etcd, Kubernetes, PostgreSQL and S3, the
  deployment adapters, the operator, the plugin host, the language-model clients, tools, sessions,
  the package registry and the HTTP server call third-party services or processes, and what they do
  is decided there. The compiler targets, graph views, SDK generator and plan output print text. The
  expression evaluator is a third-party language, and the command line wires these parts together.
  The text of messages with \<open>%q\<close> and the contents of hashes are kept symbolic, and a stored file is
  what \<open>json.Unmarshal\<close> makes of its bytes; writing a value and reading it back is the identity, as
  it is for strings of valid UTF-8.
\<close>

end
